theory Spec2Isabelle
  imports Complex_Main "HOL-Library.AList"
begin

section \<open>Python values, exceptions and data frames\<close>

text \<open>
  The gating engine of \<^verbatim>\<open>cytopy/flow/gating/actions.py\<close> works on pandas data frames
  whose row labels are event identifiers, on geometry dictionaries (\<^verbatim>\<open>geom\<close>) and on
  dictionaries keyed by population, gate and control names. Dictionaries are association
  lists (Python dictionaries keep insertion order); an exception raised by the source is
  the left injection of a sum.

  A cell of a data frame, a threshold and every other number of a geometry is a Python
  float: NaN or a finite number. Finite numbers are rationals and arithmetic on them is
  exact; the infinities are not represented.
\<close>

datatype pyfloat = NaN | Fin rat

text \<open>
  The comparison operators of floats: every comparison with NaN is false, so that neither
  \<^verbatim>\<open>a >= b\<close> nor \<^verbatim>\<open>a < b\<close> holds when one side is NaN.
\<close>

instantiation pyfloat :: ord
begin

definition less_eq_pyfloat :: "pyfloat \<Rightarrow> pyfloat \<Rightarrow> bool" where
  "less_eq_pyfloat a b = (case (a, b) of (Fin x, Fin y) \<Rightarrow> x \<le> y | _ \<Rightarrow> False)"

definition less_pyfloat :: "pyfloat \<Rightarrow> pyfloat \<Rightarrow> bool" where
  "less_pyfloat a b = (case (a, b) of (Fin x, Fin y) \<Rightarrow> x < y | _ \<Rightarrow> False)"

instance ..

end

text \<open>The float \<^verbatim>\<open>0.0\<close>, the only float that is false as a condition.\<close>

instantiation pyfloat :: zero
begin

definition zero_pyfloat :: pyfloat where
  "zero_pyfloat = Fin 0"

instance ..

end

text \<open>\<^verbatim>\<open>a == b\<close> on two optional floats: \<^verbatim>\<open>None == None\<close> holds, NaN equals nothing.\<close>

definition float_eq :: "pyfloat option \<Rightarrow> pyfloat option \<Rightarrow> bool" where
  "float_eq a b =
     (case (a, b) of
        (None, None) \<Rightarrow> True
      | (Some (Fin x), Some (Fin y)) \<Rightarrow> x = y
      | _ \<Rightarrow> False)"

datatype error =
  AssertionError | KeyError | ValueError | TypeError | AttributeError
  | ZeroDivisionError | ExternalError

type_synonym event = nat

type_synonym addr = nat

text \<open>
  The Python values that occur in geometries and gate arguments: \<^verbatim>\<open>None\<close>, strings,
  numbers, lists, dictionaries and arrays of event identifiers.
\<close>

datatype 'v pyval =
  PNone | PStr string | PNum 'v | PList "'v pyval list" | PDict "(string \<times> 'v pyval) list"
  | PIndex "nat list"

type_synonym 'v pydict = "(string \<times> 'v pyval) list"

record 'v dataframe =
  columns :: "string list"
  rows :: "(event \<times> (string \<Rightarrow> 'v)) list"

definition bind_err :: "error + 'a \<Rightarrow> ('a \<Rightarrow> error + 'b) \<Rightarrow> error + 'b" where
  "bind_err m f = (case m of Inl e \<Rightarrow> Inl e | Inr a \<Rightarrow> f a)"

text \<open>\<^verbatim>\<open>d[k]\<close> on a dictionary: \<^verbatim>\<open>KeyError\<close> when the key is missing.\<close>

definition getitem :: "(string \<times> 'a) list \<Rightarrow> string \<Rightarrow> error + 'a" where
  "getitem d k = (case map_of d k of None \<Rightarrow> Inl KeyError | Some v \<Rightarrow> Inr v)"

text \<open>\<^verbatim>\<open>df.index.values\<close>: the row labels, in row order.\<close>

definition df_index :: "'v dataframe \<Rightarrow> event list" where
  "df_index p = map fst (rows p)"

text \<open>\<^verbatim>\<open>p[c]\<close> for a column label \<^verbatim>\<open>c\<close>: \<^verbatim>\<open>KeyError\<close> unless \<^verbatim>\<open>c\<close> names a column.\<close>

definition column :: "'v dataframe \<Rightarrow> 'v pyval \<Rightarrow> error + string" where
  "column p k =
     (case k of
        PStr c \<Rightarrow> if c \<in> set (columns p) then Inr c else Inl KeyError
      | _ \<Rightarrow> Inl KeyError)"

text \<open>\<^verbatim>\<open>p[mask].index.values\<close> for a row-wise boolean mask.\<close>

definition index_where :: "'v dataframe \<Rightarrow> ((string \<Rightarrow> 'v) \<Rightarrow> bool) \<Rightarrow> event list" where
  "index_where p keep = map fst (filter (\<lambda>(i, r). keep r) (rows p))"

text \<open>
  Rounding to a number of decimal places. Both numpy's \<^verbatim>\<open>round\<close> (behind
  \<^verbatim>\<open>DataFrame.round(decimals=2)\<close>) and the builtin \<^verbatim>\<open>round(t, 2)\<close> round to the nearest
  multiple of \<open>1 / 10 ^ k\<close> and a tie to the even one; NaN stays NaN. (On binary floats the
  scaling is inexact; the model rounds the exact value.)
\<close>

definition rint :: "rat \<Rightarrow> int" where
  "rint x =
     (let f = \<lfloor>x\<rfloor> in
      if x - of_int f < 1 / 2 then f
      else if 1 / 2 < x - of_int f then f + 1
      else if even f then f else f + 1)"

definition round_decimals :: "nat \<Rightarrow> pyfloat \<Rightarrow> pyfloat" where
  "round_decimals decimals v =
     (case v of
        NaN \<Rightarrow> NaN
      | Fin x \<Rightarrow> Fin (of_int (rint (x * 10 ^ decimals)) / 10 ^ decimals))"

text \<open>
  \<^verbatim>\<open>p.round(...)\<close> applies a rounding function to every cell, and \<^verbatim>\<open>round(t, ...)\<close> one
  to a threshold, which must be a number.
\<close>

definition df_round :: "('v \<Rightarrow> 'v) \<Rightarrow> 'v dataframe \<Rightarrow> 'v dataframe" where
  "df_round np_round p = p\<lparr>rows := map (\<lambda>(i, r). (i, \<lambda>c. np_round (r c))) (rows p)\<rparr>"

definition py_round :: "('v \<Rightarrow> 'v) \<Rightarrow> 'v pyval \<Rightarrow> error + 'v" where
  "py_round round2 v = (case v of PNum t \<Rightarrow> Inr (round2 t) | _ \<Rightarrow> Inl TypeError)"

section \<open>Region evaluation: the two-dimensional threshold\<close>

text \<open>
  \<^verbatim>\<open>p[(p[xcol] ? tx) & (p[ycol] ? ty)].index.values\<close>, for the two comparisons of one
  quadrant.
\<close>

definition quadrant ::
  "'v dataframe \<Rightarrow> 'v pyval \<Rightarrow> 'v pyval \<Rightarrow> ('v \<Rightarrow> bool) \<Rightarrow> ('v \<Rightarrow> bool) \<Rightarrow> error + event list" where
  "quadrant p xcol ycol in_x in_y =
     bind_err (column p xcol) (\<lambda>cx.
     bind_err (column p ycol) (\<lambda>cy.
       Inr (index_where p (\<lambda>r. in_x (r cx) \<and> in_y (r cy)))))"

text \<open>
  The local function \<^verbatim>\<open>geom_bool\<close> of \<^verbatim>\<open>Gating.__update_index\<close>. The two roundings are
  arguments here; the branch \<^verbatim>\<open>2d_threshold\<close> below passes the rounding to 2 decimals.
\<close>

definition geom_bool ::
  "(pyfloat \<Rightarrow> pyfloat) \<Rightarrow> (pyfloat \<Rightarrow> pyfloat) \<Rightarrow> pyfloat pydict \<Rightarrow> pyfloat pyval
     \<Rightarrow> pyfloat dataframe \<Rightarrow> error + event list" where
  "geom_bool np_round round2 geom definition p0 =
     (let p = df_round np_round p0 in
      bind_err (getitem geom ''x'') (\<lambda>xcol.
      bind_err (getitem geom ''y'') (\<lambda>ycol.
      bind_err (bind_err (getitem geom ''threshold_x'') (py_round round2)) (\<lambda>tx.
      bind_err (bind_err (getitem geom ''threshold_y'') (py_round round2)) (\<lambda>ty.
        if definition = PStr ''++'' then quadrant p xcol ycol (\<lambda>a. a > tx) (\<lambda>b. b > ty)
        else if definition = PStr ''--'' then quadrant p xcol ycol (\<lambda>a. a < tx) (\<lambda>b. b < ty)
        else if definition = PStr ''+-'' then quadrant p xcol ycol (\<lambda>a. a > tx) (\<lambda>b. b < ty)
        else if definition = PStr ''-+'' then quadrant p xcol ycol (\<lambda>a. a < tx) (\<lambda>b. b > ty)
        else Inl ValueError)))))"


subsection \<open>A concrete parent data set for the two-dimensional threshold\<close>

text \<open>
  Six events. The thresholds 0.121 and 0.309 round to 0.12 and 0.31; the x value 0.124 of
  event 5 and the y value 0.314 of event 6 round onto them.
\<close>

definition demo_geom :: "pyfloat pydict" where
  "demo_geom = [(''shape'', PStr ''2d_threshold''), (''x'', PStr ''CD4''), (''y'', PStr ''CD8''),
     (''transform_x'', PNone), (''transform_y'', PNone),
     (''threshold_x'', PNum (Fin (121 / 1000))), (''threshold_y'', PNum (Fin (309 / 1000)))]"

definition demo_row :: "rat \<Rightarrow> rat \<Rightarrow> string \<Rightarrow> pyfloat" where
  "demo_row a b c = (if c = ''CD4'' then Fin a else if c = ''CD8'' then Fin b else Fin 0)"

definition demo_parent :: "pyfloat dataframe" where
  "demo_parent = \<lparr>columns = [''CD4'', ''CD8'', ''FSC-A''],
     rows = [(1, demo_row (4 / 10) (5 / 10)), (2, demo_row 0 0), (3, demo_row (4 / 10) 0),
             (4, demo_row 0 (5 / 10)), (5, demo_row (124 / 1000) (5 / 10)),
             (6, demo_row (4 / 10) (314 / 1000))]\<rparr>"
section \<open>One-dimensional thresholds\<close>

text \<open>
  The \<^verbatim>\<open>threshold\<close> branch of \<^verbatim>\<open>Gating.__update_index\<close>: three assertions on the keys
  of the geometry, then \<^verbatim>\<open>parent[parent[geom['x']] >= geom['threshold']].index.values\<close>
  for the definition \<^verbatim>\<open>+\<close> and the same with \<^verbatim>\<open><\<close> for \<^verbatim>\<open>-\<close>. Comparing a column with
  a threshold that is not a number is a \<^verbatim>\<open>TypeError\<close>.
\<close>

definition has_key :: "(string \<times> 'a) list \<Rightarrow> string \<Rightarrow> bool" where
  "has_key d k = (map_of d k \<noteq> None)"

definition compare_column ::
  "'v dataframe \<Rightarrow> 'v pydict \<Rightarrow> ('v \<Rightarrow> 'v \<Rightarrow> bool) \<Rightarrow> error + event list" where
  "compare_column parent geom cmp =
     bind_err (getitem geom ''x'') (\<lambda>xcol.
     bind_err (column parent xcol) (\<lambda>c.
     bind_err (getitem geom ''threshold'') (\<lambda>t.
       case t of
         PNum thr \<Rightarrow> Inr (index_where parent (\<lambda>r. cmp (r c) thr))
       | _ \<Rightarrow> Inl TypeError)))"

definition threshold_1d :: "pyfloat pydict \<Rightarrow> pyfloat dataframe \<Rightarrow> error + event list" where
  "threshold_1d geom parent =
     (if \<not> has_key geom ''threshold'' then Inl AssertionError
      else if \<not> has_key geom ''transform_x'' then Inl AssertionError
      else if \<not> has_key geom ''definition'' then Inl AssertionError
      else bind_err (getitem geom ''definition'') (\<lambda>d.
        if d = PStr ''+'' then compare_column parent geom (\<lambda>a thr. a \<ge> thr)
        else if d = PStr ''-'' then compare_column parent geom (\<lambda>a thr. a < thr)
        else Inl ValueError))"

section \<open>Population documents and their merge\<close>

text \<open>
  \<^verbatim>\<open>CytoPy/data/population.py\<close>. A \<^verbatim>\<open>Population\<close> document with a threshold geometry;
  fields that mongoengine leaves unset are \<open>None\<close>. The signature of a population is
  merged by a pandas mean (\<^verbatim>\<open>_merge_signatures\<close>), which is the parameter \<open>merge_signatures\<close>
  over an arbitrary type of signatures.
\<close>

record 'v threshold_geom =
  geom_x :: "string option"
  geom_y :: "string option"
  transform_x :: "string option"
  transform_y :: "string option"
  x_threshold :: "'v option"
  y_threshold :: "'v option"

record cluster =
  cluster_id :: string
  meta_label :: "string option"
  tag :: string

record ('v, 's) population =
  pop_name :: string
  pop_n :: "nat option"
  pop_parent :: string
  pop_prop_of_parent :: "rat option"
  pop_prop_of_total :: "rat option"
  pop_warnings :: "string list"
  pop_geom :: "'v threshold_geom"
  clusters :: "cluster list"
  pop_definition :: "string option"
  pop_index :: "event list"
  ctrl_index :: "(string \<times> event list) list"
  signature :: 's

text \<open>
  \<^verbatim>\<open>np.unique(np.concatenate([left.index, right.index], axis=0), axis=0)\<close>: the sorted
  array of the distinct elements.
\<close>

definition np_unique :: "event list \<Rightarrow> event list" where
  "np_unique xs = sort (remdups xs)"

definition merge_index :: "('v, 's) population \<Rightarrow> ('v, 's) population \<Rightarrow> event list" where
  "merge_index left right = np_unique (pop_index left @ pop_index right)"

text \<open>\<^verbatim>\<open>",".join([a, b])\<close>: a \<^verbatim>\<open>TypeError\<close> when an item is \<^verbatim>\<open>None\<close>.\<close>

definition join_comma :: "string option \<Rightarrow> string option \<Rightarrow> error + string" where
  "join_comma a b =
     (case (a, b) of (Some s, Some t) \<Rightarrow> Inr (s @ '','' @ t) | _ \<Rightarrow> Inl TypeError)"

text \<open>
  \<^verbatim>\<open>_merge_thresholds\<close>. Besides the new population the model returns the left population
  after the call (the source empties \<^verbatim>\<open>left.clusters\<close> when either side has clusters) and
  the warnings issued. The count \<^verbatim>\<open>n\<close> of the new document is the sum of the two lengths,
  as the source passes it.
\<close>

definition merge_thresholds ::
  "('s \<Rightarrow> 's \<Rightarrow> 's) \<Rightarrow> (pyfloat, 's) population \<Rightarrow> (pyfloat, 's) population \<Rightarrow> string
     \<Rightarrow> error + ((pyfloat, 's) population \<times> (pyfloat, 's) population \<times> string list)" where
  "merge_thresholds merge_signatures left right new_population_name =
     (if \<not> float_eq (x_threshold (pop_geom left)) (x_threshold (pop_geom right))
      then Inl AssertionError
      else if \<not> float_eq (y_threshold (pop_geom left)) (y_threshold (pop_geom right))
      then Inl AssertionError
      else
        let void = (clusters left \<noteq> [] \<or> clusters right \<noteq> []);
            left' = (if void then left\<lparr>clusters := []\<rparr> else left);
            w1 = (if void
                  then [''Associated clusters are now void. Repeat clustering on new population'']
                  else []);
            w2 = (if length (ctrl_index left') > 0 \<or> length (ctrl_index right) > 0
                  then [''Associated control indexes are now void. Repeat control gating on new population'']
                  else []);
            new_geom = \<lparr>geom_x = geom_x (pop_geom left'), geom_y = geom_y (pop_geom left'),
                        transform_x = transform_x (pop_geom left'),
                        transform_y = transform_y (pop_geom left'),
                        x_threshold = x_threshold (pop_geom left'),
                        y_threshold = y_threshold (pop_geom left')\<rparr>
        in bind_err (join_comma (pop_definition left') (pop_definition right)) (\<lambda>d.
             Inr (\<lparr>pop_name = new_population_name,
                   pop_n = Some (length (pop_index left') + length (pop_index right)),
                   pop_parent = pop_parent left',
                   pop_prop_of_parent = None,
                   pop_prop_of_total = None,
                   pop_warnings = pop_warnings left' @ pop_warnings right @ [''MERGED POPULATION''],
                   pop_geom = new_geom,
                   clusters = [],
                   pop_definition = Some d,
                   pop_index = merge_index left' right,
                   ctrl_index = [],
                   signature = merge_signatures (signature left') (signature right)\<rparr>,
                  left', w1 @ w2)))"

subsection \<open>Two children of one one-dimensional threshold gate\<close>

definition demo_geom1d :: "string \<Rightarrow> pyfloat pydict" where
  "demo_geom1d d = [(''shape'', PStr ''threshold''), (''x'', PStr ''CD4''), (''y'', PNone),
     (''transform_x'', PStr ''logicle''), (''threshold'', PNum (Fin (12 / 100))),
     (''definition'', PStr d)]"

definition demo_threshold_geom :: "pyfloat threshold_geom" where
  "demo_threshold_geom = \<lparr>geom_x = Some ''CD4'', geom_y = None,
     transform_x = Some ''logicle'', transform_y = None,
     x_threshold = Some (Fin (12 / 100)), y_threshold = None\<rparr>"

definition demo_pop :: "string \<Rightarrow> string \<Rightarrow> event list \<Rightarrow> (pyfloat, unit) population" where
  "demo_pop nm d ix = \<lparr>pop_name = nm, pop_n = Some (length ix), pop_parent = ''root'',
     pop_prop_of_parent = None, pop_prop_of_total = None, pop_warnings = [],
     pop_geom = demo_threshold_geom, clusters = [], pop_definition = Some d,
     pop_index = ix, ctrl_index = [], signature = ()\<rparr>"

text \<open>A parent data set with one more event, whose cells are NaN.\<close>

definition demo_parent_nan :: "pyfloat dataframe" where
  "demo_parent_nan = demo_parent\<lparr>rows := rows demo_parent @ [(7, \<lambda>c. NaN)]\<rparr>"
section \<open>The gating engine: state\<close>

text \<open>
  \<^verbatim>\<open>cytopy/flow/gating/actions.py\<close>, class \<^verbatim>\<open>Gating\<close>. Populations are \<^verbatim>\<open>anytree\<close> nodes:
  objects with a parent pointer, held in the dictionary \<^verbatim>\<open>self.populations\<close> under their
  name. A node that leaves the dictionary stays in the tree, and a name that is bound again
  is bound to a new object, so the model keeps the objects in a store: the list \<open>heap\<close>,
  where the address of a node is its position and every \<^verbatim>\<open>Node(...)\<close> appends. The parent
  of a node is given to its constructor, and the engine never assigns a parent again except
  \<^verbatim>\<open>None\<close>: a parent's address is smaller than the node's.

  Messages printed by the source are not modelled: a function that prints a message and
  returns \<^verbatim>\<open>None\<close> returns \<open>None\<close> here. The persistence layer (\<^verbatim>\<open>self.filegroup\<close>) and
  plotting are outside the model.
\<close>

record 'v node =
  node_name :: string
  node_index :: "event list"
  node_geom :: "'v pydict option"
  prop_of_parent :: rat
  prop_of_total :: rat
  node_warnings :: "string list"
  node_parent :: "addr option"

record 'v gate =
  gate_name :: string
  children :: "string list"
  gate_parent :: string
  gate_method :: string
  kwargs :: "'v pydict"
  class_name :: string

record 'v engine =
  data :: "'v dataframe"
  fmo :: "(string \<times> 'v dataframe) list"
  fmo_search_cache :: "(string \<times> (string \<times> event list) list) list"
  gates :: "(string \<times> 'v gate) list"
  populations :: "(string \<times> addr) list"
  heap :: "'v node list"

text \<open>
  One population of a \<^verbatim>\<open>ChildPopulationCollection\<close> (\<^verbatim>\<open>defaults.py\<close>, not among the
  sources): the geometry set by \<^verbatim>\<open>update_geom\<close>, as the dictionary \<^verbatim>\<open>as_dict()\<close> returns,
  and the index set by \<^verbatim>\<open>update_index\<close>. A collection is the list of its named
  populations.
\<close>

record 'v child_population =
  cp_geom :: "'v pydict option"
  cp_index :: "event list"

type_synonym 'v collection = "(string \<times> 'v child_population) list"

text \<open>
  The state that \<^verbatim>\<open>__init__\<close> builds for a sample without saved populations, from the
  data, the controls and the gates of the file group: the root node holds every event of
  the data, and the cache of every control holds the index of the control for the root.
\<close>

definition new_gating ::
  "'v dataframe \<Rightarrow> (string \<times> 'v dataframe) list \<Rightarrow> (string \<times> 'v gate) list \<Rightarrow> 'v engine" where
  "new_gating d controls gs =
     \<lparr>data = d, fmo = controls,
      fmo_search_cache = map (\<lambda>(i, c). (i, [(''root'', df_index c)])) controls,
      gates = gs,
      populations = [(''root'', 0)],
      heap = [\<lparr>node_name = ''root'', node_index = df_index d,
               node_geom = Some [(''shape'', PNone), (''x'', PStr ''FSC-A''), (''y'', PStr ''SSC-A'')],
               prop_of_parent = 1, prop_of_total = 1, node_warnings = [],
               node_parent = None\<rparr>]\<rparr>"

text \<open>\<^verbatim>\<open>self.populations[name]\<close>: the node bound to a name.\<close>

definition deref :: "'v engine \<Rightarrow> addr \<Rightarrow> error + 'v node" where
  "deref e a = (if a < length (heap e) then Inr (heap e ! a) else Inl ExternalError)"

definition pop_node :: "'v engine \<Rightarrow> string \<Rightarrow> error + 'v node" where
  "pop_node e name = bind_err (getitem (populations e) name) (deref e)"

text \<open>\<^verbatim>\<open>node.parent.name\<close>: an \<^verbatim>\<open>AttributeError\<close> on the root, whose parent is \<^verbatim>\<open>None\<close>.\<close>

definition parent_name_of :: "'v engine \<Rightarrow> 'v node \<Rightarrow> error + string" where
  "parent_name_of e n =
     (case node_parent n of
        None \<Rightarrow> Inl AttributeError
      | Some p \<Rightarrow> bind_err (deref e p) (\<lambda>pn. Inr (node_name pn)))"

text \<open>\<^verbatim>\<open>geom[k]\<close> on the geometry of a node, which may be \<^verbatim>\<open>None\<close>.\<close>

definition geom_item :: "'v pydict option \<Rightarrow> string \<Rightarrow> error + 'v pyval" where
  "geom_item g k = (case g of None \<Rightarrow> Inl TypeError | Some d \<Rightarrow> getitem d k)"

text \<open>\<^verbatim>\<open>d.get(k)\<close>.\<close>

definition dict_get :: "'v pydict \<Rightarrow> string \<Rightarrow> 'v pyval" where
  "dict_get d k = (case map_of d k of None \<Rightarrow> PNone | Some v \<Rightarrow> v)"

text \<open>Truth value of a Python value, as in \<^verbatim>\<open>assert x\<close> and \<^verbatim>\<open>y or 'FSC-A'\<close>.\<close>

definition truthy :: "('v::zero) pyval \<Rightarrow> bool" where
  "truthy v =
     (case v of
        PNone \<Rightarrow> False | PStr s \<Rightarrow> s \<noteq> [] | PNum n \<Rightarrow> n \<noteq> 0 | PList xs \<Rightarrow> xs \<noteq> []
      | PDict d \<Rightarrow> d \<noteq> [] | PIndex ix \<Rightarrow> ix \<noteq> [])"

section \<open>The population tree\<close>

text \<open>\<^verbatim>\<open>node.path\<close>: the nodes from the topmost ancestor down to the node itself.\<close>

function node_path :: "'v node list \<Rightarrow> addr \<Rightarrow> addr list" where
  "node_path h a =
     (if a < length h then
        (case node_parent (h ! a) of
           Some p \<Rightarrow> if p < a then node_path h p @ [a] else [a]
         | None \<Rightarrow> [a])
      else [a])"
  by pat_completeness auto
termination
  by (relation "measure snd") auto

declare node_path.simps [simp del]

text \<open>\<^verbatim>\<open>node.children\<close>, in the order in which the children were attached.\<close>

definition node_children :: "'v node list \<Rightarrow> addr \<Rightarrow> addr list" where
  "node_children h a = filter (\<lambda>c. node_parent (h ! c) = Some a) [Suc a ..< length h]"

text \<open>The pre-order iteration of \<^verbatim>\<open>anytree\<close> (\<^verbatim>\<open>findall\<close> filters it).\<close>

function preorder :: "'v node list \<Rightarrow> addr \<Rightarrow> addr list" where
  "preorder h a = a # concat (map (preorder h) (node_children h a))"
  by pat_completeness auto
termination
  by (relation "measure (\<lambda>(h, a). length h - a)") (auto simp: node_children_def)

declare preorder.simps [simp del]

text \<open>
  \<^verbatim>\<open>find_dependencies\<close>: \<open>None\<close> for an unknown population, else the names of the nodes
  below the root object whose path holds the node of the population.
\<close>

definition find_dependencies :: "'v engine \<Rightarrow> string \<Rightarrow> error + string list option" where
  "find_dependencies e population =
     (if \<not> has_key (populations e) population then Inr None
      else
        bind_err (getitem (populations e) ''root'') (\<lambda>root.
        bind_err (getitem (populations e) population) (\<lambda>node.
          Inr (Some (map (\<lambda>x. node_name (heap e ! x))
                      (filter (\<lambda>x. node \<in> set (node_path (heap e) x))
                         (preorder (heap e) root)))))))"

text \<open>\<^verbatim>\<open>for x in names: self.populations.pop(x)\<close>: a \<^verbatim>\<open>KeyError\<close> on a missing name.\<close>

fun pop_all :: "(string \<times> 'a) list \<Rightarrow> string list \<Rightarrow> error + (string \<times> 'a) list" where
  "pop_all d [] = Inr d"
| "pop_all d (x # xs) = (if has_key d x then pop_all (AList.delete x d) xs else Inl KeyError)"

text \<open>
  \<^verbatim>\<open>remove_population\<close> (with \<^verbatim>\<open>hard_delete=False\<close>; the other case also deletes from the
  database): the node is detached from its parent and every name that
  \<^verbatim>\<open>find_dependencies\<close> returns is popped.
\<close>

definition remove_population :: "'v engine \<Rightarrow> string \<Rightarrow> error + 'v engine" where
  "remove_population e population_name =
     (if \<not> has_key (populations e) population_name then Inr e
      else
        bind_err (find_dependencies e population_name) (\<lambda>downstream_populations.
        bind_err (getitem (populations e) population_name) (\<lambda>a.
        bind_err (deref e a) (\<lambda>n.
          let e1 = e\<lparr>heap := (heap e)[a := n\<lparr>node_parent := None\<rparr>]\<rparr> in
          case downstream_populations of
            None \<Rightarrow> Inl TypeError
          | Some names \<Rightarrow>
              bind_err (pop_all (populations e1) names) (\<lambda>d. Inr (e1\<lparr>populations := d\<rparr>))))))"

text \<open>The names of the nodes below (and including) a node, in pre-order.\<close>

definition tree_names :: "'v engine \<Rightarrow> addr \<Rightarrow> string list" where
  "tree_names e r = map (\<lambda>x. node_name (heap e ! x)) (preorder (heap e) r)"

section \<open>Committing populations\<close>

text \<open>
  \<^verbatim>\<open>self.data.loc[idx]\<close>: the rows with the given labels, in the order of the labels; a
  \<^verbatim>\<open>KeyError\<close> when a label is not in the frame (pandas from version 1.0 on).
\<close>

definition df_loc :: "'v dataframe \<Rightarrow> event list \<Rightarrow> error + 'v dataframe" where
  "df_loc df idx =
     (if \<forall>i \<in> set idx. i \<in> set (df_index df)
      then Inr (df\<lparr>rows := concat (map (\<lambda>i. filter (\<lambda>(j, r). j = i) (rows df)) idx)\<rparr>)
      else Inl KeyError)"

text \<open>
  \<^verbatim>\<open>get_population_df(population_name)\<close> with its default arguments: \<open>None\<close> for an
  unknown population.
\<close>

definition get_population_df :: "'v engine \<Rightarrow> string \<Rightarrow> error + 'v dataframe option" where
  "get_population_df e population_name =
     (if \<not> has_key (populations e) population_name then Inr None
      else
        bind_err (pop_node e population_name) (\<lambda>n.
        bind_err (df_loc (data e) (node_index n)) (\<lambda>df. Inr (Some df))))"

text \<open>\<^verbatim>\<open>n / m\<close> on integers: a \<^verbatim>\<open>ZeroDivisionError\<close> for \<^verbatim>\<open>m = 0\<close>.\<close>

definition py_div :: "nat \<Rightarrow> nat \<Rightarrow> error + rat" where
  "py_div n m = (if m = 0 then Inl ZeroDivisionError else Inr (of_nat n / of_nat m))"

text \<open>One turn of the loop of \<^verbatim>\<open>update_populations\<close>.\<close>

definition commit_population ::
  "'v dataframe \<Rightarrow> string list \<Rightarrow> string \<Rightarrow> 'v engine \<Rightarrow> string \<times> 'v child_population
     \<Rightarrow> error + 'v engine" where
  "commit_population parent_df warnings parent_name e item =
     (let name = fst item; population = snd item; n = length (cp_index population) in
      bind_err (if n = 0 then Inr (0, 0)
                else bind_err (py_div n (length (rows parent_df))) (\<lambda>pp.
                     bind_err (py_div n (length (rows (data e)))) (\<lambda>pt. Inr (pp, pt))))
        (\<lambda>(pp, pt).
      bind_err (getitem (populations e) parent_name) (\<lambda>p.
        Inr (e\<lparr>heap := heap e @ [\<lparr>node_name = name, node_index = cp_index population,
                                    node_geom = cp_geom population, prop_of_parent = pp,
                                    prop_of_total = pt, node_warnings = warnings,
                                    node_parent = Some p\<rparr>],
               populations := AList.update name (length (heap e)) (populations e)\<rparr>))))"

fun update_populations ::
  "'v engine \<Rightarrow> 'v collection \<Rightarrow> 'v dataframe \<Rightarrow> string list \<Rightarrow> string \<Rightarrow> error + 'v engine" where
  "update_populations e [] parent_df warnings parent_name = Inr e"
| "update_populations e (item # output) parent_df warnings parent_name =
     bind_err (commit_population parent_df warnings parent_name e item) (\<lambda>e1.
       update_populations e1 output parent_df warnings parent_name)"

section \<open>Subtraction\<close>

text \<open>
  \<^verbatim>\<open>np.concatenate\<close> of a list of arrays raises a \<^verbatim>\<open>ValueError\<close> on the empty list;
  \<^verbatim>\<open>np.setdiff1d(a, b)\<close> is the sorted array of the distinct values of \<^verbatim>\<open>a\<close> not in \<^verbatim>\<open>b\<close>.
\<close>

definition np_concatenate :: "event list list \<Rightarrow> error + event list" where
  "np_concatenate xss = (if xss = [] then Inl ValueError else Inr (concat xss))"

definition np_setdiff1d :: "event list \<Rightarrow> event list \<Rightarrow> event list" where
  "np_setdiff1d a b = filter (\<lambda>i. i \<notin> set b) (np_unique a)"

text \<open>The indices of a list of populations, \<^verbatim>\<open>[self.populations[t].index for t in target]\<close>.\<close>

fun indices_of :: "'v engine \<Rightarrow> string list \<Rightarrow> error + event list list" where
  "indices_of e [] = Inr []"
| "indices_of e (t # ts) =
     bind_err (pop_node e t) (\<lambda>n.
     bind_err (indices_of e ts) (\<lambda>rest. Inr (node_index n # rest)))"

text \<open>
  The text of a list of names in an f-string, as in \<^verbatim>\<open>f'{parent}_minus_{target}'\<close>
  (for names without quotes in them).
\<close>

definition str_of_names :: "string list \<Rightarrow> string" where
  "str_of_names xs =
     ''['' @ concat (map (\<lambda>(i, s). (if i = 0 then [] else '', '') @ [CHR 0x27] @ s @ [CHR 0x27])
                      (enumerate 0 xs)) @ '']''"

text \<open>The collection of a gate as the value stored in the gate's \<^verbatim>\<open>kwargs\<close>.\<close>

definition collection_value :: "'v collection \<Rightarrow> 'v pyval" where
  "collection_value c =
     PDict (map (\<lambda>(name, p). (name,
              PDict [(''geom'', (case cp_geom p of None \<Rightarrow> PNone | Some g \<Rightarrow> PDict g)),
                     (''index'', PIndex (cp_index p))])) c)"

definition subtraction :: "'v engine \<Rightarrow> string list \<Rightarrow> string \<Rightarrow> string \<Rightarrow> error + 'v engine" where
  "subtraction e target parent new_population_name =
     (if \<not> has_key (populations e) parent then Inl AssertionError
      else if \<not> (\<forall>t \<in> set target. has_key (populations e) t) then Inl AssertionError
      else if has_key (populations e) new_population_name then Inl AssertionError
      else
        bind_err (pop_node e parent) (\<lambda>pn.
        bind_err (geom_item (node_geom pn) ''x'') (\<lambda>xcol.
        bind_err (geom_item (node_geom pn) ''y'') (\<lambda>ycol.
        bind_err (bind_err (indices_of e target) np_concatenate) (\<lambda>tcat.
          let pindex = node_index pn;
              tindex = np_unique tcat;
              index = np_setdiff1d pindex tindex;
              new_population = [(new_population_name,
                 \<lparr>cp_geom = Some [(''shape'', PStr ''sub''), (''x'', xcol), (''y'', ycol)],
                  cp_index = index\<rparr>)]
          in
          bind_err (get_population_df e parent) (\<lambda>parent_df.
          case parent_df of
            None \<Rightarrow> Inl AttributeError
          | Some pdf \<Rightarrow>
              bind_err (update_populations e new_population pdf [] parent) (\<lambda>e1.
                let gname = parent @ ''_minus_'' @ str_of_names target;
                    kw = [(''parent'', PStr parent), (''target'', PList (map PStr target)),
                          (''name'', PStr new_population_name), (''x'', xcol), (''y'', ycol),
                          (''child_populations'', collection_value new_population)];
                    new_gate = \<lparr>gate_name = gname, children = [new_population_name],
                                gate_parent = parent, gate_method = ''subtraction'', kwargs = kw,
                                class_name = ''subtraction''\<rparr>
                in Inr (e1\<lparr>gates := AList.update gname new_gate (gates e1)\<rparr>))))))))"

section \<open>Library functions and gating strategies\<close>

text \<open>
  What the engine calls outside the sources is a parameter of the model:
  \<^verbatim>\<open>apply_transform\<close>, \<^verbatim>\<open>inside_ellipse\<close> (the mask of the rows inside an
  ellipse), \<^verbatim>\<open>inside_polygon\<close> (the frame of the rows inside a polygon), the coordinates
  of the convex hull that \<^verbatim>\<open>merge\<close> computes with scipy and shapely, the nearest-neighbour
  classifier of \<^verbatim>\<open>get_fmo_data\<close> (trained on the parent frame, sub-sampled when it is
  large, with the events of the population as positives, and asked for the mask of the
  control rows it predicts positive) and the gating classes (given the class, the entry point,
  the parent frame, the keyword arguments and the control frames, they return a collection
  and their warnings).
\<close>

record 'v externals =
  ext_apply_transform :: "'v dataframe \<Rightarrow> 'v pyval \<Rightarrow> 'v pyval \<Rightarrow> error + 'v dataframe"
  ext_inside_ellipse :: "'v dataframe \<Rightarrow> string \<Rightarrow> string \<Rightarrow> 'v pydict \<Rightarrow> error + bool list"
  ext_inside_polygon :: "'v dataframe \<Rightarrow> 'v pyval \<Rightarrow> 'v pyval \<Rightarrow> 'v pydict \<Rightarrow> error + 'v dataframe"
  ext_convex_hull :: "'v dataframe \<Rightarrow> string \<Rightarrow> string \<Rightarrow> error + 'v pyval"
  ext_knn :: "'v dataframe \<Rightarrow> event list \<Rightarrow> string \<Rightarrow> string \<Rightarrow> 'v dataframe \<Rightarrow> error + bool list"
  ext_gating_class ::
    "string \<Rightarrow> string \<Rightarrow> 'v dataframe \<Rightarrow> 'v pydict \<Rightarrow> 'v dataframe option \<Rightarrow> 'v dataframe option
       \<Rightarrow> error + ('v collection \<times> string list)"

section \<open>Merge\<close>

text \<open>A frame that may be \<^verbatim>\<open>None\<close>, used as a frame.\<close>

definition the_frame :: "'v dataframe option \<Rightarrow> error + 'v dataframe" where
  "the_frame d = (case d of None \<Rightarrow> Inl AttributeError | Some df \<Rightarrow> Inr df)"

definition merge ::
  "'v externals \<Rightarrow> 'v engine \<Rightarrow> string \<Rightarrow> string \<Rightarrow> string \<Rightarrow> error + 'v engine" where
  "merge ext e population_left population_right new_population_name =
     (if has_key (populations e) new_population_name then Inl AssertionError
      else if \<not> has_key (populations e) population_left then Inl AssertionError
      else if \<not> has_key (populations e) population_right then Inl AssertionError
      else
        bind_err (pop_node e population_left) (\<lambda>ln.
        bind_err (pop_node e population_right) (\<lambda>rn.
        bind_err (parent_name_of e ln) (\<lambda>population_left_parent.
        bind_err (parent_name_of e rn) (\<lambda>population_right_parent.
          if population_left_parent \<noteq> population_right_parent then Inl AssertionError
          else
            bind_err (pop_node e population_left_parent) (\<lambda>parent.
            bind_err (geom_item (node_geom ln) ''x'') (\<lambda>xcol.
            bind_err (geom_item (node_geom ln) ''y'') (\<lambda>ycol.
              let index = np_unique (node_index ln @ node_index rn) in
              bind_err (bind_err (get_population_df e (node_name parent)) the_frame) (\<lambda>parent_df.
              bind_err (df_loc parent_df index) (\<lambda>d.
              bind_err (column d xcol) (\<lambda>cx.
              bind_err (column d ycol) (\<lambda>cy.
              bind_err (ext_convex_hull ext d cx cy) (\<lambda>cords.
                let new_population = [(new_population_name,
                      \<lparr>cp_geom = Some [(''shape'', PStr ''poly''), (''x'', xcol), (''y'', ycol),
                                        (''cords'', cords)],
                       cp_index = index\<rparr>)]
                in
                bind_err (update_populations e new_population parent_df [] (node_name parent))
                  (\<lambda>e1.
                  let name = ''merge_'' @ population_left @ ''_'' @ population_right;
                      kw = [(''left'', PStr population_left), (''right'', PStr population_right),
                            (''name'', PStr new_population_name), (''x'', xcol), (''y'', ycol),
                            (''child_populations'', collection_value new_population)];
                      new_gate = \<lparr>gate_name = name, children = map fst new_population,
                                  gate_parent = node_name parent, gate_method = ''merge'',
                                  kwargs = kw, class_name = ''merge''\<rparr>
                  in Inr (e1\<lparr>gates := AList.update name new_gate (gates e1)\<rparr>)))))))))))))))"

section \<open>Region evaluation\<close>

text \<open>A number in a geometry; comparing a column with anything else is a \<^verbatim>\<open>TypeError\<close>.\<close>

definition num :: "'v pyval \<Rightarrow> error + 'v" where
  "num v = (case v of PNum t \<Rightarrow> Inr t | _ \<Rightarrow> Inl TypeError)"

text \<open>\<^verbatim>\<open>parent[~parent.index.isin(pos.index)].index.values\<close>.\<close>

definition index_not_in :: "'v dataframe \<Rightarrow> event list \<Rightarrow> event list" where
  "index_not_in parent pos_index = map fst (filter (\<lambda>(i, r). i \<notin> set pos_index) (rows parent))"

text \<open>The end of the \<^verbatim>\<open>rect\<close> and \<^verbatim>\<open>ellipse\<close> branches: the positive index or its complement.\<close>

definition by_sign :: "'v dataframe \<Rightarrow> event list \<Rightarrow> 'v pyval \<Rightarrow> error + event list" where
  "by_sign parent pos_index d =
     (if d = PStr ''+'' then Inr pos_index
      else if d = PStr ''-'' then Inr (index_not_in parent pos_index)
      else Inl ValueError)"

definition all_keys :: "'v pydict \<Rightarrow> string list \<Rightarrow> bool" where
  "all_keys geom ks = (\<forall>k \<in> set ks. has_key geom k)"

text \<open>
  The \<^verbatim>\<open>2d_threshold\<close> branch: \<^verbatim>\<open>geom_bool\<close> with \<^verbatim>\<open>p.round(decimals=2)\<close> and
  \<^verbatim>\<open>round(t, 2)\<close>, once or for every definition of a list.
\<close>

fun geom_bool_list ::
  "(pyfloat \<Rightarrow> pyfloat) \<Rightarrow> (pyfloat \<Rightarrow> pyfloat) \<Rightarrow> pyfloat pydict \<Rightarrow> pyfloat pyval list \<Rightarrow> pyfloat dataframe
     \<Rightarrow> error + event list" where
  "geom_bool_list np_round round2 geom [] parent = Inr []"
| "geom_bool_list np_round round2 geom (d # ds) parent =
     bind_err (geom_bool np_round round2 geom d parent) (\<lambda>ix.
     bind_err (geom_bool_list np_round round2 geom ds parent) (\<lambda>rest. Inr (ix @ rest)))"

definition threshold_2d :: "pyfloat pydict \<Rightarrow> pyfloat dataframe \<Rightarrow> error + event list" where
  "threshold_2d geom parent =
     (if \<not> has_key geom ''definition'' then Inl AssertionError
      else if \<not> all_keys geom [''threshold_x'', ''threshold_y''] then Inl AssertionError
      else if \<not> truthy (dict_get geom ''y'') then Inl AssertionError
      else if \<not> all_keys geom [''transform_x'', ''transform_y''] then Inl AssertionError
      else
        (case dict_get geom ''definition'' of
           PList ds \<Rightarrow> geom_bool_list (round_decimals 2) (round_decimals 2) geom ds parent
         | d \<Rightarrow> geom_bool (round_decimals 2) (round_decimals 2) geom d parent))"

text \<open>The \<^verbatim>\<open>rect\<close> branch: inclusive bounds on both axes.\<close>

definition rect ::
  "pyfloat pydict \<Rightarrow> pyfloat dataframe \<Rightarrow> error + event list" where
  "rect geom parent =
     (if \<not> has_key geom ''definition'' then Inl AssertionError
      else if \<not> all_keys geom [''x_min'', ''x_max'', ''y_min'', ''y_max''] then Inl AssertionError
      else if \<not> all_keys geom [''transform_x'', ''transform_y''] then Inl AssertionError
      else if \<not> truthy (dict_get geom ''y'') then Inl AssertionError
      else
        bind_err (bind_err (getitem geom ''x'') (column parent)) (\<lambda>cx.
        bind_err (bind_err (getitem geom ''x_min'') num) (\<lambda>x_min.
        bind_err (bind_err (getitem geom ''x_max'') num) (\<lambda>x_max.
        bind_err (bind_err (getitem geom ''y'') (column parent)) (\<lambda>cy.
        bind_err (bind_err (getitem geom ''y_min'') num) (\<lambda>y_min.
        bind_err (bind_err (getitem geom ''y_max'') num) (\<lambda>y_max.
          by_sign parent
            (index_where parent (\<lambda>r. (r cx \<ge> x_min \<and> r cx \<le> x_max) \<and> (r cy \<ge> y_min \<and> r cy \<le> y_max)))
            (dict_get geom ''definition''))))))))"

text \<open>The \<^verbatim>\<open>ellipse\<close> branch: \<^verbatim>\<open>parent[mask]\<close> for the mask of \<^verbatim>\<open>inside_ellipse\<close>.\<close>

definition ellipse ::
  "pyfloat externals \<Rightarrow> pyfloat pydict \<Rightarrow> pyfloat dataframe \<Rightarrow> error + event list" where
  "ellipse ext geom parent =
     (if \<not> has_key geom ''definition'' then Inl AssertionError
      else if \<not> all_keys geom [''centroid'', ''width'', ''height'', ''angle''] then Inl AssertionError
      else if \<not> truthy (dict_get geom ''y'') then Inl AssertionError
      else if \<not> all_keys geom [''transform_x'', ''transform_y''] then Inl AssertionError
      else
        bind_err (bind_err (getitem geom ''x'') (column parent)) (\<lambda>cx.
        bind_err (bind_err (getitem geom ''y'') (column parent)) (\<lambda>cy.
        bind_err (ext_inside_ellipse ext parent cx cy geom) (\<lambda>mask.
          if length mask \<noteq> length (rows parent) then Inl ValueError
          else by_sign parent (map fst (map fst (filter snd (zip (rows parent) mask))))
                 (dict_get geom ''definition'')))))"

text \<open>The \<^verbatim>\<open>poly\<close> branch: the index of the frame that \<^verbatim>\<open>inside_polygon\<close> returns.\<close>

definition poly ::
  "pyfloat externals \<Rightarrow> pyfloat pydict \<Rightarrow> pyfloat dataframe \<Rightarrow> error + event list" where
  "poly ext geom parent =
     (if \<not> all_keys geom [''cords'', ''transform_x'', ''transform_y'', ''x'', ''y'']
      then Inl AssertionError
      else
        (case dict_get geom ''cords'' of
           PDict cords \<Rightarrow>
             if \<not> all_keys cords [''x'', ''y''] then Inl AssertionError
             else bind_err (ext_inside_polygon ext parent (dict_get geom ''x'') (dict_get geom ''y'')
                              cords) (\<lambda>pos. Inr (df_index pos))
         | _ \<Rightarrow> Inl AssertionError))"

text \<open>
  \<^verbatim>\<open>__update_index\<close>: the events of the parent of a population that a geometry holds.
\<close>

definition update_index ::
  "pyfloat externals \<Rightarrow> pyfloat engine \<Rightarrow> string \<Rightarrow> pyfloat pydict \<Rightarrow> error + event list" where
  "update_index ext e population geom =
     (if \<not> has_key (populations e) population then Inl AssertionError
      else
        bind_err (bind_err (pop_node e population) (parent_name_of e)) (\<lambda>parent_name.
        bind_err (bind_err (get_population_df e parent_name) the_frame) (\<lambda>parent0.
          let transform_x = dict_get geom ''transform_x'';
              transform_y = dict_get geom ''transform_y'';
              xcol = dict_get geom ''x'';
              ycol = dict_get geom ''y''
          in
          if \<not> truthy xcol then Inl AssertionError
          else
            bind_err (if transform_x \<noteq> PNone \<and> xcol \<noteq> PNone
                      then ext_apply_transform ext parent0 transform_x xcol else Inr parent0)
              (\<lambda>parent1.
            bind_err (if transform_y \<noteq> PNone \<and> ycol \<noteq> PNone
                      then ext_apply_transform ext parent1 transform_y ycol else Inr parent1)
              (\<lambda>parent.
            bind_err (getitem geom ''shape'') (\<lambda>shape.
              if shape = PStr ''threshold'' then threshold_1d geom parent
              else if shape = PStr ''2d_threshold'' then threshold_2d geom parent
              else if shape = PStr ''rect'' then rect geom parent
              else if shape = PStr ''ellipse'' then ellipse ext geom parent
              else if shape = PStr ''poly'' then poly ext geom parent
              else Inl ValueError))))))"

section \<open>Editing gates\<close>

text \<open>
  The loop of \<^verbatim>\<open>edit_gate\<close> over the children of the gate: the geometry and then the index
  of the child are assigned, and the names of the nodes below the child are collected.
\<close>

fun edit_children ::
  "pyfloat externals \<Rightarrow> pyfloat engine \<Rightarrow> (string \<times> pyfloat pydict) list \<Rightarrow> string list
     \<Rightarrow> string list \<Rightarrow> error + (pyfloat engine \<times> string list)" where
  "edit_children ext e updated_geom [] immediate_children = Inr (e, immediate_children)"
| "edit_children ext e updated_geom (c # cs) immediate_children =
     (if \<not> has_key updated_geom c then Inl AssertionError
      else
        bind_err (getitem updated_geom c) (\<lambda>g.
        bind_err (getitem (populations e) c) (\<lambda>a.
        bind_err (deref e a) (\<lambda>n.
          let e1 = e\<lparr>heap := (heap e)[a := n\<lparr>node_geom := Some g\<rparr>]\<rparr> in
          bind_err (update_index ext e1 c g) (\<lambda>ix.
            let e2 = e1\<lparr>heap := (heap e1)[a := (heap e1 ! a)\<lparr>node_index := ix\<rparr>]\<rparr> in
            bind_err (find_dependencies e2 c) (\<lambda>deps.
              case deps of
                None \<Rightarrow> Inl TypeError
              | Some effected \<Rightarrow>
                  edit_children ext e2 updated_geom cs
                    (immediate_children
                       @ map (\<lambda>x. node_name (heap e2 ! x)) (node_children (heap e2) a))))))))"

fun remove_populations :: "'v engine \<Rightarrow> string list \<Rightarrow> error + 'v engine" where
  "remove_populations e [] = Inr e"
| "remove_populations e (c # cs) =
     bind_err (remove_population e c) (\<lambda>e1. remove_populations e1 cs)"

definition edit_gate ::
  "pyfloat externals \<Rightarrow> pyfloat engine \<Rightarrow> string \<Rightarrow> (string \<times> pyfloat pydict) list \<Rightarrow> bool
     \<Rightarrow> error + pyfloat engine" where
  "edit_gate ext e name updated_geom delete =
     (if \<not> has_key (gates e) name then Inl AssertionError
      else
        bind_err (getitem (gates e) name) (\<lambda>gate.
        bind_err (edit_children ext e updated_geom (children gate) []) (\<lambda>(e1, immediate_children).
          if delete then remove_populations e1 immediate_children else Inr e1)))"

section \<open>The invariant of the population tree\<close>

text \<open>
  Every population of the dictionary is bound to a node of the store, and the index of a
  node that has a parent lies within the index of the parent.
\<close>

definition index_within_parent :: "'v engine \<Rightarrow> bool" where
  "index_within_parent e =
     (\<forall>(name, a) \<in> set (populations e).
        map_of (populations e) name = Some a \<longrightarrow>
          a < length (heap e)
          \<and> (case node_parent (heap e ! a) of
               None \<Rightarrow> True
             | Some p \<Rightarrow> p < length (heap e)
                  \<and> set (node_index (heap e ! a)) \<subseteq> set (node_index (heap e ! p))))"

text \<open>
  The tree is well formed when, moreover, every population is bound to a node of its own
  name that lies below the root object, the parent of that node is bound under the
  parent's name, and every node below the root object is bound under its name. The engine
  starts in such a state (one root node), and the operations below keep it. While a gate
  is edited the indices of the populations named in a list \<open>pending\<close> may leave the index
  of their parent: these are the populations that the edit removes at its end.
\<close>

definition below_root :: "'v engine \<Rightarrow> addr \<Rightarrow> bool" where
  "below_root e a =
     (case map_of (populations e) ''root'' of
        None \<Rightarrow> False
      | Some r \<Rightarrow> r \<in> set (node_path (heap e) a))"

definition node_ok :: "'v engine \<Rightarrow> string list \<Rightarrow> string \<Rightarrow> addr \<Rightarrow> bool" where
  "node_ok e pending name a =
     (a < length (heap e) \<and> node_name (heap e ! a) = name \<and> below_root e a
      \<and> (case node_parent (heap e ! a) of
             None \<Rightarrow> True
           | Some p \<Rightarrow> p < a \<and> map_of (populations e) (node_name (heap e ! p)) = Some p
                \<and> (set (node_index (heap e ! a)) \<subseteq> set (node_index (heap e ! p))
                     \<or> name \<in> set pending)))"

definition tree_ok_pending :: "'v engine \<Rightarrow> string list \<Rightarrow> bool" where
  "tree_ok_pending e pending =
     ((\<forall>(name, a) \<in> set (populations e).
         map_of (populations e) name = Some a \<longrightarrow> node_ok e pending name a)
      \<and> (\<forall>y \<in> set [0 ..< length (heap e)].
           below_root e y \<longrightarrow> map_of (populations e) (node_name (heap e ! y)) = Some y))"

definition tree_ok :: "'v engine \<Rightarrow> bool" where
  "tree_ok e = tree_ok_pending e []"

text \<open>
  What the proofs assume of the library functions: a transformation keeps the row labels
  of the frame, and the frame of the rows inside a polygon has labels of the frame given.
\<close>

definition ext_ok :: "'v externals \<Rightarrow> bool" where
  "ext_ok ext =
     ((\<forall>df m f df'. ext_apply_transform ext df m f = Inr df'
          \<longrightarrow> set (df_index df') \<subseteq> set (df_index df))
      \<and> (\<forall>df xc yc cords pos. ext_inside_polygon ext df xc yc cords = Inr pos
          \<longrightarrow> set (df_index pos) \<subseteq> set (df_index df)))"

section \<open>Projection onto a control\<close>

definition search_fmo_cache :: "'v engine \<Rightarrow> string \<Rightarrow> string \<Rightarrow> error + event list option" where
  "search_fmo_cache e target_population fmo_name =
     bind_err (getitem (fmo_search_cache e) fmo_name) (\<lambda>cache. Inr (map_of cache target_population))"

text \<open>
  The search for the start position in \<^verbatim>\<open>get_fmo_data\<close>: the route is walked from the
  target upwards, and the test of the source is \<^verbatim>\<open>pop in self.fmo_search_cache.keys()\<close>,
  on the keys of the outer dictionary. At a hit the route keeps the hit and what is below
  it, and the index to resume from is \<^verbatim>\<open>self.populations[pop].index\<close>.
\<close>

definition start_position ::
  "'v engine \<Rightarrow> string list \<Rightarrow> event list \<Rightarrow> error + (string list \<times> event list)" where
  "start_position e route cache_idx =
     (case find (\<lambda>(i, pop). has_key (fmo_search_cache e) pop) (enumerate 0 (rev route)) of
        None \<Rightarrow> Inr (route, cache_idx)
      | Some (i, pop) \<Rightarrow>
          bind_err (pop_node e pop) (\<lambda>n. Inr (rev (take (i + 1) (rev route)), node_index n)))"

text \<open>The axes of the classifier for one population of the route.\<close>

definition fmo_axes ::
  "('v::zero) node \<Rightarrow> string \<Rightarrow> (string \<times> 'v pydict) list option \<Rightarrow> error + ('v pyval \<times> 'v pyval)" where
  "fmo_axes n pop sml_profiles =
     bind_err (geom_item (node_geom n) ''x'') (\<lambda>xcol.
     bind_err (geom_item (node_geom n) ''y'') (\<lambda>y0.
     bind_err (geom_item (node_geom n) ''shape'') (\<lambda>shape.
       let ycol = (if truthy y0 then y0 else PStr ''FSC-A'') in
       if shape = PStr ''sml'' then
         (case sml_profiles of
            None \<Rightarrow> Inl AssertionError
          | Some profiles \<Rightarrow>
              if profiles = [] then Inl AssertionError
              else (case map_of profiles pop of
                      None \<Rightarrow> Inl AssertionError
                    | Some g \<Rightarrow> Inr (dict_get g ''x'', dict_get g ''y'')))
       else Inr (xcol, ycol))))"

text \<open>
  The prediction loop. Besides the engine, the last index and the last control frame it
  returns the names of the populations for which a classifier was trained, in order: an
  instrument of the model, not a value of the source.
\<close>

fun predict_route ::
  "('v::zero) externals \<Rightarrow> string \<Rightarrow> (string \<times> 'v pydict) list option \<Rightarrow> 'v engine \<Rightarrow> string list
     \<Rightarrow> event list \<Rightarrow> 'v dataframe \<Rightarrow> string list
     \<Rightarrow> error + ('v engine \<times> event list \<times> 'v dataframe \<times> string list)" where
  "predict_route ext fmo_name sml_profiles e [] cache_idx fmo_data trained =
     Inr (e, cache_idx, fmo_data, trained)"
| "predict_route ext fmo_name sml_profiles e (pop # route) cache_idx fmo_data0 trained =
     bind_err (getitem (fmo e) fmo_name) (\<lambda>fmo_df.
     bind_err (df_loc fmo_df cache_idx) (\<lambda>fmo_data.
     bind_err (pop_node e pop) (\<lambda>n.
     bind_err (fmo_axes n pop sml_profiles) (\<lambda>(xcol, ycol).
     bind_err (parent_name_of e n) (\<lambda>parent.
     bind_err (get_population_df e parent) (\<lambda>train0.
       case train0 of
         None \<Rightarrow> Inl TypeError
       | Some train \<Rightarrow>
           bind_err (column train xcol) (\<lambda>cx.
           bind_err (column train ycol) (\<lambda>cy.
           bind_err (column fmo_data xcol) (\<lambda>fx.
           bind_err (column fmo_data ycol) (\<lambda>fy.
           bind_err (ext_knn ext train (node_index n) cx cy fmo_data) (\<lambda>y_hat.
             if length y_hat \<noteq> length (rows fmo_data) then Inl ValueError
             else
               let new_idx = map fst (filter snd (zip (df_index fmo_data) y_hat)) in
               bind_err (getitem (fmo_search_cache e) fmo_name) (\<lambda>cache.
                 predict_route ext fmo_name sml_profiles
                   (e\<lparr>fmo_search_cache :=
                        AList.update fmo_name (AList.update pop new_idx cache)
                          (fmo_search_cache e)\<rparr>)
                   route new_idx fmo_data (trained @ [pop])))))))))))))"

text \<open>
  \<^verbatim>\<open>get_fmo_data\<close>: the frame returned, the engine after the call and the populations for
  which a classifier was trained.
\<close>

definition get_fmo_data ::
  "('v::zero) externals \<Rightarrow> 'v engine \<Rightarrow> string \<Rightarrow> string \<Rightarrow> (string \<times> 'v pydict) list option
     \<Rightarrow> error + ('v dataframe \<times> 'v engine \<times> string list)" where
  "get_fmo_data ext e target_population fmo_name sml_profiles =
     bind_err (search_fmo_cache e target_population fmo_name) (\<lambda>cached.
     bind_err (getitem (fmo e) fmo_name) (\<lambda>fmo_df.
       case cached of
         Some cache_idx \<Rightarrow> bind_err (df_loc fmo_df cache_idx) (\<lambda>r. Inr (r, e, []))
       | None \<Rightarrow>
           bind_err (getitem (fmo_search_cache e) fmo_name) (\<lambda>cache.
           bind_err (getitem cache ''root'') (\<lambda>root_idx.
           bind_err (getitem (populations e) target_population) (\<lambda>node.
             let route0 = tl (map (\<lambda>x. node_name (heap e ! x)) (node_path (heap e) node)) in
             bind_err (start_position e route0 root_idx) (\<lambda>(route, cache_idx).
             bind_err (df_loc fmo_df cache_idx) (\<lambda>fmo_data.
             bind_err (predict_route ext fmo_name sml_profiles e route cache_idx fmo_data [])
               (\<lambda>(e1, idx, fmo_data1, trained).
                 bind_err (df_loc fmo_data1 idx) (\<lambda>r. Inr (r, e1, trained))))))))))"

section \<open>Removing gates\<close>

datatype remove_gate_result = ReturnedNone | ReturnedTrue | Removed "string list" "string list"

text \<open>The loop of \<^verbatim>\<open>remove_gate\<close> over the children of the gate.\<close>

fun remove_children :: "'v engine \<Rightarrow> string list \<Rightarrow> string list \<Rightarrow> error + ('v engine \<times> string list)" where
  "remove_children e effected_populations [] = Inr (e, effected_populations)"
| "remove_children e effected_populations (child # cs) =
     bind_err (find_dependencies e child) (\<lambda>dependencies.
       case dependencies of
         None \<Rightarrow> remove_children e effected_populations cs
       | Some deps \<Rightarrow>
           bind_err (remove_population e child) (\<lambda>e1.
             remove_children e1 (effected_populations @ deps @ [child]) cs))"

definition remove_gate ::
  "'v engine \<Rightarrow> string \<Rightarrow> bool \<Rightarrow> error + (remove_gate_result \<times> 'v engine)" where
  "remove_gate e name propagate =
     (if \<not> has_key (gates e) name then Inr (ReturnedNone, e)
      else
        bind_err (getitem (gates e) name) (\<lambda>gate.
          if children gate = [] \<or> \<not> propagate
          then Inr (ReturnedTrue, e\<lparr>gates := AList.delete name (gates e)\<rparr>)
          else
            bind_err (remove_children e [] (children gate)) (\<lambda>(e1, effected_populations).
              let effected_gates =
                    map fst (filter (\<lambda>(n, g). gate_parent g \<in> set effected_populations) (gates e1))
                    @ [name]
              in bind_err (pop_all (gates e1) effected_gates) (\<lambda>gs.
                   Inr (Removed effected_gates effected_populations, e1\<lparr>gates := gs\<rparr>)))))"

section \<open>Applying gates\<close>

text \<open>\<^verbatim>\<open>__apply_checks\<close>: the gate document, or \<open>None\<close> when a check fails.\<close>

definition apply_checks :: "'v engine \<Rightarrow> string \<Rightarrow> 'v gate option" where
  "apply_checks e name =
     (if \<not> has_key (gates e) name then None
      else
        (case map_of (gates e) name of
           None \<Rightarrow> None
         | Some gatedoc \<Rightarrow>
             if \<not> has_key (populations e) (gate_parent gatedoc) then None
             else if \<exists>c \<in> set (children gatedoc). has_key (populations e) c then None
             else Some gatedoc))"

definition gating_classes :: "string list" where
  "gating_classes = [''Static'', ''FMOGate'', ''DensityBasedClustering'', ''DensityThreshold'',
     ''Quantile'', ''MixtureModel'']"

text \<open>\<^verbatim>\<open>__construct_class_and_gate\<close>.\<close>

definition construct_class_and_gate ::
  "'v externals \<Rightarrow> 'v engine \<Rightarrow> 'v gate \<Rightarrow> 'v pydict \<Rightarrow> 'v dataframe option \<Rightarrow> 'v dataframe option
     \<Rightarrow> error + 'v engine" where
  "construct_class_and_gate ext e gatedoc gkwargs fmo_x fmo_y =
     (if class_name gatedoc \<notin> set gating_classes then Inl KeyError
      else
        bind_err (bind_err (get_population_df e (gate_parent gatedoc)) the_frame)
          (\<lambda>parent_population.
        bind_err (ext_gating_class ext (class_name gatedoc) (gate_method gatedoc) parent_population
                    gkwargs fmo_x fmo_y) (\<lambda>(output, warnings).
          update_populations e output parent_population warnings (gate_parent gatedoc))))"

text \<open>
  The arguments that a merge or subtraction gate passes on are names; a gate document
  whose arguments are of another type is outside the model (\<^verbatim>\<open>TypeError\<close>).
\<close>

definition as_name :: "'v pyval \<Rightarrow> error + string" where
  "as_name v = (case v of PStr s \<Rightarrow> Inr s | _ \<Rightarrow> Inl TypeError)"

fun as_names :: "'v pyval list \<Rightarrow> error + string list" where
  "as_names [] = Inr []"
| "as_names (v # vs) =
     bind_err (as_name v) (\<lambda>s. bind_err (as_names vs) (\<lambda>ss. Inr (s # ss)))"

definition as_name_list :: "'v pyval \<Rightarrow> error + string list" where
  "as_name_list v = (case v of PList vs \<Rightarrow> as_names vs | _ \<Rightarrow> Inl TypeError)"

text \<open>The control frame of a gate argument \<^verbatim>\<open>fmo_x\<close> or \<^verbatim>\<open>fmo_y\<close>.\<close>

definition fmo_argument ::
  "('v::zero) externals \<Rightarrow> 'v engine \<Rightarrow> 'v gate \<Rightarrow> 'v pydict \<Rightarrow> string
     \<Rightarrow> error + ('v dataframe option \<times> 'v engine)" where
  "fmo_argument ext e gatedoc gkwargs key =
     bind_err (bind_err (getitem gkwargs key) as_name) (\<lambda>fmo_name.
     bind_err (get_fmo_data ext e (gate_parent gatedoc) fmo_name None) (\<lambda>(df, e1, trained).
       Inr (Some df, e1)))"

text \<open>
  \<^verbatim>\<open>apply\<close>. When the checks fail the source prints a message and returns \<^verbatim>\<open>None\<close>
  before anything is assigned; otherwise it dispatches on the class of the gate. The plot
  at the end reads the engine only.
\<close>

definition apply_gate ::
  "('v::zero) externals \<Rightarrow> 'v engine \<Rightarrow> string \<Rightarrow> 'v pydict \<Rightarrow> error + 'v engine" where
  "apply_gate ext e name call_kwargs =
     (case apply_checks e name of
        None \<Rightarrow> Inr e
      | Some gatedoc \<Rightarrow>
          let gkwargs = fold (\<lambda>(k, v). AList.update k v) call_kwargs (kwargs gatedoc) in
          bind_err (if has_key gkwargs ''fmo_x''
                    then fmo_argument ext e gatedoc gkwargs ''fmo_x'' else Inr (None, e))
            (\<lambda>(fmo_x, e1).
          bind_err (if has_key call_kwargs ''fmo_y''
                    then fmo_argument ext e1 gatedoc gkwargs ''fmo_y'' else Inr (None, e1))
            (\<lambda>(fmo_y, e2).
            if class_name gatedoc = ''merge'' then
              bind_err (as_name (dict_get gkwargs ''left'')) (\<lambda>l.
              bind_err (as_name (dict_get gkwargs ''right'')) (\<lambda>r.
              bind_err (as_name (dict_get gkwargs ''name'')) (\<lambda>n.
                merge ext e2 l r n)))
            else if class_name gatedoc = ''subtraction'' then
              bind_err (as_name_list (dict_get gkwargs ''target'')) (\<lambda>t.
              bind_err (as_name (dict_get gkwargs ''parent'')) (\<lambda>p.
              bind_err (as_name (dict_get gkwargs ''name'')) (\<lambda>n.
                subtraction e2 t p n)))
            else construct_class_and_gate ext e2 gatedoc gkwargs fmo_x fmo_y)))"

section \<open>A concrete engine\<close>

text \<open>
  Six events; the gate \<^verbatim>\<open>G1\<close> is a one-dimensional threshold on the root with the children
  \<^verbatim>\<open>pos\<close> and \<^verbatim>\<open>neg\<close>, the gate \<^verbatim>\<open>G2\<close> has the child \<^verbatim>\<open>act\<close> below \<^verbatim>\<open>pos\<close>, and one
  control \<^verbatim>\<open>fmo1\<close> is loaded.
\<close>

definition demo_node :: "string \<Rightarrow> event list \<Rightarrow> pyfloat pydict \<Rightarrow> rat \<Rightarrow> rat \<Rightarrow> addr option \<Rightarrow> pyfloat node" where
  "demo_node nm ix g pp pt p = \<lparr>node_name = nm, node_index = ix, node_geom = Some g,
     prop_of_parent = pp, prop_of_total = pt, node_warnings = [], node_parent = p\<rparr>"

definition demo_root_geom :: "pyfloat pydict" where
  "demo_root_geom = [(''shape'', PNone), (''x'', PStr ''CD4''), (''y'', PStr ''CD8'')]"

definition demo_gate :: "string \<Rightarrow> string list \<Rightarrow> string \<Rightarrow> pyfloat gate" where
  "demo_gate nm cs p = \<lparr>gate_name = nm, children = cs, gate_parent = p, gate_method = ''gate_1d'',
     kwargs = [(''x'', PStr ''CD4'')], class_name = ''DensityThreshold''\<rparr>"

definition demo_engine :: "pyfloat engine" where
  "demo_engine = \<lparr>
     data = demo_parent,
     fmo = [(''fmo1'', demo_parent)],
     fmo_search_cache = [(''fmo1'', [(''root'', [1, 2, 3, 4, 5, 6])])],
     gates = [(''G1'', demo_gate ''G1'' [''pos'', ''neg''] ''root''),
              (''G2'', demo_gate ''G2'' [''act''] ''pos'')],
     populations = [(''root'', 0), (''pos'', 1), (''neg'', 2), (''act'', 3)],
     heap = [demo_node ''root'' [1, 2, 3, 4, 5, 6] demo_root_geom 1 1 None,
             demo_node ''pos'' [1, 3, 5, 6] (demo_geom1d ''+'') (2 / 3) (2 / 3) (Some 0),
             demo_node ''neg'' [2, 4] (demo_geom1d ''-'') (1 / 3) (1 / 3) (Some 0),
             demo_node ''act'' [1, 3] (demo_geom1d ''+'') (1 / 2) (1 / 3) (Some 1)]\<rparr>"

text \<open>
  Concrete library functions for the closed examples: no transformation, an ellipse and a
  polygon that hold every row, a hull without vertices, a classifier that predicts an
  event of the control positive when the event is a positive of the training data, and a
  gating class that returns no population.
\<close>

definition demo_ext :: "pyfloat externals" where
  "demo_ext = \<lparr>
     ext_apply_transform = (\<lambda>df m f. Inr df),
     ext_inside_ellipse = (\<lambda>df cx cy g. Inr (map (\<lambda>r. True) (rows df))),
     ext_inside_polygon = (\<lambda>df cx cy g. Inr df),
     ext_convex_hull = (\<lambda>df cx cy. Inr (PDict [(''x'', PList []), (''y'', PList [])])),
     ext_knn = (\<lambda>train positives cx cy control. Inr (map (\<lambda>(i, r). i \<in> set positives) (rows control))),
     ext_gating_class = (\<lambda>c m df kw fx fy. Inr ([], []))\<rparr>"

text \<open>
  The same engine after \<^verbatim>\<open>pos\<close> was projected onto the control \<^verbatim>\<open>fmo1\<close>: the cache holds
  the index \<^verbatim>\<open>[1]\<close> for it.
\<close>

definition demo_engine_cached :: "pyfloat engine" where
  "demo_engine_cached = demo_engine\<lparr>fmo_search_cache :=
     [(''fmo1'', [(''root'', [1, 2, 3, 4, 5, 6]), (''pos'', [1])])]\<rparr>"

text \<open>
  What a call of \<^verbatim>\<open>get_fmo_data\<close> shows: the index of the frame returned, the cache after
  the call and the populations for which a classifier was trained.
\<close>

definition fmo_outcome ::
  "error + ('v dataframe \<times> 'v engine \<times> string list)
     \<Rightarrow> error + (event list \<times> (string \<times> (string \<times> event list) list) list \<times> string list)" where
  "fmo_outcome r = map_sum id (\<lambda>(df, e, trained). (df_index df, fmo_search_cache e, trained)) r"

text \<open>The cache entry of a population for a control after a call of \<^verbatim>\<open>get_fmo_data\<close>.\<close>

definition cache_entry_after ::
  "error + ('v dataframe \<times> 'v engine \<times> string list) \<Rightarrow> string \<Rightarrow> string
     \<Rightarrow> error + event list option" where
  "cache_entry_after r fmo_name pop = bind_err r (\<lambda>(df, e, trained). search_fmo_cache e pop fmo_name)"

text \<open>
  An edit of the gate \<^verbatim>\<open>G1\<close> that moves its threshold to 0.45 on the untransformed
  axis: no event is positive.
\<close>

definition demo_edit_geom :: "string \<Rightarrow> pyfloat pydict" where
  "demo_edit_geom d = [(''shape'', PStr ''threshold''), (''x'', PStr ''CD4''), (''y'', PNone),
     (''transform_x'', PNone), (''threshold'', PNum (Fin (45 / 100))), (''definition'', PStr d)]"

definition demo_edit :: "(string \<times> pyfloat pydict) list" where
  "demo_edit = [(''pos'', demo_edit_geom ''+''), (''neg'', demo_edit_geom ''-'')]"

text \<open>
  The same engine with a two-dimensional geometry for \<^verbatim>\<open>pos\<close>, which \<^verbatim>\<open>merge\<close> reads for
  the axes of the merged population, and a collection of one new population for
  \<^verbatim>\<open>update_populations\<close>.
\<close>

definition demo_engine_2d :: "pyfloat engine" where
  "demo_engine_2d = demo_engine\<lparr>heap :=
     (heap demo_engine)[1 := (heap demo_engine ! 1)\<lparr>node_geom := Some demo_geom\<rparr>]\<rparr>"

definition demo_output :: "pyfloat collection" where
  "demo_output = [(''new'', \<lparr>cp_geom = None, cp_index = [1, 3]\<rparr>)]"
section \<open>Properties of floats and of rounding\<close>



lemma pyfloat_less_simps [simp]:
  "Fin x < Fin y \<longleftrightarrow> x < y" "\<not> NaN < b" "\<not> a < NaN"
  "Fin x \<le> Fin y \<longleftrightarrow> x \<le> y" "\<not> NaN \<le> b" "\<not> a \<le> NaN"
  by (simp_all add: less_pyfloat_def less_eq_pyfloat_def split: pyfloat.splits)

lemma pyfloat_less_irrefl [simp]: "\<not> a < (a :: pyfloat)"
  by (cases a) simp_all

lemma pyfloat_less_asym: "a < b \<Longrightarrow> b < (a :: pyfloat) \<Longrightarrow> False"
  by (cases a; cases b) simp_all

lemma pyfloat_ge_or_less: "a \<noteq> NaN \<Longrightarrow> b \<noteq> NaN \<Longrightarrow> b \<le> a \<or> a < (b :: pyfloat)"
  by (cases a; cases b) auto



section \<open>Properties of the two-dimensional threshold\<close>

lemma quadrant_columns:
  assumes "x \<in> set (columns p)" and "y \<in> set (columns p)"
  shows "quadrant (df_round f p) (PStr x) (PStr y) in_x in_y =
           Inr (map fst (filter (\<lambda>(i, r). in_x (f (r x)) \<and> in_y (f (r y))) (rows p)))"
proof -
  have "filter (\<lambda>(i, r). in_x (r x) \<and> in_y (r y)) (map (\<lambda>(i, r). (i, \<lambda>c. f (r c))) (rows p))
          = map (\<lambda>(i, r). (i, \<lambda>c. f (r c))) (filter (\<lambda>(i, r). in_x (f (r x)) \<and> in_y (f (r y))) (rows p))"
    by (induction "rows p" arbitrary: p) (auto simp: filter_map comp_def split_def)
  with assms show ?thesis
    by (simp add: quadrant_def column_def df_round_def bind_err_def index_where_def
        comp_def split_def)
qed

lemma geom_bool_unfold:
  assumes "map_of geom ''x'' = Some (PStr x)" and "map_of geom ''y'' = Some (PStr y)"
    and "map_of geom ''threshold_x'' = Some (PNum tx)"
    and "map_of geom ''threshold_y'' = Some (PNum ty)"
    and "x \<in> set (columns p)" and "y \<in> set (columns p)"
  shows "geom_bool f g geom d p =
     (if d = PStr ''++'' then
        Inr (map fst (filter (\<lambda>(i, r). f (r x) > g tx \<and> f (r y) > g ty) (rows p)))
      else if d = PStr ''--'' then
        Inr (map fst (filter (\<lambda>(i, r). f (r x) < g tx \<and> f (r y) < g ty) (rows p)))
      else if d = PStr ''+-'' then
        Inr (map fst (filter (\<lambda>(i, r). f (r x) > g tx \<and> f (r y) < g ty) (rows p)))
      else if d = PStr ''-+'' then
        Inr (map fst (filter (\<lambda>(i, r). f (r x) < g tx \<and> f (r y) > g ty) (rows p)))
      else Inl ValueError)"
  using assms
  by (simp add: geom_bool_def getitem_def py_round_def bind_err_def Let_def quadrant_columns)



lemma rows_functional:
  assumes "distinct (map fst xs)" and "(i, r) \<in> set xs" and "(i, r') \<in> set xs"
  shows "r = r'"
  using assms by (meson eq_key_imp_eq_value)

text \<open>
  Claim C10. On a parent data set with unique event identifiers the four quadrants of one
  geometry are pairwise disjoint; an event whose rounded x equals the rounded x threshold,
  or whose rounded y equals the rounded y threshold, is in none of them, so that in the
  presence of such an event the quadrants do not cover the parent index.
\<close>

theorem threshold2d_quadrants_disjoint_not_covering:
  assumes "map_of geom ''x'' = Some (PStr x)" and "map_of geom ''y'' = Some (PStr y)"
    and "map_of geom ''threshold_x'' = Some (PNum tx)"
    and "map_of geom ''threshold_y'' = Some (PNum ty)"
    and "x \<in> set (columns p)" and "y \<in> set (columns p)"
    and "distinct (df_index p)"
  shows "\<exists>pp mm pm mp.
      geom_bool np_round round2 geom (PStr ''++'') p = Inr pp
    \<and> geom_bool np_round round2 geom (PStr ''--'') p = Inr mm
    \<and> geom_bool np_round round2 geom (PStr ''+-'') p = Inr pm
    \<and> geom_bool np_round round2 geom (PStr ''-+'') p = Inr mp
    \<and> set pp \<inter> set mm = {} \<and> set pp \<inter> set pm = {} \<and> set pp \<inter> set mp = {}
    \<and> set mm \<inter> set pm = {} \<and> set mm \<inter> set mp = {} \<and> set pm \<inter> set mp = {}
    \<and> (\<forall>(i, r) \<in> set (rows p).
          np_round (r x) = round2 tx \<or> np_round (r y) = round2 ty
            \<longrightarrow> i \<notin> set pp \<union> set mm \<union> set pm \<union> set mp)
    \<and> ((\<exists>(i, r) \<in> set (rows p). np_round (r x) = round2 tx \<or> np_round (r y) = round2 ty)
          \<longrightarrow> set pp \<union> set mm \<union> set pm \<union> set mp \<subset> set (df_index p))"
proof -
  let ?sel = "\<lambda>P. map fst (filter (\<lambda>(i, r). P (np_round (r x)) (np_round (r y))) (rows p))"
  have fn: "r = r'" if "(i, r) \<in> set (rows p)" "(i, r') \<in> set (rows p)" for i r r'
    using assms(7) that unfolding df_index_def by (rule rows_functional)
  have mem: "i \<in> set (?sel P) \<longleftrightarrow> (\<exists>r. (i, r) \<in> set (rows p) \<and> P (np_round (r x)) (np_round (r y)))"
    for i P by force
  have mem1: "i \<in> set (?sel P) \<longleftrightarrow> P (np_round (r x)) (np_round (r y))"
    if "(i, r) \<in> set (rows p)" for i r P
    using fn [OF that] that unfolding mem by blast
  have sub: "set (?sel P) \<subseteq> set (df_index p)" for P
    unfolding df_index_def by auto
  have disj: "set (?sel P) \<inter> set (?sel Q) = {}" if "\<And>a b. \<not> (P a b \<and> Q a b)" for P Q
  proof -
    { fix i assume "i \<in> set (?sel P)" "i \<in> set (?sel Q)"
      then obtain r r' where "(i, r) \<in> set (rows p)" "P (np_round (r x)) (np_round (r y))"
        "(i, r') \<in> set (rows p)" "Q (np_round (r' x)) (np_round (r' y))"
        unfolding mem by blast
      with fn that have False by blast }
    then show ?thesis by blast
  qed
  let ?pp = "?sel (\<lambda>a b. a > round2 tx \<and> b > round2 ty)"
  let ?mm = "?sel (\<lambda>a b. a < round2 tx \<and> b < round2 ty)"
  let ?pm = "?sel (\<lambda>a b. a > round2 tx \<and> b < round2 ty)"
  let ?mp = "?sel (\<lambda>a b. a < round2 tx \<and> b > round2 ty)"
  have ev: "geom_bool np_round round2 geom (PStr ''++'') p = Inr ?pp"
    "geom_bool np_round round2 geom (PStr ''--'') p = Inr ?mm"
    "geom_bool np_round round2 geom (PStr ''+-'') p = Inr ?pm"
    "geom_bool np_round round2 geom (PStr ''-+'') p = Inr ?mp"
    by (simp_all add: geom_bool_unfold [OF assms(1-6)])
  have d: "set ?pp \<inter> set ?mm = {}" "set ?pp \<inter> set ?pm = {}" "set ?pp \<inter> set ?mp = {}"
    "set ?mm \<inter> set ?pm = {}" "set ?mm \<inter> set ?mp = {}" "set ?pm \<inter> set ?mp = {}"
    by (rule disj, blast dest: pyfloat_less_asym)+
  have bnd: "i \<notin> set ?pp \<union> set ?mm \<union> set ?pm \<union> set ?mp"
    if "(i, r) \<in> set (rows p)" "np_round (r x) = round2 tx \<or> np_round (r y) = round2 ty" for i r
    using that(2) by (auto dest!: fn [OF that(1)])
  have cover: "set ?pp \<union> set ?mm \<union> set ?pm \<union> set ?mp \<subset> set (df_index p)"
    if "\<exists>(i, r) \<in> set (rows p). np_round (r x) = round2 tx \<or> np_round (r y) = round2 ty"
  proof -
    from that obtain i r where ir: "(i, r) \<in> set (rows p)"
      "np_round (r x) = round2 tx \<or> np_round (r y) = round2 ty" by blast
    have "i \<in> set (df_index p)" using ir(1) unfolding df_index_def by force
    moreover note bnd [OF ir]
    moreover have "set ?pp \<union> set ?mm \<union> set ?pm \<union> set ?mp \<subseteq> set (df_index p)"
      unfolding df_index_def by auto
    ultimately show ?thesis by blast
  qed
  have b': "\<forall>(i, r) \<in> set (rows p).
          np_round (r x) = round2 tx \<or> np_round (r y) = round2 ty
            \<longrightarrow> i \<notin> set ?pp \<union> set ?mm \<union> set ?pm \<union> set ?mp"
    using bnd by blast
  have c': "(\<exists>(i, r) \<in> set (rows p). np_round (r x) = round2 tx \<or> np_round (r y) = round2 ty)
          \<longrightarrow> set ?pp \<union> set ?mm \<union> set ?pm \<union> set ?mp \<subset> set (df_index p)"
    using cover by blast
  show ?thesis
    by (intro exI conjI) (rule ev d b' c')+
qed

theorem threshold2d_quadrants_disjoint_not_covering_witness:
  "(\<exists>pp mm pm mp.
      geom_bool (round_decimals 2) (round_decimals 2) demo_geom (PStr ''++'') demo_parent = Inr pp
    \<and> geom_bool (round_decimals 2) (round_decimals 2) demo_geom (PStr ''--'') demo_parent = Inr mm
    \<and> geom_bool (round_decimals 2) (round_decimals 2) demo_geom (PStr ''+-'') demo_parent = Inr pm
    \<and> geom_bool (round_decimals 2) (round_decimals 2) demo_geom (PStr ''-+'') demo_parent = Inr mp
    \<and> set pp \<inter> set mm = {} \<and> set pp \<inter> set pm = {} \<and> set pp \<inter> set mp = {}
    \<and> set mm \<inter> set pm = {} \<and> set mm \<inter> set mp = {} \<and> set pm \<inter> set mp = {}
    \<and> (\<forall>(i, r) \<in> set (rows demo_parent).
          round_decimals 2 (r ''CD4'') = round_decimals 2 (Fin (121 / 1000)) \<or> round_decimals 2 (r ''CD8'') = round_decimals 2 (Fin (309 / 1000))
            \<longrightarrow> i \<notin> set pp \<union> set mm \<union> set pm \<union> set mp)
    \<and> ((\<exists>(i, r) \<in> set (rows demo_parent).
            round_decimals 2 (r ''CD4'') = round_decimals 2 (Fin (121 / 1000)) \<or> round_decimals 2 (r ''CD8'') = round_decimals 2 (Fin (309 / 1000)))
          \<longrightarrow> set pp \<union> set mm \<union> set pm \<union> set mp \<subset> set (df_index demo_parent)))
   \<and> geom_bool (round_decimals 2) (round_decimals 2) demo_geom (PStr ''++'') demo_parent = Inr [1]
   \<and> geom_bool (round_decimals 2) (round_decimals 2) demo_geom (PStr ''--'') demo_parent = Inr [2]
   \<and> geom_bool (round_decimals 2) (round_decimals 2) demo_geom (PStr ''+-'') demo_parent = Inr [3]
   \<and> geom_bool (round_decimals 2) (round_decimals 2) demo_geom (PStr ''-+'') demo_parent = Inr [4]
   \<and> df_index demo_parent = [1, 2, 3, 4, 5, 6]
   \<and> round_decimals 2 (demo_row (124 / 1000) (5 / 10) ''CD4'') = round_decimals 2 (Fin (121 / 1000))
   \<and> round_decimals 2 (demo_row (4 / 10) (314 / 1000) ''CD8'') = round_decimals 2 (Fin (309 / 1000))"
proof -
  have ix: "df_index demo_parent = [1, 2, 3, 4, 5, 6]"
    by (simp add: df_index_def demo_parent_def)
  have inst: "\<exists>pp mm pm mp.
      geom_bool (round_decimals 2) (round_decimals 2) demo_geom (PStr ''++'') demo_parent = Inr pp
    \<and> geom_bool (round_decimals 2) (round_decimals 2) demo_geom (PStr ''--'') demo_parent = Inr mm
    \<and> geom_bool (round_decimals 2) (round_decimals 2) demo_geom (PStr ''+-'') demo_parent = Inr pm
    \<and> geom_bool (round_decimals 2) (round_decimals 2) demo_geom (PStr ''-+'') demo_parent = Inr mp
    \<and> set pp \<inter> set mm = {} \<and> set pp \<inter> set pm = {} \<and> set pp \<inter> set mp = {}
    \<and> set mm \<inter> set pm = {} \<and> set mm \<inter> set mp = {} \<and> set pm \<inter> set mp = {}
    \<and> (\<forall>(i, r) \<in> set (rows demo_parent).
          round_decimals 2 (r ''CD4'') = round_decimals 2 (Fin (121 / 1000)) \<or> round_decimals 2 (r ''CD8'') = round_decimals 2 (Fin (309 / 1000))
            \<longrightarrow> i \<notin> set pp \<union> set mm \<union> set pm \<union> set mp)
    \<and> ((\<exists>(i, r) \<in> set (rows demo_parent).
            round_decimals 2 (r ''CD4'') = round_decimals 2 (Fin (121 / 1000)) \<or> round_decimals 2 (r ''CD8'') = round_decimals 2 (Fin (309 / 1000)))
          \<longrightarrow> set pp \<union> set mm \<union> set pm \<union> set mp \<subset> set (df_index demo_parent))"
    by (rule threshold2d_quadrants_disjoint_not_covering [of demo_geom "''CD4''" "''CD8''"
          "Fin (121 / 1000)" "Fin (309 / 1000)" demo_parent "round_decimals 2" "round_decimals 2"])
       (simp_all add: demo_geom_def ix, simp_all add: demo_parent_def)
  have ev:
    "geom_bool (round_decimals 2) (round_decimals 2) demo_geom (PStr ''++'') demo_parent = Inr [1]"
    "geom_bool (round_decimals 2) (round_decimals 2) demo_geom (PStr ''--'') demo_parent = Inr [2]"
    "geom_bool (round_decimals 2) (round_decimals 2) demo_geom (PStr ''+-'') demo_parent = Inr [3]"
    "geom_bool (round_decimals 2) (round_decimals 2) demo_geom (PStr ''-+'') demo_parent = Inr [4]"
    by code_simp+
  have rd: "round_decimals 2 (demo_row (124 / 1000) (5 / 10) ''CD4'') = round_decimals 2 (Fin (121 / 1000))"
    "round_decimals 2 (demo_row (4 / 10) (314 / 1000) ''CD8'') = round_decimals 2 (Fin (309 / 1000))"
    by code_simp+
  show ?thesis
    by (intro conjI) (rule inst ev ix rd)+
qed


section \<open>Properties of the threshold merge\<close>

lemma np_unique_set: "set (np_unique xs) = set xs"
  by (simp add: np_unique_def)

lemma np_unique_distinct: "distinct (np_unique xs)"
  by (simp add: np_unique_def)

lemma np_unique_length: "length (np_unique xs) = card (set xs)"
  by (metis np_unique_set np_unique_distinct distinct_card)

lemma threshold_1d_plus:
  assumes "threshold_1d g par = Inr ix" and "map_of g ''definition'' = Some (PStr ''+'')"
  shows "\<exists>c thr. map_of g ''x'' = Some (PStr c) \<and> map_of g ''threshold'' = Some (PNum thr)
           \<and> ix = index_where par (\<lambda>r. r c \<ge> thr)"
  using assms
  by (auto simp: threshold_1d_def compare_column_def bind_err_def getitem_def column_def has_key_def
      split: if_splits option.splits pyval.splits)

lemma threshold_1d_minus:
  assumes "threshold_1d g par = Inr ix" and "map_of g ''definition'' = Some (PStr ''-'')"
  shows "\<exists>c thr. map_of g ''x'' = Some (PStr c) \<and> map_of g ''threshold'' = Some (PNum thr)
           \<and> ix = index_where par (\<lambda>r. r c < thr)"
  using assms
  by (auto simp: threshold_1d_def compare_column_def bind_err_def getitem_def column_def has_key_def
      split: if_splits option.splits pyval.splits)

lemma index_where_split:
  "set (index_where par (\<lambda>r. r c \<ge> thr)) \<union> set (index_where par (\<lambda>r. r c < thr))
     = set (index_where par (\<lambda>r. r c \<noteq> NaN \<and> thr \<noteq> NaN))"
proof -
  have "(thr \<le> a \<or> a < thr) \<longleftrightarrow> (a \<noteq> NaN \<and> thr \<noteq> NaN)" for a :: pyfloat
    by (cases a; cases thr) auto
  then show ?thesis
    by (auto simp: index_where_def)
qed

lemma index_where_all:
  assumes "\<forall>(i, r) \<in> set (rows par). keep r"
  shows "index_where par keep = df_index par"
proof -
  from assms have "filter (\<lambda>(i, r). keep r) (rows par) = rows par"
    by (intro filter_True) auto
  then show ?thesis
    by (simp add: index_where_def df_index_def)
qed

text \<open>
  Claim C5 as stated fails on a parent data set with a NaN cell in the gated column: event
  7 is in neither child of the threshold, and the merged index is not the parent's index.
\<close>

theorem merge_thresholds_nan_counterexample:
  "threshold_1d (demo_geom1d ''+'') demo_parent_nan = Inr [1, 3, 5, 6]
   \<and> threshold_1d (demo_geom1d ''-'') demo_parent_nan = Inr [2, 4]
   \<and> map_sum id (\<lambda>(new, left', ws). (pop_index new, pop_definition new))
         (merge_thresholds (\<lambda>_ _. ()) (demo_pop ''pos'' ''+'' [1, 3, 5, 6])
            (demo_pop ''neg'' ''-'' [2, 4]) ''combined'')
       = Inr ([1, 2, 3, 4, 5, 6], Some ''+,-'')
   \<and> df_index demo_parent_nan = [1, 2, 3, 4, 5, 6, 7]"
  by code_simp

text \<open>
  Claim C5, amended. Merging two threshold populations whose x and y thresholds are equal
  (and whose definitions are set) succeeds; the index of the merged population is the set
  union of the two indices without duplicates, so its length is the cardinality of the
  union; its definition is the two definitions joined by a comma. When the two inputs are
  the \<^verbatim>\<open>+\<close> and the \<^verbatim>\<open>-\<close> child of one one-dimensional threshold on a parent data set,
  the definition is \<^verbatim>\<open>+,-\<close> and the merged index holds the events of the parent whose cell
  in the gated column is not NaN (none when the threshold is NaN): it is the parent's index
  when no cell of that column and not the threshold is NaN.
\<close>

theorem merge_thresholds_union:
  fixes left right :: "(pyfloat, 's) population"
  assumes "float_eq (x_threshold (pop_geom left)) (x_threshold (pop_geom right))"
    and "float_eq (y_threshold (pop_geom left)) (y_threshold (pop_geom right))"
    and "pop_definition left = Some dl" and "pop_definition right = Some dr"
  shows "\<exists>new left' ws.
      merge_thresholds merge_signatures left right new_name = Inr (new, left', ws)
    \<and> set (pop_index new) = set (pop_index left) \<union> set (pop_index right)
    \<and> distinct (pop_index new)
    \<and> length (pop_index new) = card (set (pop_index left) \<union> set (pop_index right))
    \<and> pop_definition new = Some (dl @ '','' @ dr)
    \<and> pop_parent new = pop_parent left
    \<and> pop_name new = new_name
    \<and> (\<forall>gp gm par.
          threshold_1d gp par = Inr (pop_index left)
          \<and> threshold_1d gm par = Inr (pop_index right)
          \<and> map_of gp ''definition'' = Some (PStr ''+'')
          \<and> map_of gm ''definition'' = Some (PStr ''-'')
          \<and> map_of gp ''x'' = map_of gm ''x''
          \<and> map_of gp ''threshold'' = map_of gm ''threshold''
          \<and> dl = ''+'' \<and> dr = ''-''
          \<longrightarrow> pop_definition new = Some ''+,-''
              \<and> (\<exists>c thr. map_of gp ''x'' = Some (PStr c)
                    \<and> map_of gp ''threshold'' = Some (PNum thr)
                    \<and> set (pop_index new)
                        = set (index_where par (\<lambda>r. r c \<noteq> NaN \<and> thr \<noteq> NaN))
                    \<and> ((\<forall>(i, r) \<in> set (rows par). r c \<noteq> NaN) \<and> thr \<noteq> NaN
                          \<longrightarrow> set (pop_index new) = set (df_index par))))"
proof -
  let ?void = "clusters left \<noteq> [] \<or> clusters right \<noteq> []"
  let ?left' = "if ?void then left\<lparr>clusters := []\<rparr> else left"
  obtain new ws where m: "merge_thresholds merge_signatures left right new_name = Inr (new, ?left', ws)"
    and ix: "pop_index new = np_unique (pop_index left @ pop_index right)"
    and d: "pop_definition new = Some (dl @ '','' @ dr)"
    and p: "pop_parent new = pop_parent left"
    and nm: "pop_name new = new_name"
    using assms
    by (cases ?void)
       (simp_all add: merge_thresholds_def Let_def join_comma_def bind_err_def merge_index_def)
  have s: "set (pop_index new) = set (pop_index left) \<union> set (pop_index right)"
    by (simp add: ix np_unique_set)
  have scen: "pop_definition new = Some ''+,-''
      \<and> (\<exists>c thr. map_of gp ''x'' = Some (PStr c)
            \<and> map_of gp ''threshold'' = Some (PNum thr)
            \<and> set (pop_index new) = set (index_where par (\<lambda>r. r c \<noteq> NaN \<and> thr \<noteq> NaN))
            \<and> ((\<forall>(i, r) \<in> set (rows par). r c \<noteq> NaN) \<and> thr \<noteq> NaN
                  \<longrightarrow> set (pop_index new) = set (df_index par)))"
    if "threshold_1d gp par = Inr (pop_index left)"
      "threshold_1d gm par = Inr (pop_index right)"
      "map_of gp ''definition'' = Some (PStr ''+'')"
      "map_of gm ''definition'' = Some (PStr ''-'')"
      "map_of gp ''x'' = map_of gm ''x''"
      "map_of gp ''threshold'' = map_of gm ''threshold''"
      "dl = ''+''" "dr = ''-''"
    for gp gm par
  proof -
    from threshold_1d_plus [OF that(1,3)] obtain c thr where
      a: "map_of gp ''x'' = Some (PStr c)" "map_of gp ''threshold'' = Some (PNum thr)"
        "pop_index left = index_where par (\<lambda>r. r c \<ge> thr)" by blast
    from threshold_1d_minus [OF that(2,4)] obtain c' thr' where
      b: "map_of gm ''x'' = Some (PStr c')" "map_of gm ''threshold'' = Some (PNum thr')"
        "pop_index right = index_where par (\<lambda>r. r c' < thr')" by blast
    from a b that(5,6) have "c' = c" "thr' = thr" by simp_all
    with a b s index_where_split [where par = par and c = c and thr = thr]
    have e: "set (pop_index new) = set (index_where par (\<lambda>r. r c \<noteq> NaN \<and> thr \<noteq> NaN))"
      by simp
    have f: "set (pop_index new) = set (df_index par)"
      if "(\<forall>(i, r) \<in> set (rows par). r c \<noteq> NaN) \<and> thr \<noteq> NaN"
    proof -
      from that have "\<forall>(i, r) \<in> set (rows par). r c \<noteq> NaN \<and> thr \<noteq> NaN" by auto
      from index_where_all [OF this] e show ?thesis by simp
    qed
    from d that(7,8) have "pop_definition new = Some ''+,-''" by simp
    with a(1,2) e f show ?thesis by blast
  qed
  show ?thesis
    apply (rule exI [of _ new], rule exI [of _ ?left'], rule exI [of _ ws])
    apply (intro conjI m s d p nm)
      apply (simp add: ix np_unique_distinct)
     apply (simp add: ix np_unique_length)
    using scen apply blast
    done
qed

theorem merge_thresholds_union_witness:
  "\<exists>new.
      merge_thresholds (\<lambda>_ _. ()) (demo_pop ''pos'' ''+'' [1, 3, 5, 6]) (demo_pop ''neg'' ''-'' [2, 4])
        ''combined'' = Inr (new, demo_pop ''pos'' ''+'' [1, 3, 5, 6], [])
    \<and> threshold_1d (demo_geom1d ''+'') demo_parent = Inr [1, 3, 5, 6]
    \<and> threshold_1d (demo_geom1d ''-'') demo_parent = Inr [2, 4]
    \<and> pop_index new = [1, 2, 3, 4, 5, 6]
    \<and> set (pop_index new) = set (df_index demo_parent)
    \<and> pop_definition new = Some ''+,-''"
proof -
  let ?L = "demo_pop ''pos'' ''+'' [1, 3, 5, 6]"
  let ?R = "demo_pop ''neg'' ''-'' [2, 4]"
  have h: "float_eq (x_threshold (pop_geom ?L)) (x_threshold (pop_geom ?R))"
    "float_eq (y_threshold (pop_geom ?L)) (y_threshold (pop_geom ?R))"
    "pop_definition ?L = Some ''+''" "pop_definition ?R = Some ''-''"
    by (simp_all add: demo_pop_def demo_threshold_geom_def float_eq_def)
  from merge_thresholds_union [OF h, of "\<lambda>_ _. ()" "''combined''"]
  obtain new left' ws where
    m: "merge_thresholds (\<lambda>_ _. ()) ?L ?R ''combined'' = Inr (new, left', ws)"
    and sc: "\<And>gp gm par.
          threshold_1d gp par = Inr (pop_index ?L) \<Longrightarrow>
          threshold_1d gm par = Inr (pop_index ?R) \<Longrightarrow>
          map_of gp ''definition'' = Some (PStr ''+'') \<Longrightarrow>
          map_of gm ''definition'' = Some (PStr ''-'') \<Longrightarrow>
          map_of gp ''x'' = map_of gm ''x'' \<Longrightarrow>
          map_of gp ''threshold'' = map_of gm ''threshold'' \<Longrightarrow>
          pop_definition new = Some ''+,-''
          \<and> (\<exists>c thr. map_of gp ''x'' = Some (PStr c)
                \<and> map_of gp ''threshold'' = Some (PNum thr)
                \<and> set (pop_index new) = set (index_where par (\<lambda>r. r c \<noteq> NaN \<and> thr \<noteq> NaN))
                \<and> ((\<forall>(i, r) \<in> set (rows par). r c \<noteq> NaN) \<and> thr \<noteq> NaN
                      \<longrightarrow> set (pop_index new) = set (df_index par)))"
    by blast
  have t: "threshold_1d (demo_geom1d ''+'') demo_parent = Inr [1, 3, 5, 6]"
    "threshold_1d (demo_geom1d ''-'') demo_parent = Inr [2, 4]"
    by code_simp+
  have a1: "threshold_1d (demo_geom1d ''+'') demo_parent = Inr (pop_index ?L)"
    and a2: "threshold_1d (demo_geom1d ''-'') demo_parent = Inr (pop_index ?R)"
    by (simp_all add: t demo_pop_def)
  have a3: "map_of (demo_geom1d ''+'') ''definition'' = Some (PStr ''+'')"
    and a4: "map_of (demo_geom1d ''-'') ''definition'' = Some (PStr ''-'')"
    and a5: "map_of (demo_geom1d ''+'') ''x'' = map_of (demo_geom1d ''-'') ''x''"
    and a6: "map_of (demo_geom1d ''+'') ''threshold'' = map_of (demo_geom1d ''-'') ''threshold''"
    by (simp_all add: demo_geom1d_def)
  from sc [OF a1 a2 a3 a4 a5 a6] obtain c thr where
    df: "pop_definition new = Some ''+,-''"
    and c: "map_of (demo_geom1d ''+'') ''x'' = Some (PStr c)"
    and thr: "map_of (demo_geom1d ''+'') ''threshold'' = Some (PNum thr)"
    and imp: "(\<forall>(i, r) \<in> set (rows demo_parent). r c \<noteq> NaN) \<and> thr \<noteq> NaN
                \<longrightarrow> set (pop_index new) = set (df_index demo_parent)"
    by blast
  from c thr have "c = ''CD4''" "thr = Fin (12 / 100)"
    by (simp_all add: demo_geom1d_def)
  with imp have sx: "set (pop_index new) = set (df_index demo_parent)"
    by (simp add: demo_parent_def demo_row_def)
  have "merge_thresholds (\<lambda>_ _. ()) ?L ?R ''combined''
      = Inr (demo_pop ''combined'' ''+,-'' [1, 2, 3, 4, 5, 6]
               \<lparr>pop_n := Some 6, pop_warnings := [''MERGED POPULATION'']\<rparr>, ?L, [])"
    by (simp add: merge_thresholds_def Let_def join_comma_def bind_err_def merge_index_def
        np_unique_def demo_pop_def demo_threshold_geom_def float_eq_def)
  with m have "new = demo_pop ''combined'' ''+,-'' [1, 2, 3, 4, 5, 6]
               \<lparr>pop_n := Some 6, pop_warnings := [''MERGED POPULATION'']\<rparr>"
    "left' = ?L" "ws = []" by simp_all
  with m t sx df show ?thesis
    by (intro exI [of _ new]) (simp add: demo_pop_def)
qed

section \<open>Properties of gate removal and gate application\<close>

text \<open>
  Claim C3 as stated fails: in the engine \<open>demo_engine\<close> the children \<^verbatim>\<open>pos\<close> and \<^verbatim>\<open>neg\<close> of
  the gate \<^verbatim>\<open>G1\<close> are populations, and \<^verbatim>\<open>remove_gate\<close> without propagation returns
  \<^verbatim>\<open>True\<close> and removes the gate.
\<close>

theorem remove_gate_without_propagation_counterexample:
  "has_key (populations demo_engine) ''pos'' \<and> has_key (populations demo_engine) ''neg''
   \<and> map_of (gates demo_engine) ''G1'' = Some (demo_gate ''G1'' [''pos'', ''neg''] ''root'')
   \<and> remove_gate demo_engine ''G1'' False
       = Inr (ReturnedTrue, demo_engine\<lparr>gates := [(''G2'', demo_gate ''G2'' [''act''] ''pos'')]\<rparr>)"
  by (simp add: remove_gate_def has_key_def getitem_def bind_err_def demo_engine_def
      demo_gate_def)

text \<open>
  Claim C3, amended. Without propagation \<^verbatim>\<open>remove_gate\<close> removes a registered gate from
  the registry and returns \<^verbatim>\<open>True\<close>, whether or not its children are populations; every
  other gate, every population and the cache stay as they are.
\<close>

theorem remove_gate_without_propagation:
  assumes "has_key (gates e) name"
  shows "\<exists>e'. remove_gate e name False = Inr (ReturnedTrue, e')
           \<and> \<not> has_key (gates e') name
           \<and> (\<forall>g. g \<noteq> name \<longrightarrow> map_of (gates e') g = map_of (gates e) g)
           \<and> populations e' = populations e \<and> heap e' = heap e
           \<and> fmo_search_cache e' = fmo_search_cache e"
  using assms
  by (auto simp: remove_gate_def has_key_def getitem_def bind_err_def AList.delete_conv
      split: option.splits)

theorem remove_gate_without_propagation_witness:
  "has_key (gates demo_engine) ''G1''
   \<and> (\<exists>e'. remove_gate demo_engine ''G1'' False = Inr (ReturnedTrue, e')
           \<and> \<not> has_key (gates e') ''G1''
           \<and> map_of (gates e') ''G2'' = map_of (gates demo_engine) ''G2''
           \<and> populations e' = populations demo_engine \<and> heap e' = heap demo_engine)"
proof -
  have h: "has_key (gates demo_engine) ''G1''"
    by (simp add: has_key_def demo_engine_def)
  from remove_gate_without_propagation [OF h] show ?thesis
    using h by fastforce
qed

text \<open>
  Claim C7 as stated fails: for a gate name that is not registered \<^verbatim>\<open>apply\<close> raises
  nothing. The check fails (\<^verbatim>\<open>__apply_checks\<close> prints a message and returns \<^verbatim>\<open>None\<close>) and
  \<^verbatim>\<open>apply\<close> returns \<^verbatim>\<open>None\<close>, which is also what it returns after a gate was applied.
\<close>

theorem apply_unregistered_gate_counterexample:
  "apply_checks demo_engine ''G9'' = None
   \<and> \<not> isl (apply_gate demo_ext demo_engine ''G9'' [])"
  by (simp add: apply_gate_def apply_checks_def has_key_def demo_engine_def)

text \<open>
  Claim C7, amended. Calling \<^verbatim>\<open>apply\<close> with a gate name that was never registered is not
  an error: the checks fail (\<^verbatim>\<open>__apply_checks\<close> returns \<^verbatim>\<open>None\<close>), no exception is raised
  and \<^verbatim>\<open>apply\<close> returns normally with the engine exactly as it was: the populations, their
  indices, the gates and the cache are unchanged.
\<close>

theorem apply_unregistered_gate:
  assumes "\<not> has_key (gates e) name"
  shows "apply_checks e name = None \<and> apply_gate ext e name call_kwargs = Inr e"
  using assms by (simp add: apply_checks_def apply_gate_def)

theorem apply_unregistered_gate_witness:
  "\<not> has_key (gates demo_engine) ''G9''
   \<and> apply_checks demo_engine ''G9'' = None
   \<and> apply_gate demo_ext demo_engine ''G9'' [] = Inr demo_engine"
proof -
  have h: "\<not> has_key (gates demo_engine) ''G9''"
    by (simp add: has_key_def demo_engine_def)
  from apply_unregistered_gate [OF h] h show ?thesis by simp
qed
section \<open>Properties of the projection onto a control\<close>

lemma get_fmo_data_cached:
  assumes "search_fmo_cache e p c = Inr (Some idx)" and "getitem (fmo e) c = Inr df"
    and "df_loc df idx = Inr r"
  shows "get_fmo_data ext e p c sml = Inr (r, e, [])"
  using assms by (simp add: get_fmo_data_def bind_err_def)

text \<open>
  Claim C2 fails on the code. In the engine \<open>demo_engine_cached\<close> the control \<^verbatim>\<open>fmo1\<close> has a
  cache entry for \<^verbatim>\<open>pos\<close> and none for its child \<^verbatim>\<open>act\<close>. The claim lets
  \<^verbatim>\<open>get_fmo_data\<close> resume from the cached index \<^verbatim>\<open>[1]\<close> of \<^verbatim>\<open>pos\<close> and train a
  classifier for \<^verbatim>\<open>act\<close> only. The code finds no start position (it looks the population
  up among the control names), starts from the root, trains classifiers for \<^verbatim>\<open>pos\<close> and
  \<^verbatim>\<open>act\<close>, and returns the events 1 and 3.
\<close>

theorem fmo_projection_retrains_cached_ancestor:
  "search_fmo_cache demo_engine_cached ''pos'' ''fmo1'' = Inr (Some [1])
   \<and> search_fmo_cache demo_engine_cached ''act'' ''fmo1'' = Inr None
   \<and> fmo_outcome (get_fmo_data demo_ext demo_engine_cached ''act'' ''fmo1'' None)
       = Inr ([1, 3],
              [(''fmo1'', [(''root'', [1, 2, 3, 4, 5, 6]), (''pos'', [1, 3, 5, 6]),
                           (''act'', [1, 3])])],
              [''pos'', ''act''])"
  by code_simp

text \<open>
  Claim C8 fails on the code in its second half. A call for a cached pair returns the
  cached index, leaves the engine as it is and trains no classifier
  (\<open>get_fmo_data_cached\<close>); but the call for \<^verbatim>\<open>act\<close> above overwrites the entry of \<^verbatim>\<open>pos\<close>, which
  was \<^verbatim>\<open>[1]\<close>, with \<^verbatim>\<open>[1, 3, 5, 6]\<close>.
\<close>

theorem fmo_cache_entry_overwritten:
  "search_fmo_cache demo_engine_cached ''pos'' ''fmo1'' = Inr (Some [1])
   \<and> cache_entry_after (get_fmo_data demo_ext demo_engine_cached ''act'' ''fmo1'' None)
        ''fmo1'' ''pos'' = Inr (Some [1, 3, 5, 6])"
  by code_simp

section \<open>Properties of the removal of populations\<close>

lemma pop_all_ok:
  "distinct names \<Longrightarrow> \<forall>n \<in> set names. has_key d n \<Longrightarrow>
     \<exists>d'. pop_all d names = Inr d'
       \<and> (\<forall>k. map_of d' k = (if k \<in> set names then None else map_of d k))"
proof (induction names arbitrary: d)
  case Nil
  then show ?case by simp
next
  case (Cons x xs)
  have "\<forall>n \<in> set xs. has_key (AList.delete x d) n"
    using Cons.prems by (auto simp: has_key_def AList.delete_conv)
  with Cons.IH [of "AList.delete x d"] Cons.prems obtain d' where
    "pop_all (AList.delete x d) xs = Inr d'"
    "\<forall>k. map_of d' k = (if k \<in> set xs then None else map_of (AList.delete x d) k)"
    by auto
  with Cons.prems show ?case
    by (auto simp: AList.delete_conv)
qed

lemma node_path_last: "a \<in> set (node_path h a)"
  by (subst node_path.simps) (auto split: option.splits)

text \<open>
  Claim C4, amended. \<^verbatim>\<open>remove_population\<close> has no check for the root: when the names of the
  nodes below the root object are distinct and bound, removing \<^verbatim>\<open>root\<close> succeeds and
  \<^verbatim>\<open>root\<close> is no longer a population afterwards.
\<close>

theorem remove_population_root_removes_tree:
  assumes "map_of (populations e) ''root'' = Some r" and "r < length (heap e)"
    and "node_name (heap e ! r) = ''root''"
    and "distinct (tree_names e r)"
    and "\<forall>n \<in> set (tree_names e r). has_key (populations e) n"
  shows "\<exists>e'. remove_population e ''root'' = Inr e'
           \<and> \<not> has_key (populations e') ''root''
           \<and> gates e' = gates e"
proof -
  let ?h = "heap e"
  let ?sel = "filter (\<lambda>x. r \<in> set (node_path ?h x)) (preorder ?h r)"
  let ?names = "map (\<lambda>x. node_name (?h ! x)) ?sel"
  have fd: "find_dependencies e ''root'' = Inr (Some ?names)"
    using assms(1) by (simp add: find_dependencies_def has_key_def getitem_def bind_err_def)
  have rin: "r \<in> set ?sel"
    by (subst preorder.simps) (simp add: node_path_last)
  then have root_in: "''root'' \<in> set ?names"
    using assms(3) by (metis (no_types, lifting) image_eqI set_map)
  have dist: "distinct ?names"
    using assms(4) unfolding tree_names_def by (simp add: distinct_map_filter)
  have bound: "\<forall>n \<in> set ?names. has_key (populations e) n"
    using assms(5) unfolding tree_names_def by auto
  from pop_all_ok [OF dist bound] obtain d' where
    d': "pop_all (populations e) ?names = Inr d'"
      "\<forall>k. map_of d' k = (if k \<in> set ?names then None else map_of (populations e) k)"
    by blast
  have "remove_population e ''root''
          = Inr (e\<lparr>heap := ?h[r := (?h ! r)\<lparr>node_parent := None\<rparr>], populations := d'\<rparr>)"
    using assms(1,2) d'(1)
    by (simp add: remove_population_def fd has_key_def getitem_def bind_err_def deref_def Let_def)
  moreover have "\<not> has_key d' ''root''"
    using d'(2) root_in by (simp add: has_key_def)
  ultimately show ?thesis by simp
qed


theorem remove_population_root_removes_tree_witness:
  "map_of (populations demo_engine) ''root'' = Some 0
   \<and> tree_names demo_engine 0 = [''root'', ''pos'', ''act'', ''neg'']
   \<and> (\<exists>e'. remove_population demo_engine ''root'' = Inr e'
           \<and> \<not> has_key (populations e') ''root''
           \<and> gates e' = gates demo_engine)"
proof -
  have a: "map_of (populations demo_engine) ''root'' = Some 0"
    and b: "0 < length (heap demo_engine)"
    and c: "node_name (heap demo_engine ! 0) = ''root''"
    by (simp_all add: demo_engine_def demo_node_def)
  have t: "tree_names demo_engine 0 = [''root'', ''pos'', ''act'', ''neg'']"
    by code_simp
  have d: "distinct (tree_names demo_engine 0)"
    by (simp add: t)
  have f: "\<forall>n \<in> set (tree_names demo_engine 0). has_key (populations demo_engine) n"
    unfolding t by (simp add: has_key_def demo_engine_def)
  from remove_population_root_removes_tree [OF a b c d f] a t show ?thesis
    by blast
qed

text \<open>
  Claim C4 as stated fails: removing \<^verbatim>\<open>root\<close> from the engine \<open>demo_engine\<close> raises nothing
  and empties the dictionary of populations.
\<close>

theorem remove_root_counterexample:
  "has_key (populations demo_engine) ''root''
   \<and> remove_population demo_engine ''root'' = Inr (demo_engine\<lparr>populations := []\<rparr>)"
proof -
  have "find_dependencies demo_engine ''root'' = Inr (Some [''root'', ''pos'', ''act'', ''neg''])"
    by code_simp
  then have "remove_population demo_engine ''root'' = Inr (demo_engine\<lparr>populations := []\<rparr>)"
    by (simp add: remove_population_def bind_err_def)
       (simp add: demo_engine_def has_key_def getitem_def deref_def bind_err_def demo_node_def)
  then show ?thesis
    by (simp add: has_key_def demo_engine_def)
qed

section \<open>Properties of subtraction\<close>

lemma indices_of_bound:
  assumes "\<forall>t \<in> set ts. \<exists>a. map_of (populations e) t = Some a \<and> a < length (heap e)"
  shows "indices_of e ts
           = Inr (map (\<lambda>t. node_index (heap e ! the (map_of (populations e) t))) ts)"
  using assms
  by (induction ts) (auto simp: pop_node_def getitem_def deref_def bind_err_def)

lemma np_setdiff1d_set: "set (np_setdiff1d a b) = set a - set b"
  by (auto simp: np_setdiff1d_def np_unique_def)

lemma df_loc_ok:
  assumes "set idx \<subseteq> set (df_index df)"
  shows "\<exists>r. df_loc df idx = Inr r \<and> (idx \<noteq> [] \<longrightarrow> rows r \<noteq> [])
           \<and> set (df_index r) = set idx"
proof -
  let ?r = "df\<lparr>rows := concat (map (\<lambda>i. filter (\<lambda>(j, r). j = i) (rows df)) idx)\<rparr>"
  have ok: "df_loc df idx = Inr ?r"
    using assms by (auto simp: df_loc_def)
  have ne: "filter (\<lambda>(j, r). j = i) (rows df) \<noteq> []" if "i \<in> set idx" for i
    using assms that by (fastforce simp: df_index_def filter_empty_conv)
  have "rows ?r \<noteq> []" if "idx \<noteq> []"
  proof -
    from that obtain i where "i \<in> set idx" by (cases idx) auto
    with ne [OF this] show ?thesis by auto
  qed
  moreover have "set (df_index ?r) = set idx"
  proof
    show "set (df_index ?r) \<subseteq> set idx"
      by (auto simp: df_index_def)
    show "set idx \<subseteq> set (df_index ?r)"
    proof
      fix i assume i: "i \<in> set idx"
      from ne [OF i] obtain jr where "jr \<in> set (filter (\<lambda>(j, r). j = i) (rows df))"
        by (meson last_in_set)
      then have "jr \<in> set (rows df)" "fst jr = i" by auto
      with i show "i \<in> set (df_index ?r)"
        by (force simp: df_index_def)
    qed
  qed
  ultimately show ?thesis using ok by blast
qed

lemma commit_population_ok:
  assumes "map_of (populations e) parent = Some pa"
    and "cp_index p \<noteq> [] \<longrightarrow> rows pdf \<noteq> [] \<and> rows (data e) \<noteq> []"
  shows "\<exists>pp pt. commit_population pdf ws parent e (name, p)
           = Inr (e\<lparr>heap := heap e @ [\<lparr>node_name = name, node_index = cp_index p,
                                         node_geom = cp_geom p, prop_of_parent = pp,
                                         prop_of_total = pt, node_warnings = ws,
                                         node_parent = Some pa\<rparr>],
                    populations := AList.update name (length (heap e)) (populations e)\<rparr>)"
proof (cases "cp_index p = []")
  case True
  with assms(1) show ?thesis
    by (intro exI [of _ 0]) (simp add: commit_population_def Let_def bind_err_def getitem_def)
next
  case False
  with assms show ?thesis
    by (intro exI [of _ "of_nat (length (cp_index p)) / of_nat (length (rows pdf))"]
          exI [of _ "of_nat (length (cp_index p)) / of_nat (length (rows (data e)))"])
       (simp add: commit_population_def Let_def bind_err_def getitem_def py_div_def)
qed

text \<open>
  Claim C6, amended. For a known parent whose geometry has the axes \<^verbatim>\<open>x\<close> and \<^verbatim>\<open>y\<close> and
  whose index lies in the data, a non-empty list of known targets and a new name that is
  not yet a population, \<^verbatim>\<open>subtraction\<close> succeeds and creates one node under the new name,
  below the parent: its index is the parent's index minus the union of the targets'
  indices, and its geometry is the shape marker \<^verbatim>\<open>sub\<close> with the parent's two axes and
  nothing else. The other populations keep their bindings.
\<close>

theorem subtraction_creates_difference:
  assumes par: "map_of (populations e) parent = Some pa" "pa < length (heap e)"
    and geom: "node_geom (heap e ! pa) = Some g" "map_of g ''x'' = Some xv"
      "map_of g ''y'' = Some yv"
    and tgt: "target \<noteq> []"
      "\<forall>t \<in> set target. \<exists>a. map_of (populations e) t = Some a \<and> a < length (heap e)"
    and fresh: "map_of (populations e) new_name = None"
    and indata: "set (node_index (heap e ! pa)) \<subseteq> set (df_index (data e))"
  shows "\<exists>e' n. subtraction e target parent new_name = Inr e'
      \<and> heap e' = heap e @ [n]
      \<and> map_of (populations e') new_name = Some (length (heap e))
      \<and> (\<forall>k. k \<noteq> new_name \<longrightarrow> map_of (populations e') k = map_of (populations e) k)
      \<and> node_name n = new_name \<and> node_parent n = Some pa
      \<and> set (node_index n)
           = set (node_index (heap e ! pa))
             - (\<Union>t \<in> set target. set (node_index (heap e ! the (map_of (populations e) t))))
      \<and> node_geom n = Some [(''shape'', PStr ''sub''), (''x'', xv), (''y'', yv)]"
proof -
  let ?pn = "heap e ! pa"
  let ?tix = "map (\<lambda>t. node_index (heap e ! the (map_of (populations e) t))) target"
  let ?index = "np_setdiff1d (node_index ?pn) (np_unique (concat ?tix))"
  have pn: "pop_node e parent = Inr ?pn"
    using par by (simp add: pop_node_def getitem_def deref_def bind_err_def)
  have keys: "has_key (populations e) parent" "\<forall>t \<in> set target. has_key (populations e) t"
    "\<not> has_key (populations e) new_name"
    using par tgt(2) fresh by (auto simp: has_key_def)
  have gx: "geom_item (node_geom ?pn) ''x'' = Inr xv" "geom_item (node_geom ?pn) ''y'' = Inr yv"
    using geom by (simp_all add: geom_item_def getitem_def)
  have cat: "bind_err (indices_of e target) np_concatenate = Inr (concat ?tix)"
    using tgt(1) by (simp add: indices_of_bound [OF tgt(2)] bind_err_def np_concatenate_def)
  from df_loc_ok [OF indata] obtain pdf where
    pdf: "df_loc (data e) (node_index ?pn) = Inr pdf"
      "node_index ?pn \<noteq> [] \<longrightarrow> rows pdf \<noteq> []" by blast
  have gp: "get_population_df e parent = Inr (Some pdf)"
    using keys(1) pn pdf(1) by (simp add: get_population_df_def bind_err_def)
  have ixsub: "set ?index \<subseteq> set (node_index ?pn)"
    by (simp add: np_setdiff1d_set)
  have nz: "rows pdf \<noteq> []" "rows (data e) \<noteq> []" if "?index \<noteq> []"
  proof -
    from that ixsub have ne: "node_index ?pn \<noteq> []" by auto
    with pdf(2) show "rows pdf \<noteq> []" by simp
    from ne indata show "rows (data e) \<noteq> []" by (auto simp: df_index_def)
  qed
  let ?g = "[(''shape'', PStr ''sub''), (''x'', xv), (''y'', yv)]"
  let ?cp = "\<lparr>cp_geom = Some ?g, cp_index = ?index\<rparr>"
  from commit_population_ok [of e parent pa ?cp pdf "[]" new_name] par(1) nz
  obtain pp pt where cm: "commit_population pdf [] parent e (new_name, ?cp)
      = Inr (e\<lparr>heap := heap e @ [\<lparr>node_name = new_name, node_index = ?index,
                                    node_geom = Some ?g, prop_of_parent = pp,
                                    prop_of_total = pt, node_warnings = [],
                                    node_parent = Some pa\<rparr>],
               populations := AList.update new_name (length (heap e)) (populations e)\<rparr>)"
    by auto
  let ?n = "\<lparr>node_name = new_name, node_index = ?index, node_geom = Some ?g,
             prop_of_parent = pp, prop_of_total = pt, node_warnings = [],
             node_parent = Some pa\<rparr>"
  let ?e1 = "e\<lparr>heap := heap e @ [?n],
               populations := AList.update new_name (length (heap e)) (populations e)\<rparr>"
  have up: "update_populations e [(new_name, ?cp)] pdf [] parent = Inr ?e1"
    by (simp add: cm bind_err_def)
  obtain gs where sub: "subtraction e target parent new_name = Inr (?e1\<lparr>gates := gs\<rparr>)"
    using keys pn gx cat gp up
    by (simp add: subtraction_def Let_def bind_err_def)
  have "set ?index = set (node_index ?pn)
      - (\<Union>t \<in> set target. set (node_index (heap e ! the (map_of (populations e) t))))"
    by (simp add: np_setdiff1d_set np_unique_def)
  then show ?thesis
    using sub by (intro exI [of _ "?e1\<lparr>gates := gs\<rparr>"] exI [of _ ?n]) (simp add: update_conv)
qed


theorem subtraction_creates_difference_witness:
  "\<exists>e' n. subtraction demo_engine [''act''] ''pos'' ''rest'' = Inr e'
      \<and> heap e' = heap demo_engine @ [n]
      \<and> map_of (populations e') ''rest'' = Some 4
      \<and> node_name n = ''rest'' \<and> node_parent n = Some 1
      \<and> set (node_index n) = {5, 6}
      \<and> node_geom n = Some [(''shape'', PStr ''sub''), (''x'', PStr ''CD4''), (''y'', PNone)]"
proof -
  have a: "map_of (populations demo_engine) ''pos'' = Some 1" "1 < length (heap demo_engine)"
    and g: "node_geom (heap demo_engine ! 1) = Some (demo_geom1d ''+'')"
      "map_of (demo_geom1d ''+'' :: pyfloat pydict) ''x'' = Some (PStr ''CD4'')"
      "map_of (demo_geom1d ''+'' :: pyfloat pydict) ''y'' = Some PNone"
    and t: "[''act''] \<noteq> []"
      "\<forall>t \<in> set [''act'']. \<exists>a. map_of (populations demo_engine) t = Some a
          \<and> a < length (heap demo_engine)"
    and f: "map_of (populations demo_engine) ''rest'' = None"
    and d: "set (node_index (heap demo_engine ! 1)) \<subseteq> set (df_index (data demo_engine))"
    by (simp_all add: demo_engine_def demo_node_def demo_geom1d_def demo_parent_def df_index_def)
  have ix: "set (node_index (heap demo_engine ! 1))
      - (\<Union>t \<in> set [''act'']. set (node_index (heap demo_engine ! the (map_of (populations demo_engine) t))))
      = {5, 6}"
    by (auto simp: demo_engine_def demo_node_def)
  have len: "length (heap demo_engine) = 4"
    by (simp add: demo_engine_def)
  from subtraction_creates_difference [OF a g t f d] show ?thesis
    unfolding ix len by blast
qed

text \<open>
  Claim C6 as stated fails for the empty list of targets, which is a list of known
  populations: \<^verbatim>\<open>np.concatenate\<close> of no arrays raises a \<^verbatim>\<open>ValueError\<close>.
\<close>

theorem subtraction_empty_target_counterexample:
  "has_key (populations demo_engine) ''pos''
   \<and> \<not> has_key (populations demo_engine) ''rest''
   \<and> subtraction demo_engine [] ''pos'' ''rest'' = Inl ValueError"
  by (simp add: subtraction_def has_key_def pop_node_def getitem_def deref_def bind_err_def
      geom_item_def np_concatenate_def demo_engine_def demo_node_def demo_geom1d_def)


section \<open>The invariant of the population tree is kept\<close>

lemma tree_ok_pending_iff:
  "tree_ok_pending e cs \<longleftrightarrow>
     (\<forall>name a. map_of (populations e) name = Some a \<longrightarrow> node_ok e cs name a)
     \<and> (\<forall>y. y < length (heap e) \<longrightarrow> below_root e y
            \<longrightarrow> map_of (populations e) (node_name (heap e ! y)) = Some y)"
proof -
  have "(\<forall>(name, a) \<in> set (populations e).
           map_of (populations e) name = Some a \<longrightarrow> node_ok e cs name a)
        \<longleftrightarrow> (\<forall>name a. map_of (populations e) name = Some a \<longrightarrow> node_ok e cs name a)"
    by (rule iffI; clarify) (blast dest: map_of_SomeD)+
  then show ?thesis
    unfolding tree_ok_pending_def by (simp add: Ball_def)
qed

lemma tree_ok_pendingD:
  assumes "tree_ok_pending e cs" and "map_of (populations e) name = Some a"
  shows "node_ok e cs name a"
  using assms by (simp add: tree_ok_pending_iff)

lemma tree_ok_closed:
  assumes "tree_ok_pending e cs" and "y < length (heap e)" and "below_root e y"
  shows "map_of (populations e) (node_name (heap e ! y)) = Some y"
  using assms by (simp add: tree_ok_pending_iff)

lemma node_ok_parent:
  assumes "node_ok e cs name a" and "node_parent (heap e ! a) = Some p"
  shows "p < a" and "map_of (populations e) (node_name (heap e ! p)) = Some p"
    and "set (node_index (heap e ! a)) \<subseteq> set (node_index (heap e ! p)) \<or> name \<in> set cs"
  using assms by (simp_all add: node_ok_def)

lemma index_within_parent_iff:
  "index_within_parent e \<longleftrightarrow>
     (\<forall>name a. map_of (populations e) name = Some a \<longrightarrow>
        a < length (heap e)
        \<and> (\<forall>p. node_parent (heap e ! a) = Some p \<longrightarrow>
              p < length (heap e)
              \<and> set (node_index (heap e ! a)) \<subseteq> set (node_index (heap e ! p))))"
proof -
  have *: "(case x of None \<Rightarrow> True | Some p \<Rightarrow> Q p) \<longleftrightarrow> (\<forall>p. x = Some p \<longrightarrow> Q p)"
    for x :: "addr option" and Q
    by (cases x) simp_all
  show ?thesis
    unfolding index_within_parent_def *
    by (rule iffI; clarify) (blast dest: map_of_SomeD)+
qed

lemma tree_ok_index_within_parent:
  assumes "tree_ok e"
  shows "index_within_parent e"
  unfolding index_within_parent_iff
proof (intro allI impI)
  fix name a
  assume "map_of (populations e) name = Some a"
  with assms have ok: "node_ok e [] name a"
    by (simp add: tree_ok_def tree_ok_pending_iff)
  then have a: "a < length (heap e)"
    by (simp add: node_ok_def)
  have "p < length (heap e) \<and> set (node_index (heap e ! a)) \<subseteq> set (node_index (heap e ! p))"
    if "node_parent (heap e ! a) = Some p" for p
    using node_ok_parent [OF ok that] a by simp
  with a show "a < length (heap e)
        \<and> (\<forall>p. node_parent (heap e ! a) = Some p \<longrightarrow>
              p < length (heap e)
              \<and> set (node_index (heap e ! a)) \<subseteq> set (node_index (heap e ! p)))"
    by blast
qed

lemma node_path_append:
  "a < length h \<Longrightarrow> node_path (h @ [n]) a = node_path h a"
proof (induction h a rule: node_path.induct)
  case (1 h a)
  show ?case
  proof (cases "node_parent (h ! a)")
    case None
    with 1 show ?thesis
      by (simp add: node_path.simps [of h a] node_path.simps [of "h @ [n]" a] nth_append)
  next
    case (Some p)
    show ?thesis
    proof (cases "p < a")
      case True
      with 1 Some have "node_path (h @ [n]) p = node_path h p" by simp
      with 1 Some True show ?thesis
        by (simp add: node_path.simps [of h a] node_path.simps [of "h @ [n]" a] nth_append)
    next
      case False
      with 1 Some show ?thesis
        by (simp add: node_path.simps [of h a] node_path.simps [of "h @ [n]" a] nth_append)
    qed
  qed
qed

lemma node_path_new:
  assumes "node_parent n = Some p" and "p < length h"
  shows "node_path (h @ [n]) (length h) = node_path h p @ [length h]"
  using assms by (simp add: node_path.simps [of "h @ [n]" "length h"] node_path_append)

lemma commit_population_result:
  assumes "commit_population pdf ws parent_name e (name, p) = Inr e1"
  shows "\<exists>pa pp pt. map_of (populations e) parent_name = Some pa
     \<and> e1 = e\<lparr>heap := heap e @ [\<lparr>node_name = name, node_index = cp_index p,
                                    node_geom = cp_geom p, prop_of_parent = pp,
                                    prop_of_total = pt, node_warnings = ws,
                                    node_parent = Some pa\<rparr>],
               populations := AList.update name (length (heap e)) (populations e)\<rparr>"
proof (cases "map_of (populations e) parent_name")
  case None
  with assms show ?thesis
    by (simp add: commit_population_def Let_def bind_err_def getitem_def py_div_def
        split: if_splits sum.splits prod.splits)
next
  case (Some pa)
  with assms show ?thesis
    by (simp add: commit_population_def Let_def bind_err_def getitem_def py_div_def
        split: if_splits sum.splits prod.splits) blast+
qed

lemma commit_preserves:
  assumes ok: "tree_ok e" and pa: "map_of (populations e) parent_name = Some pa"
    and fresh: "map_of (populations e) name = None"
    and sub: "set (cp_index p) \<subseteq> set (node_index (heap e ! pa))"
    and c: "commit_population pdf ws parent_name e (name, p) = Inr e1"
  shows "tree_ok e1 \<and> map_of (populations e1) parent_name = Some pa
         \<and> heap e1 ! pa = heap e ! pa
         \<and> (\<forall>k. k \<noteq> name \<longrightarrow> map_of (populations e1) k = map_of (populations e) k)"
proof -
  let ?h = "heap e"
  from commit_population_result [OF c] pa obtain pp pt where e1:
    "e1 = e\<lparr>heap := ?h @ [\<lparr>node_name = name, node_index = cp_index p,
                              node_geom = cp_geom p, prop_of_parent = pp,
                              prop_of_total = pt, node_warnings = ws,
                              node_parent = Some pa\<rparr>],
             populations := AList.update name (length ?h) (populations e)\<rparr>"
    by auto
  let ?N = "\<lparr>node_name = name, node_index = cp_index p, node_geom = cp_geom p,
             prop_of_parent = pp, prop_of_total = pt, node_warnings = ws,
             node_parent = Some pa\<rparr>"
  have h1: "heap e1 = ?h @ [?N]"
    and p1: "map_of (populations e1) = (map_of (populations e))(name \<mapsto> length ?h)"
    by (simp_all add: e1 fun_eq_iff update_conv)
  from ok have okp: "tree_ok_pending e []" by (simp add: tree_ok_def)
  from tree_ok_pendingD [OF okp pa] have paok: "node_ok e [] parent_name pa" .
  then have pa_lt: "pa < length ?h" and pa_name: "node_name (?h ! pa) = parent_name"
    and pa_root: "below_root e pa"
    by (simp_all add: node_ok_def)
  from pa_root obtain r where r: "map_of (populations e) ''root'' = Some r"
    "r \<in> set (node_path ?h pa)"
    by (auto simp: below_root_def split: option.splits)
  have ne: "name \<noteq> parent_name" "name \<noteq> ''root''"
    using fresh pa r(1) by auto
  have br_old: "below_root e1 a = below_root e a" if "a < length ?h" for a
    using that r(1) ne by (simp add: below_root_def h1 p1 node_path_append)
  have br_new: "below_root e1 (length ?h)"
    using r ne pa_lt by (simp add: below_root_def h1 p1 node_path_new)
  have new: "node_ok e1 [] name (length ?h)"
    using pa_lt pa_name ne pa sub br_new
    by (simp add: node_ok_def h1 p1 nth_append)
  have old: "node_ok e1 [] k a" if k: "k \<noteq> name" "map_of (populations e) k = Some a" for k a
  proof -
    from tree_ok_pendingD [OF okp k(2)] have oka: "node_ok e [] k a" .
    then have a_lt: "a < length ?h" by (simp add: node_ok_def)
    show ?thesis
    proof (cases "node_parent (?h ! a)")
      case None
      with oka a_lt show ?thesis
        by (simp add: node_ok_def h1 nth_append br_old)
    next
      case (Some q)
      note q = node_ok_parent [OF oka Some]
      from q(2) fresh have "node_name (?h ! q) \<noteq> name" by auto
      with oka a_lt Some q show ?thesis
        by (simp add: node_ok_def h1 p1 nth_append br_old)
    qed
  qed
  have closed: "map_of (populations e1) (node_name (heap e1 ! y)) = Some y"
    if y: "y < length (heap e1)" "below_root e1 y" for y
  proof (cases "y = length ?h")
    case True
    then show ?thesis by (simp add: h1 p1)
  next
    case False
    with y(1) have y_lt: "y < length ?h" by (simp add: h1)
    with y(2) have "below_root e y" by (simp add: br_old)
    from tree_ok_closed [OF okp y_lt this]
    have b: "map_of (populations e) (node_name (?h ! y)) = Some y" .
    with fresh have "node_name (?h ! y) \<noteq> name" by auto
    with b y_lt show ?thesis by (simp add: h1 p1 nth_append)
  qed
  have "tree_ok e1"
    unfolding tree_ok_def tree_ok_pending_iff
  proof (intro conjI allI impI)
    fix k a assume "map_of (populations e1) k = Some a"
    then show "node_ok e1 [] k a"
      using new old by (cases "k = name") (simp_all add: p1)
  next
    fix y assume "y < length (heap e1)" "below_root e1 y"
    then show "map_of (populations e1) (node_name (heap e1 ! y)) = Some y"
      by (rule closed)
  qed
  moreover have "map_of (populations e1) parent_name = Some pa"
    using pa ne by (simp add: p1)
  moreover have "heap e1 ! pa = ?h ! pa"
    using pa_lt by (simp add: h1 nth_append)
  ultimately show ?thesis
    by (simp add: p1)
qed

lemma update_populations_preserves:
  assumes "tree_ok e" and "map_of (populations e) parent_name = Some pa"
    and "distinct (map fst out)"
    and "\<forall>(name, p) \<in> set out. map_of (populations e) name = None
            \<and> set (cp_index p) \<subseteq> set (node_index (heap e ! pa))"
    and "update_populations e out pdf ws parent_name = Inr e'"
  shows "tree_ok e'"
  using assms
proof (induction out arbitrary: e)
  case Nil
  then show ?case by simp
next
  case (Cons item out)
  obtain name p where item: "item = (name, p)" by (cases item)
  from Cons.prems(5) obtain e1 where
    c: "commit_population pdf ws parent_name e (name, p) = Inr e1"
    and u: "update_populations e1 out pdf ws parent_name = Inr e'"
    by (auto simp: item bind_err_def split: sum.splits)
  from Cons.prems(4) have fresh: "map_of (populations e) name = None"
    and sub: "set (cp_index p) \<subseteq> set (node_index (heap e ! pa))"
    by (simp_all add: item)
  from commit_preserves [OF Cons.prems(1,2) fresh sub c]
  have ok1: "tree_ok e1" and pa1: "map_of (populations e1) parent_name = Some pa"
    and h1: "heap e1 ! pa = heap e ! pa"
    and m1: "\<forall>k. k \<noteq> name \<longrightarrow> map_of (populations e1) k = map_of (populations e) k"
    by simp_all
  have d: "distinct (map fst out)" and nin: "name \<notin> fst ` set out"
    using Cons.prems(3) by (simp_all add: item)
  have rest: "\<forall>(n, q) \<in> set out. map_of (populations e1) n = None
            \<and> set (cp_index q) \<subseteq> set (node_index (heap e1 ! pa))"
  proof (clarify)
    fix n q assume nq: "(n, q) \<in> set out"
    with nin have "n \<noteq> name" by force
    with m1 have "map_of (populations e1) n = map_of (populations e) n" by simp
    with Cons.prems(4) nq h1
    show "map_of (populations e1) n = None
            \<and> set (cp_index q) \<subseteq> set (node_index (heap e1 ! pa))"
      by auto
  qed
  from Cons.IH [OF ok1 pa1 d rest u] show ?case .
qed

lemma below_root_gates: "below_root (e\<lparr>gates := g\<rparr>) a = below_root e a"
  by (simp add: below_root_def cong: option.case_cong)

lemma node_ok_gates: "node_ok (e\<lparr>gates := g\<rparr>) cs name a = node_ok e cs name a"
  by (simp add: node_ok_def below_root_gates cong: option.case_cong)

lemma tree_ok_gates: "tree_ok (e\<lparr>gates := g\<rparr>) = tree_ok e"
  by (simp add: tree_ok_def tree_ok_pending_def node_ok_gates below_root_gates)

lemma pop_node_ok:
  assumes "tree_ok_pending e cs" and "pop_node e name = Inr n"
  shows "\<exists>a. map_of (populations e) name = Some a \<and> a < length (heap e) \<and> n = heap e ! a
           \<and> node_ok e cs name a"
proof -
  from assms(2) obtain a where a: "map_of (populations e) name = Some a"
    "a < length (heap e)" "n = heap e ! a"
    by (auto simp: pop_node_def getitem_def deref_def bind_err_def
        split: option.splits if_splits)
  with tree_ok_pendingD [OF assms(1) a(1)] show ?thesis by auto
qed

lemma subtraction_preserves:
  assumes ok: "tree_ok e" and s: "subtraction e target parent new_name = Inr e'"
  shows "tree_ok e'"
proof -
  from s have fresh: "map_of (populations e) new_name = None"
    by (auto simp: subtraction_def has_key_def split: if_splits)
  from s obtain pn xv yv tcat pdf e1 where
    pn: "pop_node e parent = Inr pn"
    and up: "update_populations e
        [(new_name, \<lparr>cp_geom = Some [(''shape'', PStr ''sub''), (''x'', xv), (''y'', yv)],
                     cp_index = np_setdiff1d (node_index pn) (np_unique tcat)\<rparr>)]
        pdf [] parent = Inr e1"
    and e': "tree_ok e' = tree_ok e1"
    by (auto simp: subtraction_def Let_def bind_err_def tree_ok_gates
        simp del: update_populations.simps
        split: if_splits sum.splits option.splits)
  from pop_node_ok [OF ok [unfolded tree_ok_def] pn] obtain pa where
    pa: "map_of (populations e) parent = Some pa" "pn = heap e ! pa" by blast
  have "tree_ok e1"
    by (rule update_populations_preserves [OF ok pa(1) _ _ up])
       (simp_all add: fresh pa(2) np_setdiff1d_set)
  with e' show ?thesis by simp
qed

lemma parent_name_of_ok:
  assumes "node_ok e cs name a" and "parent_name_of e (heap e ! a) = Inr pname"
  shows "\<exists>p. node_parent (heap e ! a) = Some p \<and> pname = node_name (heap e ! p)
           \<and> map_of (populations e) pname = Some p \<and> p < a"
proof (cases "node_parent (heap e ! a)")
  case None
  with assms(2) show ?thesis by (simp add: parent_name_of_def)
next
  case (Some p)
  note p = node_ok_parent [OF assms(1) Some]
  from assms(1) have "a < length (heap e)" by (simp add: node_ok_def)
  with assms(2) Some p(1) have "pname = node_name (heap e ! p)"
    by (simp add: parent_name_of_def deref_def bind_err_def)
  with Some p show ?thesis by simp
qed

lemma merge_preserves:
  assumes ok: "tree_ok e" and m: "merge ext e left right new_name = Inr e'"
  shows "tree_ok e'"
proof -
  note okp = ok [unfolded tree_ok_def]
  from m have fresh: "map_of (populations e) new_name = None"
    by (auto simp: merge_def has_key_def split: if_splits)
  from m obtain ln rn plp parent xv yv cords pdf e1 where
    ln: "pop_node e left = Inr ln" and rn: "pop_node e right = Inr rn"
    and pl: "parent_name_of e ln = Inr plp" and pr: "parent_name_of e rn = Inr plp"
    and par: "pop_node e plp = Inr parent"
    and up: "update_populations e
        [(new_name, \<lparr>cp_geom = Some [(''shape'', PStr ''poly''), (''x'', xv), (''y'', yv),
                                      (''cords'', cords)],
                     cp_index = np_unique (node_index ln @ node_index rn)\<rparr>)]
        pdf [] (node_name parent) = Inr e1"
    and e': "tree_ok e' = tree_ok e1"
    by (auto simp: merge_def Let_def bind_err_def tree_ok_gates
        simp del: update_populations.simps
        split: if_splits sum.splits option.splits)
  from pop_node_ok [OF okp ln] obtain la where la: "ln = heap e ! la" "node_ok e [] left la"
    by blast
  from pop_node_ok [OF okp rn] obtain ra where ra: "rn = heap e ! ra" "node_ok e [] right ra"
    by blast
  from parent_name_of_ok [OF la(2)] pl la(1) obtain p where p:
    "node_parent (heap e ! la) = Some p"
    "plp = node_name (heap e ! p)" "map_of (populations e) plp = Some p"
    by auto
  from parent_name_of_ok [OF ra(2)] pr ra(1) obtain q where q:
    "node_parent (heap e ! ra) = Some q" "map_of (populations e) plp = Some q"
    by auto
  from p(3) q(2) have qp: "q = p" by simp
  from node_ok_parent(3) [OF la(2) p(1)] la(1)
  have lsub: "set (node_index ln) \<subseteq> set (node_index (heap e ! p))" by simp
  from node_ok_parent(3) [OF ra(2) q(1)] ra(1) qp
  have rsub: "set (node_index rn) \<subseteq> set (node_index (heap e ! p))" by simp
  from pop_node_ok [OF okp par] p(3) have parent: "parent = heap e ! p" by auto
  with p(2) have nm: "node_name parent = plp" by simp
  have "tree_ok e1"
    by (rule update_populations_preserves [OF ok p(3) _ _ up [unfolded nm]])
       (use fresh lsub rsub in \<open>simp_all add: np_unique_def\<close>)
  with e' show ?thesis by simp
qed

lemma node_path_le: "x \<in> set (node_path h a) \<Longrightarrow> x \<le> a"
proof (induction h a rule: node_path.induct)
  case (1 h a)
  show ?case
  proof (cases "a < length h \<and> (\<exists>p. node_parent (h ! a) = Some p \<and> p < a)")
    case True
    then obtain p where p: "a < length h" "node_parent (h ! a) = Some p" "p < a" by blast
    then have "node_path h a = node_path h p @ [a]"
      by (simp add: node_path.simps [of h a])
    with "1.prems" have "x \<in> set (node_path h p) \<or> x = a" by auto
    with "1.IH" [OF p(1,2,3)] p(3) show ?thesis by auto
  next
    case False
    then have "node_path h a = [a]"
      by (auto simp: node_path.simps [of h a] split: option.splits)
    with "1.prems" show ?thesis by simp
  qed
qed

lemma node_path_step:
  assumes "a < length h" and "node_parent (h ! a) = Some p" and "p < a"
  shows "node_path h a = node_path h p @ [a]"
  using assms by (simp add: node_path.simps [of h a])

lemma node_path_cong:
  "length h' = length h \<Longrightarrow> \<forall>i < length h. node_parent (h' ! i) = node_parent (h ! i)
     \<Longrightarrow> node_path h' a = node_path h a"
proof (induction h a rule: node_path.induct)
  case (1 h a)
  show ?case
  proof (cases "a < length h \<and> (\<exists>p. node_parent (h ! a) = Some p \<and> p < a)")
    case True
    then obtain p where p: "a < length h" "node_parent (h ! a) = Some p" "p < a" by blast
    from "1.IH" [OF p "1.prems"] have "node_path h' p = node_path h p" .
    moreover from p "1.prems" have "a < length h'" "node_parent (h' ! a) = Some p" by simp_all
    ultimately show ?thesis
      using p by (simp add: node_path_step)
  next
    case False
    with "1.prems" have "node_path h a = [a]" "node_path h' a = [a]"
      by (auto simp: node_path.simps [of h a] node_path.simps [of h' a] split: option.splits)
    then show ?thesis by simp
  qed
qed

lemma node_path_self: "a \<in> set (node_path h a)"
  by (subst node_path.simps) (simp split: option.splits)

lemma node_path_detach:
  "x \<notin> set (node_path h a)
     \<Longrightarrow> node_path (h[x := (h ! x)\<lparr>node_parent := None\<rparr>]) a = node_path h a"
proof (induction h a rule: node_path.induct)
  case (1 h a)
  let ?h' = "h[x := (h ! x)\<lparr>node_parent := None\<rparr>]"
  from "1.prems" node_path_self [of a h] have ax: "a \<noteq> x" by auto
  show ?case
  proof (cases "a < length h \<and> (\<exists>p. node_parent (h ! a) = Some p \<and> p < a)")
    case True
    then obtain p where p: "a < length h" "node_parent (h ! a) = Some p" "p < a" by blast
    with "1.prems" have "x \<notin> set (node_path h p)" by (simp add: node_path_step)
    from "1.IH" [OF p this] have "node_path ?h' p = node_path h p" .
    moreover from p ax have "a < length ?h'" "node_parent (?h' ! a) = Some p" by simp_all
    ultimately show ?thesis
      using p by (simp add: node_path_step)
  next
    case False
    with ax have "node_path h a = [a]" "node_path ?h' a = [a]"
      by (auto simp: node_path.simps [of h a] node_path.simps [of ?h' a] split: option.splits)
    then show ?thesis by simp
  qed
qed

lemma preorder_self: "a \<in> set (preorder h a)"
  by (subst preorder.simps) simp

lemma preorder_children:
  "p \<in> set (preorder h r) \<Longrightarrow> x \<in> set (node_children h p) \<Longrightarrow> x \<in> set (preorder h r)"
proof (induction h r rule: preorder.induct)
  case (1 h r)
  from "1.prems"(1) have "p = r \<or> (\<exists>c \<in> set (node_children h r). p \<in> set (preorder h c))"
    by (subst (asm) preorder.simps) auto
  then show ?case
  proof
    assume "p = r"
    with "1.prems"(2) preorder_self [of x h] show ?thesis
      by (subst preorder.simps) auto
  next
    assume "\<exists>c \<in> set (node_children h r). p \<in> set (preorder h c)"
    then obtain c where c: "c \<in> set (node_children h r)" "p \<in> set (preorder h c)" by blast
    from "1.IH" [OF c "1.prems"(2)] c(1) show ?thesis
      by (subst preorder.simps) auto
  qed
qed

lemma path_preorder:
  "r \<in> set (node_path h x) \<Longrightarrow> x < length h \<Longrightarrow> x \<in> set (preorder h r)"
proof (induction h x rule: node_path.induct)
  case (1 h x)
  show ?case
  proof (cases "\<exists>p. node_parent (h ! x) = Some p \<and> p < x")
    case True
    then obtain p where p: "node_parent (h ! x) = Some p" "p < x" by blast
    with "1.prems" have "r = x \<or> r \<in> set (node_path h p)"
      by (auto simp: node_path_step)
    then show ?thesis
    proof
      assume "r = x"
      then show ?thesis by (simp add: preorder_self)
    next
      assume "r \<in> set (node_path h p)"
      with "1.IH" [OF "1.prems"(2) p] p(2) "1.prems"(2) have "p \<in> set (preorder h r)"
        by simp
      moreover from p "1.prems"(2) have "x \<in> set (node_children h p)"
        by (simp add: node_children_def)
      ultimately show ?thesis by (rule preorder_children)
    qed
  next
    case False
    with "1.prems" have "node_path h x = [x]"
      by (auto simp: node_path.simps [of h x] split: option.splits)
    with "1.prems" show ?thesis by (simp add: preorder_self)
  qed
qed

lemma pop_all_result:
  "pop_all d names = Inr d' \<Longrightarrow> map_of d' k = (if k \<in> set names then None else map_of d k)"
proof (induction names arbitrary: d)
  case Nil
  then show ?case by simp
next
  case (Cons x xs)
  then have "pop_all (AList.delete x d) xs = Inr d'"
    by (simp split: if_splits)
  from Cons.IH [OF this] show ?case
    by (simp add: AList.delete_conv)
qed

lemma node_path_prefix:
  "c \<in> set (node_path h y) \<Longrightarrow> set (node_path h c) \<subseteq> set (node_path h y)"
proof (induction h y rule: node_path.induct)
  case (1 h y)
  show ?case
  proof (cases "y < length h \<and> (\<exists>p. node_parent (h ! y) = Some p \<and> p < y)")
    case True
    then obtain p where p: "y < length h" "node_parent (h ! y) = Some p" "p < y" by blast
    then have st: "node_path h y = node_path h p @ [y]" by (rule node_path_step)
    with "1.prems" have "c = y \<or> c \<in> set (node_path h p)" by auto
    then show ?thesis
    proof
      assume "c = y" then show ?thesis by simp
    next
      assume "c \<in> set (node_path h p)"
      from "1.IH" [OF p this] st show ?thesis by auto
    qed
  next
    case False
    then have "node_path h y = [y]"
      by (auto simp: node_path.simps [of h y] split: option.splits)
    with "1.prems" show ?thesis by simp
  qed
qed

lemma preorder_path:
  "y \<in> set (preorder h r) \<Longrightarrow> r < length h \<Longrightarrow> r \<in> set (node_path h y) \<and> y < length h"
proof (induction h r rule: preorder.induct)
  case (1 h r)
  from "1.prems"(1) have "y = r \<or> (\<exists>c \<in> set (node_children h r). y \<in> set (preorder h c))"
    by (subst (asm) preorder.simps) auto
  then show ?case
  proof
    assume "y = r"
    with "1.prems"(2) show ?thesis by (simp add: node_path_self)
  next
    assume "\<exists>c \<in> set (node_children h r). y \<in> set (preorder h c)"
    then obtain c where c: "c \<in> set (node_children h r)" "y \<in> set (preorder h c)" by blast
    then have c': "c < length h" "node_parent (h ! c) = Some r" "r < c"
      by (auto simp: node_children_def)
    from "1.IH" [OF c c'(1)] have y: "c \<in> set (node_path h y)" "y < length h" by simp_all
    from c' have "r \<in> set (node_path h c)"
      by (simp add: node_path_step node_path_self)
    with node_path_prefix [OF y(1)] y(2) show ?thesis by auto
  qed
qed

lemma node_path_detach_ge:
  "x \<in> set (node_path h y) \<Longrightarrow> z \<in> set (node_path (h[x := (h ! x)\<lparr>node_parent := None\<rparr>]) y)
     \<Longrightarrow> x \<le> z"
proof (induction h y rule: node_path.induct)
  case (1 h y)
  let ?h' = "h[x := (h ! x)\<lparr>node_parent := None\<rparr>]"
  show ?case
  proof (cases "y = x")
    case True
    then have "node_path ?h' y = [y]"
      by (cases "x < length h") (simp_all add: node_path.simps [of ?h' x])
    with "1.prems"(2) True show ?thesis by simp
  next
    case False
    show ?thesis
    proof (cases "y < length h \<and> (\<exists>p. node_parent (h ! y) = Some p \<and> p < y)")
      case True
      then obtain p where p: "y < length h" "node_parent (h ! y) = Some p" "p < y" by blast
      then have st: "node_path h y = node_path h p @ [y]" by (rule node_path_step)
      with "1.prems"(1) False have xp: "x \<in> set (node_path h p)" by auto
      from p False have "y < length ?h'" "node_parent (?h' ! y) = Some p" by simp_all
      with p(3) have "node_path ?h' y = node_path ?h' p @ [y]" by (simp add: node_path_step)
      with "1.prems"(2) have "z = y \<or> z \<in> set (node_path ?h' p)" by auto
      then show ?thesis
      proof
        assume "z = y"
        with node_path_le [OF "1.prems"(1)] show ?thesis by simp
      next
        assume "z \<in> set (node_path ?h' p)"
        from "1.IH" [OF p xp this] show ?thesis .
      qed
    next
      case False
      then have "node_path h y = [y]"
        by (auto simp: node_path.simps [of h y] split: option.splits)
      with "1.prems"(1) \<open>y \<noteq> x\<close> show ?thesis by simp
    qed
  qed
qed

lemma remove_population_unfold:
  assumes "map_of (populations e) m = Some x" and "x < length (heap e)"
    and "map_of (populations e) ''root'' = Some r0"
    and "remove_population e m = Inr e1"
  shows "\<exists>d'. pop_all (populations e)
              (map (\<lambda>y. node_name (heap e ! y))
                 (filter (\<lambda>y. x \<in> set (node_path (heap e) y)) (preorder (heap e) r0))) = Inr d'
           \<and> e1 = e\<lparr>heap := (heap e)[x := (heap e ! x)\<lparr>node_parent := None\<rparr>],
                    populations := d'\<rparr>"
  using assms
  by (auto simp: remove_population_def find_dependencies_def has_key_def getitem_def
      deref_def bind_err_def Let_def split: sum.splits)

lemma tree_ok_pending_weaken:
  assumes "tree_ok_pending e (m # cs)" and "map_of (populations e) m = None"
  shows "tree_ok_pending e cs"
  unfolding tree_ok_pending_iff
proof (intro conjI allI impI)
  fix name a assume b: "map_of (populations e) name = Some a"
  with assms(2) have ne: "name \<noteq> m" by auto
  from tree_ok_pendingD [OF assms(1) b] have "node_ok e (m # cs) name a" .
  with ne show "node_ok e cs name a"
    by (simp add: node_ok_def split: option.splits)
next
  fix y assume "y < length (heap e)" "below_root e y"
  with assms(1) show "map_of (populations e) (node_name (heap e ! y)) = Some y"
    by (rule tree_ok_closed)
qed

lemma remove_population_step:
  assumes ok: "tree_ok_pending e (m # cs)" and rm: "remove_population e m = Inr e1"
  shows "tree_ok_pending e1 cs"
proof (cases "map_of (populations e) m")
  case None
  with rm have "e1 = e" by (simp add: remove_population_def has_key_def)
  with tree_ok_pending_weaken [OF ok None] show ?thesis by simp
next
  case (Some x)
  let ?h = "heap e"
  let ?h' = "?h[x := (?h ! x)\<lparr>node_parent := None\<rparr>]"
  from tree_ok_pendingD [OF ok Some] have okx: "node_ok e (m # cs) m x" .
  then have x_lt: "x < length ?h" and x_name: "node_name (?h ! x) = m"
    and x_root: "below_root e x"
    by (simp_all add: node_ok_def)
  from x_root obtain r0 where r0: "map_of (populations e) ''root'' = Some r0"
    "r0 \<in> set (node_path ?h x)"
    by (auto simp: below_root_def split: option.splits)
  from tree_ok_pendingD [OF ok r0(1)] have r0_lt: "r0 < length ?h"
    by (simp add: node_ok_def)
  let ?names = "map (\<lambda>y. node_name (?h ! y))
                 (filter (\<lambda>y. x \<in> set (node_path ?h y)) (preorder ?h r0))"
  from remove_population_unfold [OF Some x_lt r0(1) rm] obtain d' where
    d': "pop_all (populations e) ?names = Inr d'"
    and e1: "e1 = e\<lparr>heap := ?h', populations := d'\<rparr>"
    by blast
  have md': "map_of d' k = (if k \<in> set ?names then None else map_of (populations e) k)" for k
    by (rule pop_all_result [OF d'])
  have h1: "heap e1 = ?h'" and p1: "populations e1 = d'"
    by (simp_all add: e1)
  have named: "node_name (?h' ! y) = node_name (?h ! y)"
    and indexed: "node_index (?h' ! y) = node_index (?h ! y)" for y
    using x_lt by (simp_all add: nth_list_update)
  have below: "below_root e y \<longleftrightarrow> r0 \<in> set (node_path ?h y)" for y
    by (simp add: below_root_def r0(1))
  \<comment> \<open>the names popped are those of the populations whose path holds the removed node\<close>
  have K: "k \<in> set ?names \<longleftrightarrow> x \<in> set (node_path ?h a)"
    if b: "map_of (populations e) k = Some a" for k a
  proof
    from tree_ok_pendingD [OF ok b] have oka: "node_ok e (m # cs) k a" .
    then have a: "a < length ?h" "node_name (?h ! a) = k" "r0 \<in> set (node_path ?h a)"
      by (simp_all add: node_ok_def below)
    {
      assume "x \<in> set (node_path ?h a)"
      moreover from path_preorder [OF a(3) a(1)] have "a \<in> set (preorder ?h r0)" .
      ultimately have "a \<in> set (filter (\<lambda>y. x \<in> set (node_path ?h y)) (preorder ?h r0))"
        by simp
      then have "node_name (?h ! a) \<in> set ?names"
        unfolding set_map by (rule imageI)
      with a(2) show "k \<in> set ?names" by simp
    }
    {
      assume "k \<in> set ?names"
      then obtain y where y: "y \<in> set (preorder ?h r0)" "x \<in> set (node_path ?h y)"
        "node_name (?h ! y) = k" unfolding set_map set_filter by blast
      from preorder_path [OF y(1) r0_lt] have "r0 \<in> set (node_path ?h y)" "y < length ?h"
        by simp_all
      with tree_ok_closed [OF ok, of y] y(3) have "map_of (populations e) k = Some y"
        by (simp add: below)
      with b have "y = a" by simp
      with y(2) show "x \<in> set (node_path ?h a)" by simp
    }
  qed
  have x_pre: "m \<in> set ?names"
    using K [OF Some] by (simp add: node_path_self)
  \<comment> \<open>if the root is still bound, the removed node is not the root\<close>
  have root1: "x \<noteq> r0 \<and> x \<notin> set (node_path ?h r0)" if "map_of d' ''root'' \<noteq> None"
  proof -
    from that md' [of "''root''"] have "''root'' \<notin> set ?names" by (auto split: if_splits)
    with K [OF r0(1)] have "x \<notin> set (node_path ?h r0)" by simp
    then show ?thesis using node_path_self [of r0 ?h] by auto
  qed
  have below1: "below_root e y \<and> x \<notin> set (node_path ?h y)" if "below_root e1 y" for y
  proof -
    from that have rb: "map_of d' ''root'' \<noteq> None"
      by (auto simp: below_root_def p1 split: option.splits)
    with md' [of "''root''"] r0(1) have rd: "map_of d' ''root'' = Some r0"
      by (auto split: if_splits)
    with that have ry: "r0 \<in> set (node_path ?h' y)"
      by (simp add: below_root_def p1 h1)
    have "x \<notin> set (node_path ?h y)"
    proof
      assume "x \<in> set (node_path ?h y)"
      from node_path_detach_ge [OF this ry] have "x \<le> r0" .
      moreover from node_path_le [OF r0(2)] have "r0 \<le> x" .
      ultimately show False using root1 [OF rb] by simp
    qed
    moreover from this ry have "r0 \<in> set (node_path ?h y)" by (simp add: node_path_detach)
    ultimately show ?thesis by (simp add: below)
  qed
  show ?thesis
    unfolding tree_ok_pending_iff
  proof (intro conjI allI impI)
    fix k a assume b1: "map_of (populations e1) k = Some a"
    with md' [of k] have kn: "k \<notin> set ?names" and b: "map_of (populations e) k = Some a"
      by (auto simp: p1 split: if_splits)
    from tree_ok_pendingD [OF ok b] have oka: "node_ok e (m # cs) k a" .
    then have a: "a < length ?h" "node_name (?h ! a) = k" "r0 \<in> set (node_path ?h a)"
      by (simp_all add: node_ok_def below)
    from kn K [OF b] have xa: "x \<notin> set (node_path ?h a)" by simp
    with node_path_self [of a ?h] have ax: "a \<noteq> x" by auto
    from kn x_pre have km: "k \<noteq> m" by auto
    have "''root'' \<notin> set ?names"
    proof
      assume "''root'' \<in> set ?names"
      with K [OF r0(1)] have "x \<in> set (node_path ?h r0)" by simp
      with node_path_prefix [OF a(3)] xa show False by auto
    qed
    with md' [of "''root''"] r0(1) have rd: "map_of d' ''root'' = Some r0" by simp
    have br: "below_root e1 a"
      using rd a(3) xa by (simp add: below_root_def p1 h1 node_path_detach)
    have par: "node_parent (?h' ! a) = node_parent (?h ! a)"
      using ax by simp
    show "node_ok e1 cs k a"
    proof (cases "node_parent (?h ! a)")
      case None
      with a br par show ?thesis
        by (simp add: node_ok_def h1 named)
    next
      case (Some p)
      note p = node_ok_parent [OF oka Some]
      from a(1) Some p(1) have "node_path ?h a = node_path ?h p @ [a]"
        by (rule node_path_step)
      with xa have "x \<notin> set (node_path ?h p)" by simp
      with K [OF p(2)] have "node_name (?h ! p) \<notin> set ?names" by simp
      with md' [of "node_name (?h ! p)"] p(2)
      have "map_of d' (node_name (?h ! p)) = Some p" by simp
      with a br par Some p km show ?thesis
        by (simp add: node_ok_def h1 p1 named indexed)
    qed
  next
    fix y assume y: "y < length (heap e1)" "below_root e1 y"
    from below1 [OF y(2)] have bry: "below_root e y" and xy: "x \<notin> set (node_path ?h y)"
      by simp_all
    from y(1) have y_lt: "y < length ?h" by (simp add: h1)
    from tree_ok_closed [OF ok y_lt bry]
    have b: "map_of (populations e) (node_name (?h ! y)) = Some y" .
    with K [OF b] xy md' [of "node_name (?h ! y)"]
    show "map_of (populations e1) (node_name (heap e1 ! y)) = Some y"
      by (simp add: p1 h1 named)
  qed
qed

lemma remove_populations_loop:
  "tree_ok_pending e cs \<Longrightarrow> remove_populations e cs = Inr e' \<Longrightarrow> tree_ok_pending e' []"
proof (induction cs arbitrary: e)
  case Nil
  then show ?case by simp
next
  case (Cons c cs)
  from Cons.prems(2) obtain e1 where r: "remove_population e c = Inr e1"
    and rest: "remove_populations e1 cs = Inr e'"
    by (auto simp: bind_err_def split: sum.splits)
  from remove_population_step [OF Cons.prems(1) r] have "tree_ok_pending e1 cs" .
  from Cons.IH [OF this rest] show ?case .
qed

lemma index_where_sub: "set (index_where p f) \<subseteq> set (df_index p)"
  by (auto simp: index_where_def df_index_def)

lemma df_index_round: "df_index (df_round f p) = df_index p"
  by (simp add: df_index_def df_round_def comp_def split_def)

lemma quadrant_sub:
  "quadrant p xc yc fx fy = Inr ix \<Longrightarrow> set ix \<subseteq> set (df_index p)"
  using index_where_sub [of p]
  by (auto simp: quadrant_def bind_err_def split: sum.splits)

lemma geom_bool_sub:
  assumes "geom_bool f g geom d p = Inr ix"
  shows "set ix \<subseteq> set (df_index p)"
proof -
  from assms obtain xc yc fx fy where "quadrant (df_round f p) xc yc fx fy = Inr ix"
    by (auto simp: geom_bool_def Let_def bind_err_def split: sum.splits if_splits)
  from quadrant_sub [OF this] show ?thesis by (simp add: df_index_round)
qed

lemma geom_bool_list_sub:
  "geom_bool_list f g geom ds p = Inr ix \<Longrightarrow> set ix \<subseteq> set (df_index p)"
proof (induction ds arbitrary: ix)
  case Nil
  then show ?case by simp
next
  case (Cons d ds)
  from Cons.prems obtain i1 i2 where i: "geom_bool f g geom d p = Inr i1"
    "geom_bool_list f g geom ds p = Inr i2" "ix = i1 @ i2"
    by (auto simp: bind_err_def split: sum.splits)
  from geom_bool_sub [OF i(1)] Cons.IH [OF i(2)] i(3) show ?case by simp
qed

lemma by_sign_sub:
  assumes "by_sign parent pos d = Inr ix" and "set pos \<subseteq> set (df_index parent)"
  shows "set ix \<subseteq> set (df_index parent)"
  using assms
  by (auto simp: by_sign_def index_not_in_def df_index_def split: if_splits)

lemma threshold_1d_sub:
  assumes "threshold_1d geom parent = Inr ix"
  shows "set ix \<subseteq> set (df_index parent)"
proof -
  from assms obtain f where "ix = index_where parent f"
    by (auto simp: threshold_1d_def compare_column_def bind_err_def
        split: if_splits sum.splits pyval.splits)
  then show ?thesis by (simp add: index_where_sub)
qed

lemma threshold_2d_sub:
  assumes "threshold_2d geom parent = Inr ix"
  shows "set ix \<subseteq> set (df_index parent)"
proof -
  from assms have
    "(\<exists>ds. geom_bool_list (round_decimals 2) (round_decimals 2) geom ds parent = Inr ix)
     \<or> (\<exists>d. geom_bool (round_decimals 2) (round_decimals 2) geom d parent = Inr ix)"
    by (auto simp: threshold_2d_def split: if_splits pyval.splits)
  then show ?thesis
    using geom_bool_sub geom_bool_list_sub by blast
qed

lemma rect_sub:
  assumes "rect geom parent = Inr ix"
  shows "set ix \<subseteq> set (df_index parent)"
proof -
  from assms obtain f d where "by_sign parent (index_where parent f) d = Inr ix"
    by (auto simp: rect_def bind_err_def split: if_splits sum.splits)
  from by_sign_sub [OF this index_where_sub] show ?thesis .
qed

lemma ellipse_sub:
  assumes "ellipse ext geom parent = Inr ix"
  shows "set ix \<subseteq> set (df_index parent)"
proof -
  from assms obtain mask d where
    b: "by_sign parent (map fst (map fst (filter snd (zip (rows parent) mask)))) d = Inr ix"
    by (auto simp: ellipse_def bind_err_def split: if_splits sum.splits)
  have "set (map fst (map fst (filter snd (zip (rows parent) mask)))) \<subseteq> set (df_index parent)"
  proof
    fix x assume "x \<in> set (map fst (map fst (filter snd (zip (rows parent) mask))))"
    then obtain r m where "((x, r), m) \<in> set (zip (rows parent) mask)" by auto
    then have "(x, r) \<in> set (rows parent)" by (rule set_zip_leftD)
    then have "fst (x, r) \<in> fst ` set (rows parent)" by (rule imageI)
    then show "x \<in> set (df_index parent)" by (simp add: df_index_def)
  qed
  from by_sign_sub [OF b this] show ?thesis .
qed

lemma poly_sub:
  assumes "ext_ok ext" and "poly ext geom parent = Inr ix"
  shows "set ix \<subseteq> set (df_index parent)"
proof -
  from assms(2) obtain xc yc cords pos where
    "ext_inside_polygon ext parent xc yc cords = Inr pos" "ix = df_index pos"
    by (auto simp: poly_def bind_err_def split: if_splits sum.splits pyval.splits)
  with assms(1) show ?thesis unfolding ext_ok_def by blast
qed

lemma df_loc_sub:
  assumes "df_loc df idx = Inr r"
  shows "set (df_index r) \<subseteq> set idx"
  using assms by (auto simp: df_loc_def df_index_def split: if_splits)

lemma bind_err_Inr: "bind_err m f = Inr y \<longleftrightarrow> (\<exists>x. m = Inr x \<and> f x = Inr y)"
  by (cases m) (simp_all add: bind_err_def)

lemma bind_err_InrE:
  assumes "bind_err m f = Inr y"
  obtains x where "m = Inr x" and "f x = Inr y"
  using assms by (auto simp: bind_err_Inr)

lemma update_index_unfold:
  assumes u: "update_index ext e c g = Inr ix"
  shows "\<exists>n pname parent0 parent1 parent.
    pop_node e c = Inr n \<and> parent_name_of e n = Inr pname
    \<and> bind_err (get_population_df e pname) the_frame = Inr parent0
    \<and> (parent1 = parent0 \<or> (\<exists>m f. ext_apply_transform ext parent0 m f = Inr parent1))
    \<and> (parent = parent1 \<or> (\<exists>m f. ext_apply_transform ext parent1 m f = Inr parent))
    \<and> (threshold_1d g parent = Inr ix \<or> threshold_2d g parent = Inr ix
       \<or> rect g parent = Inr ix \<or> ellipse ext g parent = Inr ix \<or> poly ext g parent = Inr ix)"
proof -
  from u obtain pname where pname: "bind_err (pop_node e c) (parent_name_of e) = Inr pname"
    and r1: "bind_err (bind_err (get_population_df e pname) the_frame) (\<lambda>parent0.
          let transform_x = dict_get g ''transform_x'';
              transform_y = dict_get g ''transform_y'';
              xcol = dict_get g ''x'';
              ycol = dict_get g ''y''
          in
          if \<not> truthy xcol then Inl AssertionError
          else
            bind_err (if transform_x \<noteq> PNone \<and> xcol \<noteq> PNone
                      then ext_apply_transform ext parent0 transform_x xcol else Inr parent0)
              (\<lambda>parent1.
            bind_err (if transform_y \<noteq> PNone \<and> ycol \<noteq> PNone
                      then ext_apply_transform ext parent1 transform_y ycol else Inr parent1)
              (\<lambda>parent.
            bind_err (getitem g ''shape'') (\<lambda>shape.
              if shape = PStr ''threshold'' then threshold_1d g parent
              else if shape = PStr ''2d_threshold'' then threshold_2d g parent
              else if shape = PStr ''rect'' then rect g parent
              else if shape = PStr ''ellipse'' then ellipse ext g parent
              else if shape = PStr ''poly'' then poly ext g parent
              else Inl ValueError)))) = Inr ix"
    unfolding update_index_def
    by (cases "has_key (populations e) c") (auto simp: bind_err_Inr)
  from pname obtain n where n: "pop_node e c = Inr n" "parent_name_of e n = Inr pname"
    by (auto simp: bind_err_Inr)
  from r1 obtain parent0 where p0: "bind_err (get_population_df e pname) the_frame = Inr parent0"
    and r2: "bind_err (if dict_get g ''transform_x'' \<noteq> PNone \<and> dict_get g ''x'' \<noteq> PNone
                      then ext_apply_transform ext parent0 (dict_get g ''transform_x'') (dict_get g ''x'')
                      else Inr parent0)
              (\<lambda>parent1.
            bind_err (if dict_get g ''transform_y'' \<noteq> PNone \<and> dict_get g ''y'' \<noteq> PNone
                      then ext_apply_transform ext parent1 (dict_get g ''transform_y'') (dict_get g ''y'')
                      else Inr parent1)
              (\<lambda>parent.
            bind_err (getitem g ''shape'') (\<lambda>shape.
              if shape = PStr ''threshold'' then threshold_1d g parent
              else if shape = PStr ''2d_threshold'' then threshold_2d g parent
              else if shape = PStr ''rect'' then rect g parent
              else if shape = PStr ''ellipse'' then ellipse ext g parent
              else if shape = PStr ''poly'' then poly ext g parent
              else Inl ValueError))) = Inr ix"
    by (rule bind_err_InrE) (cases "truthy (dict_get g ''x'')", simp_all add: Let_def split del: if_split)
  from r2 obtain parent1 where
    p1: "(if dict_get g ''transform_x'' \<noteq> PNone \<and> dict_get g ''x'' \<noteq> PNone
          then ext_apply_transform ext parent0 (dict_get g ''transform_x'') (dict_get g ''x'')
          else Inr parent0) = Inr parent1"
    and r3: "bind_err (if dict_get g ''transform_y'' \<noteq> PNone \<and> dict_get g ''y'' \<noteq> PNone
                      then ext_apply_transform ext parent1 (dict_get g ''transform_y'') (dict_get g ''y'')
                      else Inr parent1)
              (\<lambda>parent.
            bind_err (getitem g ''shape'') (\<lambda>shape.
              if shape = PStr ''threshold'' then threshold_1d g parent
              else if shape = PStr ''2d_threshold'' then threshold_2d g parent
              else if shape = PStr ''rect'' then rect g parent
              else if shape = PStr ''ellipse'' then ellipse ext g parent
              else if shape = PStr ''poly'' then poly ext g parent
              else Inl ValueError)) = Inr ix"
    by (rule bind_err_InrE)
  from r3 obtain parent where
    p2: "(if dict_get g ''transform_y'' \<noteq> PNone \<and> dict_get g ''y'' \<noteq> PNone
          then ext_apply_transform ext parent1 (dict_get g ''transform_y'') (dict_get g ''y'')
          else Inr parent1) = Inr parent"
    and r4: "bind_err (getitem g ''shape'') (\<lambda>shape.
              if shape = PStr ''threshold'' then threshold_1d g parent
              else if shape = PStr ''2d_threshold'' then threshold_2d g parent
              else if shape = PStr ''rect'' then rect g parent
              else if shape = PStr ''ellipse'' then ellipse ext g parent
              else if shape = PStr ''poly'' then poly ext g parent
              else Inl ValueError) = Inr ix"
    by (rule bind_err_InrE)
  from p1 have q1: "parent1 = parent0 \<or> (\<exists>m f. ext_apply_transform ext parent0 m f = Inr parent1)"
    by (auto split: if_splits)
  from p2 have q2: "parent = parent1 \<or> (\<exists>m f. ext_apply_transform ext parent1 m f = Inr parent)"
    by (auto split: if_splits)
  from r4 have br: "threshold_1d g parent = Inr ix \<or> threshold_2d g parent = Inr ix
       \<or> rect g parent = Inr ix \<or> ellipse ext g parent = Inr ix \<or> poly ext g parent = Inr ix"
    unfolding bind_err_Inr [of _ _ ix] by (auto split: if_splits)
  from n p0 q1 q2 br show ?thesis by blast
qed

lemma update_index_sub:
  assumes ext: "ext_ok ext" and ok: "tree_ok_pending e cs"
    and a: "map_of (populations e) c = Some a"
    and u: "update_index ext e c g = Inr ix"
  shows "\<exists>p. node_parent (heap e ! a) = Some p \<and> set ix \<subseteq> set (node_index (heap e ! p))"
proof -
  note nok = tree_ok_pendingD [OF ok a]
  then have alt: "a < length (heap e)" by (simp add: node_ok_def)
  with a have pn: "pop_node e c = Inr (heap e ! a)"
    by (simp add: pop_node_def getitem_def deref_def bind_err_def)
  from update_index_unfold [OF u] obtain n pname parent0 parent1 parent where
    n: "pop_node e c = Inr n"
    and pname0: "parent_name_of e n = Inr pname"
    and p0: "bind_err (get_population_df e pname) the_frame = Inr parent0"
    and p1: "parent1 = parent0 \<or> (\<exists>m f. ext_apply_transform ext parent0 m f = Inr parent1)"
    and p2: "parent = parent1 \<or> (\<exists>m f. ext_apply_transform ext parent1 m f = Inr parent)"
    and br: "threshold_1d g parent = Inr ix \<or> threshold_2d g parent = Inr ix
       \<or> rect g parent = Inr ix \<or> ellipse ext g parent = Inr ix \<or> poly ext g parent = Inr ix"
    by blast
  from n pn have "n = heap e ! a" by simp
  with pname0 have pname: "parent_name_of e (heap e ! a) = Inr pname" by simp
  from parent_name_of_ok [OF nok pname] obtain p where
    p: "node_parent (heap e ! a) = Some p" "pname = node_name (heap e ! p)"
      "map_of (populations e) pname = Some p" "p < a"
    by blast
  from p(4) alt have plt: "p < length (heap e)" by simp
  from p0 obtain d where d: "get_population_df e pname = Inr (Some d)" "d = parent0"
    by (auto simp: bind_err_Inr the_frame_def split: option.splits)
  from d p(3) plt have "df_loc (data e) (node_index (heap e ! p)) = Inr parent0"
    by (auto simp: get_population_df_def has_key_def pop_node_def getitem_def deref_def
        bind_err_Inr split: if_splits)
  from df_loc_sub [OF this] have s0: "set (df_index parent0) \<subseteq> set (node_index (heap e ! p))" .
  from p1 ext have s1: "set (df_index parent1) \<subseteq> set (df_index parent0)"
    unfolding ext_ok_def by blast
  from p2 ext have s2: "set (df_index parent) \<subseteq> set (df_index parent1)"
    unfolding ext_ok_def by blast
  from br have "set ix \<subseteq> set (df_index parent)"
    using threshold_1d_sub threshold_2d_sub rect_sub ellipse_sub poly_sub [OF ext] by blast
  with s0 s1 s2 have "set ix \<subseteq> set (node_index (heap e ! p))" by blast
  with p(1) show ?thesis by simp
qed

lemma below_root_heap:
  assumes "length h' = length (heap e)"
    and "\<forall>i < length (heap e). node_parent (h' ! i) = node_parent (heap e ! i)"
  shows "below_root (e\<lparr>heap := h'\<rparr>) x = below_root e x"
  using node_path_cong [OF assms] by (simp add: below_root_def cong: option.case_cong)

lemma heap_update_preserves:
  assumes ok: "tree_ok_pending e cs" and a: "map_of (populations e) c = Some a"
    and nm: "node_name n' = node_name (heap e ! a)"
    and par: "node_parent n' = node_parent (heap e ! a)"
    and sub: "set cs \<subseteq> set cs'"
    and ix: "node_index n' = node_index (heap e ! a)
       \<or> ((\<forall>p. node_parent n' = Some p \<longrightarrow> set (node_index n') \<subseteq> set (node_index (heap e ! p)))
          \<and> (\<forall>x \<in> set (node_children ((heap e)[a := n']) a).
                node_name ((heap e)[a := n'] ! x) \<in> set cs'))"
  shows "tree_ok_pending (e\<lparr>heap := (heap e)[a := n']\<rparr>) cs'"
proof -
  let ?h = "heap e" and ?h' = "(heap e)[a := n']"
  let ?e' = "e\<lparr>heap := ?h'\<rparr>"
  note aok = tree_ok_pendingD [OF ok a]
  then have alt: "a < length ?h" and ca: "node_name (?h ! a) = c" by (simp_all add: node_ok_def)
  have len: "length ?h' = length ?h" by simp
  have pars: "\<forall>i < length ?h. node_parent (?h' ! i) = node_parent (?h ! i)"
    using par alt by (auto simp: nth_list_update)
  have names: "\<And>i. i < length ?h \<Longrightarrow> node_name (?h' ! i) = node_name (?h ! i)"
    using nm alt by (auto simp: nth_list_update)
  note br = below_root_heap [OF len pars]
  show ?thesis
    unfolding tree_ok_pending_iff
  proof (intro conjI allI impI)
    fix y assume y: "y < length (heap ?e')" "below_root ?e' y"
    then have "y < length ?h" "below_root e y" by (simp_all add: br)
    from tree_ok_closed [OF ok this] names [OF \<open>y < length ?h\<close>]
    show "map_of (populations ?e') (node_name (heap ?e' ! y)) = Some y" by simp
  next
    fix name x assume "map_of (populations ?e') name = Some x"
    then have b: "map_of (populations e) name = Some x" by simp
    note xok = tree_ok_pendingD [OF ok b]
    then have xlt: "x < length ?h" and xn: "node_name (?h ! x) = name" and xb: "below_root e x"
      by (simp_all add: node_ok_def)
    have "case node_parent (?h' ! x) of None \<Rightarrow> True
          | Some p \<Rightarrow> p < x \<and> map_of (populations e) (node_name (?h' ! p)) = Some p
              \<and> (set (node_index (?h' ! x)) \<subseteq> set (node_index (?h' ! p)) \<or> name \<in> set cs')"
    proof (cases "node_parent (?h' ! x)")
      case None
      then show ?thesis by simp
    next
      case (Some p)
      with pars xlt have hp: "node_parent (?h ! x) = Some p" by simp
      note pp = node_ok_parent [OF xok hp]
      from pp(1) xlt have plt: "p < length ?h" by simp
      from pp(2) names [OF plt] have pm: "map_of (populations e) (node_name (?h' ! p)) = Some p"
        by simp
      have "set (node_index (?h' ! x)) \<subseteq> set (node_index (?h' ! p)) \<or> name \<in> set cs'"
      proof (cases "node_index n' = node_index (?h ! a)")
        case True
        with alt have "\<And>i. i < length ?h \<Longrightarrow> node_index (?h' ! i) = node_index (?h ! i)"
          by (auto simp: nth_list_update)
        with xlt plt pp(3) sub show ?thesis by auto
      next
        case False
        with ix have new: "\<forall>p. node_parent n' = Some p \<longrightarrow>
            set (node_index n') \<subseteq> set (node_index (?h ! p))"
          and ch: "\<forall>x \<in> set (node_children ?h' a). node_name (?h' ! x) \<in> set cs'"
          by blast+
        show ?thesis
        proof (cases "x = a")
          case True
          with hp par have "node_parent n' = Some p" by simp
          with new have "set (node_index n') \<subseteq> set (node_index (?h ! p))" by blast
          moreover from True pp(1) have "p \<noteq> a" by simp
          ultimately show ?thesis using True alt by (simp add: nth_list_update)
        next
          case xa: False
          show ?thesis
          proof (cases "p = a")
            case True
            with pp(1) Some xlt have "x \<in> set (node_children ?h' a)"
              by (simp add: node_children_def)
            with ch have "node_name (?h' ! x) \<in> set cs'" by blast
            with names [OF xlt] xn show ?thesis by simp
          next
            case False
            with xa pp(3) sub show ?thesis by (auto simp: nth_list_update)
          qed
        qed
      qed
      with Some pp(1) pm show ?thesis by simp
    qed
    with xlt xn xb names [OF xlt] show "node_ok ?e' cs' name x"
      by (simp add: node_ok_def br cong: option.case_cong)
  qed
qed

lemma edit_children_step:
  assumes "edit_children ext e ug (c # cs) imm = Inr r"
  shows "\<exists>g a ix.
      map_of (populations e) c = Some a \<and> a < length (heap e)
    \<and> update_index ext (e\<lparr>heap := (heap e)[a := (heap e ! a)\<lparr>node_geom := Some g\<rparr>]\<rparr>) c g = Inr ix
    \<and> edit_children ext
         (e\<lparr>heap := (heap e)[a := (heap e ! a)\<lparr>node_geom := Some g, node_index := ix\<rparr>]\<rparr>) ug cs
         (imm @ map (\<lambda>x. node_name ((heap e)[a := (heap e ! a)\<lparr>node_geom := Some g, node_index := ix\<rparr>] ! x))
                  (node_children ((heap e)[a := (heap e ! a)\<lparr>node_geom := Some g, node_index := ix\<rparr>]) a))
       = Inr r"
proof -
  from assms obtain g where g: "getitem ug c = Inr g"
    and r1: "bind_err (getitem (populations e) c) (\<lambda>a.
        bind_err (deref e a) (\<lambda>n.
          let e1 = e\<lparr>heap := (heap e)[a := n\<lparr>node_geom := Some g\<rparr>]\<rparr> in
          bind_err (update_index ext e1 c g) (\<lambda>ix.
            let e2 = e1\<lparr>heap := (heap e1)[a := (heap e1 ! a)\<lparr>node_index := ix\<rparr>]\<rparr> in
            bind_err (find_dependencies e2 c) (\<lambda>deps.
              case deps of
                None \<Rightarrow> Inl TypeError
              | Some effected \<Rightarrow>
                  edit_children ext e2 ug cs
                    (imm
                       @ map (\<lambda>x. node_name (heap e2 ! x)) (node_children (heap e2) a)))))) = Inr r"
    by (cases "has_key ug c") (auto simp: bind_err_Inr)
  from r1 obtain a where a: "getitem (populations e) c = Inr a"
    and r2: "bind_err (deref e a) (\<lambda>n.
          let e1 = e\<lparr>heap := (heap e)[a := n\<lparr>node_geom := Some g\<rparr>]\<rparr> in
          bind_err (update_index ext e1 c g) (\<lambda>ix.
            let e2 = e1\<lparr>heap := (heap e1)[a := (heap e1 ! a)\<lparr>node_index := ix\<rparr>]\<rparr> in
            bind_err (find_dependencies e2 c) (\<lambda>deps.
              case deps of
                None \<Rightarrow> Inl TypeError
              | Some effected \<Rightarrow>
                  edit_children ext e2 ug cs
                    (imm
                       @ map (\<lambda>x. node_name (heap e2 ! x)) (node_children (heap e2) a))))) = Inr r"
    by (rule bind_err_InrE)
  from r2 obtain n where n: "deref e a = Inr n"
    and r3: "(let e1 = e\<lparr>heap := (heap e)[a := n\<lparr>node_geom := Some g\<rparr>]\<rparr> in
          bind_err (update_index ext e1 c g) (\<lambda>ix.
            let e2 = e1\<lparr>heap := (heap e1)[a := (heap e1 ! a)\<lparr>node_index := ix\<rparr>]\<rparr> in
            bind_err (find_dependencies e2 c) (\<lambda>deps.
              case deps of
                None \<Rightarrow> Inl TypeError
              | Some effected \<Rightarrow>
                  edit_children ext e2 ug cs
                    (imm
                       @ map (\<lambda>x. node_name (heap e2 ! x)) (node_children (heap e2) a))))) = Inr r"
    by (rule bind_err_InrE)
  from n have alt: "a < length (heap e)" and nn: "n = heap e ! a"
    by (auto simp: deref_def split: if_splits)
  from a have am: "map_of (populations e) c = Some a"
    by (auto simp: getitem_def split: option.splits)
  let ?e1 = "e\<lparr>heap := (heap e)[a := (heap e ! a)\<lparr>node_geom := Some g\<rparr>]\<rparr>"
  from r3 nn obtain ix where u: "update_index ext ?e1 c g = Inr ix"
    and r4: "(let e2 = ?e1\<lparr>heap := (heap ?e1)[a := (heap ?e1 ! a)\<lparr>node_index := ix\<rparr>]\<rparr> in
            bind_err (find_dependencies e2 c) (\<lambda>deps.
              case deps of
                None \<Rightarrow> Inl TypeError
              | Some effected \<Rightarrow>
                  edit_children ext e2 ug cs
                    (imm
                       @ map (\<lambda>x. node_name (heap e2 ! x)) (node_children (heap e2) a)))) = Inr r"
    unfolding Let_def by (auto elim: bind_err_InrE)
  let ?h2 = "(heap e)[a := (heap e ! a)\<lparr>node_geom := Some g, node_index := ix\<rparr>]"
  have h2: "(heap ?e1)[a := (heap ?e1 ! a)\<lparr>node_index := ix\<rparr>] = ?h2"
    using alt by simp
  from r4 have "edit_children ext (e\<lparr>heap := ?h2\<rparr>) ug cs
         (imm @ map (\<lambda>x. node_name (?h2 ! x)) (node_children ?h2 a)) = Inr r"
    unfolding Let_def h2
    by (auto simp: bind_err_Inr split: option.splits)
  with am alt u show ?thesis by blast
qed

lemma edit_children_preserves:
  assumes ext: "ext_ok ext"
  shows "tree_ok_pending e imm \<Longrightarrow> edit_children ext e ug cs imm = Inr (e', imm')
           \<Longrightarrow> tree_ok_pending e' imm'"
proof (induction cs arbitrary: e imm)
  case Nil
  then show ?case by simp
next
  case (Cons c cs)
  from edit_children_step [OF Cons.prems(2)] obtain g a ix where
    am: "map_of (populations e) c = Some a" and alt: "a < length (heap e)"
    and u: "update_index ext (e\<lparr>heap := (heap e)[a := (heap e ! a)\<lparr>node_geom := Some g\<rparr>]\<rparr>) c g = Inr ix"
    and rest: "edit_children ext
         (e\<lparr>heap := (heap e)[a := (heap e ! a)\<lparr>node_geom := Some g, node_index := ix\<rparr>]\<rparr>) ug cs
         (imm @ map (\<lambda>x. node_name ((heap e)[a := (heap e ! a)\<lparr>node_geom := Some g, node_index := ix\<rparr>] ! x))
                  (node_children ((heap e)[a := (heap e ! a)\<lparr>node_geom := Some g, node_index := ix\<rparr>]) a))
       = Inr (e', imm')"
    by blast
  let ?n1 = "(heap e ! a)\<lparr>node_geom := Some g\<rparr>"
  let ?e1 = "e\<lparr>heap := (heap e)[a := ?n1]\<rparr>"
  let ?n2 = "(heap e ! a)\<lparr>node_geom := Some g, node_index := ix\<rparr>"
  let ?h2 = "(heap e)[a := ?n2]"
  let ?names = "map (\<lambda>x. node_name (?h2 ! x)) (node_children ?h2 a)"
  have ok1: "tree_ok_pending ?e1 imm"
    by (rule heap_update_preserves [OF Cons.prems(1) am]) simp_all
  have am1: "map_of (populations ?e1) c = Some a"
    using am by simp
  from update_index_sub [OF ext ok1 am1 u] alt obtain p where
    p: "node_parent (heap e ! a) = Some p" and sb: "set ix \<subseteq> set (node_index (heap ?e1 ! p))"
    by auto
  from node_ok_parent(1) [OF tree_ok_pendingD [OF Cons.prems(1) am] p] have "p \<noteq> a" by simp
  with sb have sb': "set ix \<subseteq> set (node_index (heap e ! p))" by simp
  have "tree_ok_pending (e\<lparr>heap := (heap e)[a := ?n2]\<rparr>) (imm @ ?names)"
  proof (rule heap_update_preserves [OF Cons.prems(1) am])
    show "node_name ?n2 = node_name (heap e ! a)" by simp
    show "node_parent ?n2 = node_parent (heap e ! a)" by simp
    show "set imm \<subseteq> set (imm @ ?names)" by simp
    show "node_index ?n2 = node_index (heap e ! a)
       \<or> ((\<forall>p. node_parent ?n2 = Some p \<longrightarrow> set (node_index ?n2) \<subseteq> set (node_index (heap e ! p)))
          \<and> (\<forall>x \<in> set (node_children ((heap e)[a := ?n2]) a).
                node_name ((heap e)[a := ?n2] ! x) \<in> set (imm @ ?names)))"
      using p sb' by auto
  qed
  from Cons.IH [OF this rest] show ?case .
qed

lemma edit_gate_preserves:
  assumes "ext_ok ext" and "tree_ok e" and "edit_gate ext e name ug True = Inr e'"
  shows "tree_ok e'"
proof -
  from assms(3) obtain gate :: "pyfloat gate" and e1 imm where
    ec: "edit_children ext e ug (children gate) [] = Inr (e1, imm)"
    and rm: "remove_populations e1 imm = Inr e'"
    by (auto simp: edit_gate_def bind_err_Inr split: if_splits)
  from assms(2) have "tree_ok_pending e []" by (simp add: tree_ok_def)
  from edit_children_preserves [OF assms(1) this ec] have "tree_ok_pending e1 imm" .
  from remove_populations_loop [OF this rm] show ?thesis by (simp add: tree_ok_def)
qed

section \<open>The index of a population and the index of its parent\<close>

text \<open>
  Claim C1 as stated fails for gate editing: \<^verbatim>\<open>edit_gate\<close> with \<^verbatim>\<open>delete=False\<close> recomputes
  the indices of the children of the gate and leaves the populations below them as they
  are. In the engine \<open>demo_engine\<close>, moving the threshold of \<^verbatim>\<open>G1\<close> to 0.45 empties \<^verbatim>\<open>pos\<close>,
  and \<^verbatim>\<open>act\<close> below it keeps the events 1 and 3.
\<close>

theorem edit_gate_without_delete_counterexample:
  "index_within_parent demo_engine
   \<and> map_sum id index_within_parent (edit_gate demo_ext demo_engine ''G1'' demo_edit False)
       = Inr False"
  by code_simp

lemma new_gating_ok: "tree_ok (new_gating d controls gs)"
  unfolding tree_ok_def tree_ok_pending_iff
  by (auto simp: node_ok_def below_root_def node_path_self new_gating_def)

text \<open>
  Claim C1, amended. The engine starts with a well-formed population tree, and in a
  well-formed tree the index of every population that has a parent lies within the index
  of the parent. When they return normally, the following operations turn a well-formed
  tree into a well-formed tree, so that the inclusion holds again: \<^verbatim>\<open>update_populations\<close>
  for a collection of distinct new names whose indices lie within the index of the parent
  population (the engine does not check what a gate returns), \<^verbatim>\<open>subtraction\<close>, \<^verbatim>\<open>merge\<close>,
  and \<^verbatim>\<open>edit_gate\<close> with \<^verbatim>\<open>delete=True\<close>, when \<^verbatim>\<open>apply_transform\<close> and \<^verbatim>\<open>inside_polygon\<close>
  return rows of the frame they are given.
\<close>

theorem population_index_within_parent:
  "tree_ok (new_gating d controls gs)
   \<and> (tree_ok e \<longrightarrow>
        index_within_parent e
      \<and> (\<forall>out pdf ws parent_name pa e'.
            map_of (populations e) parent_name = Some pa
            \<and> distinct (map fst out)
            \<and> (\<forall>(name, p) \<in> set out. map_of (populations e) name = None
                  \<and> set (cp_index p) \<subseteq> set (node_index (heap e ! pa)))
            \<and> update_populations e out pdf ws parent_name = Inr e'
            \<longrightarrow> tree_ok e' \<and> index_within_parent e')
      \<and> (\<forall>target parent new_name e'.
            subtraction e target parent new_name = Inr e'
            \<longrightarrow> tree_ok e' \<and> index_within_parent e')
      \<and> (\<forall>ext left right new_name e'.
            merge ext e left right new_name = Inr e'
            \<longrightarrow> tree_ok e' \<and> index_within_parent e')
      \<and> (\<forall>ext name updated_geom e'.
            ext_ok ext \<and> edit_gate ext e name updated_geom True = Inr e'
            \<longrightarrow> tree_ok e' \<and> index_within_parent e'))"
proof (intro conjI impI allI)
  show "tree_ok (new_gating d controls gs)" by (rule new_gating_ok)
next
  assume "tree_ok e"
  then show "index_within_parent e" by (rule tree_ok_index_within_parent)
next
  fix out pdf ws parent_name pa e'
  assume ok: "tree_ok e" and h: "map_of (populations e) parent_name = Some pa
            \<and> distinct (map fst out)
            \<and> (\<forall>(name, p) \<in> set out. map_of (populations e) name = None
                  \<and> set (cp_index p) \<subseteq> set (node_index (heap e ! pa)))
            \<and> update_populations e out pdf ws parent_name = Inr e'"
  from h have h1: "map_of (populations e) parent_name = Some pa"
    and h2: "distinct (map fst out)"
    and h3: "\<forall>(name, p) \<in> set out. map_of (populations e) name = None
                  \<and> set (cp_index p) \<subseteq> set (node_index (heap e ! pa))"
    and h4: "update_populations e out pdf ws parent_name = Inr e'"
    by blast+
  from update_populations_preserves [OF ok h1 h2 h3 h4] show "tree_ok e'" .
  then show "index_within_parent e'" by (rule tree_ok_index_within_parent)
next
  fix target parent new_name e'
  assume ok: "tree_ok e" and s: "subtraction e target parent new_name = Inr e'"
  from subtraction_preserves [OF ok s] show "tree_ok e'" .
  then show "index_within_parent e'" by (rule tree_ok_index_within_parent)
next
  fix ext left right new_name e'
  assume ok: "tree_ok e" and m: "merge ext e left right new_name = Inr e'"
  from merge_preserves [OF ok m] show "tree_ok e'" .
  then show "index_within_parent e'" by (rule tree_ok_index_within_parent)
next
  fix ext name updated_geom e'
  assume ok: "tree_ok e" and h: "ext_ok ext \<and> edit_gate ext e name updated_geom True = Inr e'"
  from h have "ext_ok ext" "edit_gate ext e name updated_geom True = Inr e'" by blast+
  from edit_gate_preserves [OF this(1) ok this(2)] show "tree_ok e'" .
  then show "index_within_parent e'" by (rule tree_ok_index_within_parent)
qed



text \<open>
  On the concrete engine: editing the gate \<^verbatim>\<open>G1\<close> with \<^verbatim>\<open>delete=True\<close> removes \<^verbatim>\<open>act\<close>,
  and the trees after a subtraction, a merge and a commit are well formed.
\<close>

theorem population_index_within_parent_witness:
  "tree_ok demo_engine \<and> index_within_parent demo_engine \<and> ext_ok demo_ext
   \<and> map_sum id (\<lambda>e. (index_within_parent e,
                        map (\<lambda>(n, a). (n, node_index (heap e ! a))) (populations e)))
         (edit_gate demo_ext demo_engine ''G1'' demo_edit True)
       = Inr (True, [(''root'', [1, 2, 3, 4, 5, 6]), (''pos'', []), (''neg'', [1, 2, 3, 4, 5, 6])])
   \<and> map_sum id (\<lambda>e. (index_within_parent e,
                        map (\<lambda>(n, a). (n, node_index (heap e ! a))) (populations e)))
         (subtraction demo_engine [''act''] ''pos'' ''rest'')
       = Inr (True, [(''root'', [1, 2, 3, 4, 5, 6]), (''pos'', [1, 3, 5, 6]), (''neg'', [2, 4]),
                     (''act'', [1, 3]), (''rest'', [5, 6])])
   \<and> tree_ok demo_engine_2d
   \<and> map_sum id (\<lambda>e. (index_within_parent e,
                        map (\<lambda>(n, a). (n, node_index (heap e ! a))) (populations e)))
         (merge demo_ext demo_engine_2d ''pos'' ''neg'' ''both'')
       = Inr (True, [(''root'', [1, 2, 3, 4, 5, 6]), (''pos'', [1, 3, 5, 6]), (''neg'', [2, 4]),
                     (''act'', [1, 3]), (''both'', [1, 2, 3, 4, 5, 6])])
   \<and> map_sum id (\<lambda>e. (index_within_parent e,
                        map (\<lambda>(n, a). (n, node_index (heap e ! a))) (populations e)))
         (update_populations demo_engine demo_output demo_parent [] ''pos'')
       = Inr (True, [(''root'', [1, 2, 3, 4, 5, 6]), (''pos'', [1, 3, 5, 6]), (''neg'', [2, 4]),
                     (''act'', [1, 3]), (''new'', [1, 3])])"
proof -
  have ok: "tree_ok demo_engine" and ok2: "tree_ok demo_engine_2d"
    unfolding tree_ok_def by code_simp+
  have ext: "ext_ok demo_ext"
    by (auto simp: ext_ok_def demo_ext_def)
  note th = population_index_within_parent [of _ _ _ demo_engine, THEN conjunct2, rule_format, OF ok]
  note th2 = population_index_within_parent [of _ _ _ demo_engine_2d, THEN conjunct2, rule_format, OF ok2]
  have iw: "index_within_parent demo_engine"
    by (rule th [THEN conjunct1])
  have bound: "map_sum id (\<lambda>e. map (\<lambda>(n, a). (n, node_index (heap e ! a))) (populations e))
         (edit_gate demo_ext demo_engine ''G1'' demo_edit True)
       = Inr [(''root'', [1, 2, 3, 4, 5, 6]), (''pos'', []), (''neg'', [1, 2, 3, 4, 5, 6])]"
    "map_sum id (\<lambda>e. map (\<lambda>(n, a). (n, node_index (heap e ! a))) (populations e))
         (subtraction demo_engine [''act''] ''pos'' ''rest'')
       = Inr [(''root'', [1, 2, 3, 4, 5, 6]), (''pos'', [1, 3, 5, 6]), (''neg'', [2, 4]),
              (''act'', [1, 3]), (''rest'', [5, 6])]"
    "map_sum id (\<lambda>e. map (\<lambda>(n, a). (n, node_index (heap e ! a))) (populations e))
         (merge demo_ext demo_engine_2d ''pos'' ''neg'' ''both'')
       = Inr [(''root'', [1, 2, 3, 4, 5, 6]), (''pos'', [1, 3, 5, 6]), (''neg'', [2, 4]),
              (''act'', [1, 3]), (''both'', [1, 2, 3, 4, 5, 6])]"
    "map_sum id (\<lambda>e. map (\<lambda>(n, a). (n, node_index (heap e ! a))) (populations e))
         (update_populations demo_engine demo_output demo_parent [] ''pos'')
       = Inr [(''root'', [1, 2, 3, 4, 5, 6]), (''pos'', [1, 3, 5, 6]), (''neg'', [2, 4]),
              (''act'', [1, 3]), (''new'', [1, 3])]"
    by code_simp+
  from bound(1) obtain e1 where e1: "edit_gate demo_ext demo_engine ''G1'' demo_edit True = Inr e1"
    by (cases "edit_gate demo_ext demo_engine ''G1'' demo_edit True") simp_all
  from bound(2) obtain e2 where e2: "subtraction demo_engine [''act''] ''pos'' ''rest'' = Inr e2"
    by (cases "subtraction demo_engine [''act''] ''pos'' ''rest''") simp_all
  from bound(3) obtain e3 where e3: "merge demo_ext demo_engine_2d ''pos'' ''neg'' ''both'' = Inr e3"
    by (cases "merge demo_ext demo_engine_2d ''pos'' ''neg'' ''both''") simp_all
  from bound(4) obtain e4 where
    e4: "update_populations demo_engine demo_output demo_parent [] ''pos'' = Inr e4"
    by (cases "update_populations demo_engine demo_output demo_parent [] ''pos''") simp_all
  have h4: "map_of (populations demo_engine) ''pos'' = Some 1
            \<and> distinct (map fst demo_output)
            \<and> (\<forall>(name, p) \<in> set demo_output. map_of (populations demo_engine) name = None
                  \<and> set (cp_index p) \<subseteq> set (node_index (heap demo_engine ! 1)))
            \<and> update_populations demo_engine demo_output demo_parent [] ''pos'' = Inr e4"
    using e4 by (simp add: demo_engine_def demo_output_def demo_node_def)
  have r1: "index_within_parent e1"
    using th [THEN conjunct2, THEN conjunct2, THEN conjunct2, THEN conjunct2, rule_format,
        of demo_ext "''G1''" demo_edit e1] ext e1 by blast
  have r2: "index_within_parent e2"
    using th [THEN conjunct2, THEN conjunct2, THEN conjunct1, rule_format, OF e2] by blast
  have r3: "index_within_parent e3"
    using th2 [THEN conjunct2, THEN conjunct2, THEN conjunct2, THEN conjunct1, rule_format, OF e3]
    by blast
  have r4: "index_within_parent e4"
    using th [THEN conjunct2, THEN conjunct1, rule_format, OF h4] by blast
  from ok ok2 ext iw bound r1 r2 r3 r4 show ?thesis
    by (simp add: e1 e2 e3 e4)
qed

end
